theory Spec2Isabelle
  imports Main "HOL-Library.Char_ord" "HOL-Library.List_Lexorder"
begin

section \<open>Unified Mail: the synchronisation and ingestion pipeline\<close>

text \<open>
  A shallow embedding of the backend's ingestion path: \<^verbatim>\<open>MessageService\<close>
  (message.service.ts), \<^verbatim>\<open>SyncService\<close> (sync.service.ts), \<^verbatim>\<open>GmailAdapter\<close>
  (gmail.adapter.ts), \<^verbatim>\<open>VaultService\<close> (vault.service.ts), the queue wiring
  (queues/index.ts) with the sync and index workers, and the tables, keys and trigger of
  001_initial_schema.sql.

  Conventions. Every \<^verbatim>\<open>await\<close>ed call is a function from the world to a result and
  a new world; a thrown exception is \<open>Inl\<close>. A table is the list of its rows in scan
  order: \<^verbatim>\<open>INSERT\<close> appends, \<^verbatim>\<open>SELECT ... LIMIT 1\<close> without
  \<^verbatim>\<open>ORDER BY\<close> yields the first row that matches. An insert checks the input syntax
  of the \<^verbatim>\<open>uuid\<close> columns it is given values for, the primary key, the unique key of
  \<^verbatim>\<open>messages\<close> and the foreign keys; a statement that does not parse fails before any
  of that. Identifiers are strings and timestamps are milliseconds since the epoch. The
  account identifiers that the callers pass are those of rows of \<^verbatim>\<open>accounts\<close> or at
  least of the \<^verbatim>\<open>uuid\<close> syntax, so that a lookup by such an identifier finds a row or
  none. Each statement runs in its own transaction (the services use \<^verbatim>\<open>db.query\<close> on
  the pool), so a failed statement leaves the earlier ones in place. Columns and fields that
  no control flow reads are left out: sender names, blind copies, labels, references, sizes,
  the body texts with their previews, the header blob and the row timestamps. Failures of the
  database other than these, and of the vault other than a missing secret, are outside the
  model.
\<close>

subsection \<open>Strings\<close>

text \<open>
  Subjects are strings of code units below 256. \<open>js_space\<close> is the class \<^verbatim>\<open>\s\<close> of a
  JavaScript regular expression, which is also what \<^verbatim>\<open>trim\<close> removes;
  \<open>toLowerCase_char\<close> is \<^verbatim>\<open>toLowerCase\<close> on one code unit: the upper-case letters
  are A-Z and 0xC0-0xDE without 0xD7, and the lower-case letter is 32 above, which sets bit 5.
\<close>

definition js_space :: "char \<Rightarrow> bool" where
  "js_space c = ((of_char c :: nat) \<in> {9, 10, 11, 12, 13, 32, 160})"

definition ascii_upper :: "char \<Rightarrow> bool" where
  "ascii_upper c = (65 \<le> (of_char c :: nat) \<and> (of_char c :: nat) \<le> 90)"

definition latin1_upper :: "char \<Rightarrow> bool" where
  "latin1_upper c =
     (192 \<le> (of_char c :: nat) \<and> (of_char c :: nat) \<le> 222 \<and> (of_char c :: nat) \<noteq> 215)"

fun set_bit5 :: "char \<Rightarrow> char" where
  "set_bit5 (Char b0 b1 b2 b3 b4 b5 b6 b7) = Char b0 b1 b2 b3 b4 True b6 b7"

definition toLowerCase_char :: "char \<Rightarrow> char" where
  "toLowerCase_char c = (if ascii_upper c \<or> latin1_upper c then set_bit5 c else c)"

definition toLowerCase :: "string \<Rightarrow> string" where
  "toLowerCase s = map toLowerCase_char s"

definition trim :: "string \<Rightarrow> string" where
  "trim s = rev (dropWhile js_space (rev (dropWhile js_space s)))"

text \<open>
  With the flag \<^verbatim>\<open>i\<close> and without \<^verbatim>\<open>u\<close>, a pattern letter a-z matches itself and
  its ASCII upper-case letter only: a code unit of 128 or more never folds to an ASCII one.
\<close>

definition ci_letter :: "char \<Rightarrow> char \<Rightarrow> bool" where
  "ci_letter p c = (c = p \<or> (ascii_upper c \<and> set_bit5 c = p))"

fun ci_prefix :: "string \<Rightarrow> string \<Rightarrow> string option" where
  "ci_prefix [] s = Some s"
| "ci_prefix (p # ps) [] = None"
| "ci_prefix (p # ps) (c # cs) = (if ci_letter p c then ci_prefix ps cs else None)"

text \<open>
  One alternative of \<^verbatim>\<open>(re|fwd|fw)\<close>, then the colon, then \<^verbatim>\<open>\s*\<close>, which is greedy
  and followed by nothing. The result is the text after the match.
\<close>

definition match_alternative :: "string \<Rightarrow> string \<Rightarrow> string option" where
  "match_alternative alt s =
     (case ci_prefix alt s of
        None \<Rightarrow> None
      | Some r \<Rightarrow> (case r of [] \<Rightarrow> None
                   | c # t \<Rightarrow> if c = CHR '':'' then Some (dropWhile js_space t) else None))"

text \<open>
  \<^verbatim>\<open>/^(re|fwd|fw):\s*/gi\<close> at the start of the input: the alternatives are tried in
  the order written, and the first that lets the whole pattern match wins.
\<close>

definition match_reply_prefix :: "string \<Rightarrow> string option" where
  "match_reply_prefix s =
     (case match_alternative ''re'' s of
        Some r \<Rightarrow> Some r
      | None \<Rightarrow> (case match_alternative ''fwd'' s of
                   Some r \<Rightarrow> Some r
                 | None \<Rightarrow> match_alternative ''fw'' s))"

text \<open>
  \<^verbatim>\<open>subject.replace(/^(re|fwd|fw):\s*/gi, '')\<close>. The pattern has no flag \<^verbatim>\<open>m\<close>,
  so \<^verbatim>\<open>^\<close> holds at index 0 only. A match there is at least three code units long, and
  the search that the flag \<^verbatim>\<open>g\<close> resumes behind it starts at a positive index, where
  \<^verbatim>\<open>^\<close> fails: at most one match is replaced.
\<close>

definition replace_reply_prefix :: "string \<Rightarrow> string" where
  "replace_reply_prefix s = (case match_reply_prefix s of Some r \<Rightarrow> r | None \<Rightarrow> s)"

text \<open>\<^verbatim>\<open>MessageService.normalizeSubject\<close>.\<close>

definition normalizeSubject :: "string \<Rightarrow> string" where
  "normalizeSubject s = take 255 (toLowerCase (trim (replace_reply_prefix s)))"

subsection \<open>Data model\<close>

type_synonym uuid = string
type_synonym timestamp = int

text \<open>
  The input syntax of the column type \<^verbatim>\<open>uuid\<close> in PostgreSQL: eight groups of four
  hexadecimal digits, each but the last optionally followed by a hyphen, and optionally braces
  around the whole. A text of another form is rejected with the error 22P02.
\<close>

definition hex_digit :: "char \<Rightarrow> bool" where
  "hex_digit c = (c \<in> set ''0123456789abcdefABCDEF'')"

fun uuid_groups :: "nat \<Rightarrow> string \<Rightarrow> bool" where
  "uuid_groups 0 s = (s = [])"
| "uuid_groups (Suc n) (a # b # c # d # s) =
     (hex_digit a \<and> hex_digit b \<and> hex_digit c \<and> hex_digit d \<and>
      (uuid_groups n s \<or>
       (n \<noteq> 0 \<and> (case s of [] \<Rightarrow> False | h # s' \<Rightarrow> h = CHR ''-'' \<and> uuid_groups n s'))))"
| "uuid_groups (Suc n) s = False"

definition is_uuid :: "string \<Rightarrow> bool" where
  "is_uuid s =
     (uuid_groups 8 s \<or>
      (case s of
         [] \<Rightarrow> False
       | h # s' \<Rightarrow> h = CHR ''{'' \<and> s' \<noteq> [] \<and> last s' = CHR ''}'' \<and> uuid_groups 8 (butlast s')))"

datatype provider = Gmail | Office365 | Imap | Protonmail | Smtp

datatype account_status = Active | AuthFailed | Disabled | Syncing

datatype job_status = Pending | Running | Completed | Failed

text \<open>A row of \<^verbatim>\<open>accounts\<close>. The cursor is the instant whose ISO rendering is stored.\<close>

record account =
  acc_id :: uuid
  acc_provider :: provider
  acc_email :: string
  acc_status :: account_status
  acc_last_sync_at :: "timestamp option"
  acc_last_sync_error :: "string option"
  acc_sync_cursor :: "timestamp option"

text \<open>A row of \<^verbatim>\<open>threads\<close>; \<^verbatim>\<open>message_count\<close> has the default 1.\<close>

record thread =
  thr_id :: uuid
  thr_subject_normalized :: string
  thr_first_message_date :: timestamp
  thr_last_message_date :: timestamp
  thr_message_count :: nat
  thr_participants :: "string list"

text \<open>
  A row of \<^verbatim>\<open>messages\<close>, which is also the \<^verbatim>\<open>StoredMessage\<close> that
  \<^verbatim>\<open>mapDbRowToMessage\<close> returns. \<^verbatim>\<open>thread_id\<close> is nullable.
\<close>

record message =
  msg_id :: uuid
  msg_account_id :: uuid
  msg_message_id :: string
  msg_thread_id :: "uuid option"
  msg_folder :: string
  msg_subject :: string
  msg_from_email :: string
  msg_to_emails :: "string list"
  msg_cc_emails :: "string list"
  msg_date :: timestamp
  msg_has_attachments :: bool
  msg_is_read :: bool
  msg_is_starred :: bool
  msg_is_spam :: bool
  msg_s3_key :: string
  msg_in_reply_to :: "string option"

record attachment =
  att_id :: uuid
  att_message_id :: uuid
  att_filename :: string
  att_content_type :: string
  att_size_bytes :: nat
  att_s3_key :: string
  att_checksum :: string

record sync_job =
  job_id :: uuid
  job_account_id :: uuid
  job_status :: job_status
  job_messages_synced :: nat
  job_error_message :: "string option"

text \<open>\<^verbatim>\<open>EmailAttachment\<close> and \<^verbatim>\<open>EmailMessage\<close> of base.adapter.ts.\<close>

record email_attachment =
  filename :: string
  contentType :: string
  size_att :: nat
  content :: string

record email_message =
  messageId :: string
  subject :: string
  fromEmail :: string
  toEmails :: "string list"
  ccEmails :: "string list"
  date :: timestamp
  hasAttachments :: bool
  attachments :: "email_attachment list"
  inReplyTo :: "string option"
  folder :: string
  isRead :: bool
  isStarred :: bool
  rawEmail :: string

text \<open>\<^verbatim>\<open>AccountCredentials\<close> of vault.service.ts, with its OAuth part.\<close>

record oauth =
  access_token :: string
  refresh_token :: string
  expires_at :: timestamp

record credentials =
  cred_provider :: provider
  cred_email :: string
  cred_oauth :: "oauth option"

text \<open>\<^verbatim>\<open>SyncOptions\<close> as the adapter receives them, and the options of \<^verbatim>\<open>syncAccount\<close>.\<close>

record sync_options =
  sinceDate :: "timestamp option"
  maxMessages :: nat

record sync_request =
  req_sinceDate :: "timestamp option"
  req_maxMessages :: "nat option"

record sync_result =
  res_success :: bool
  res_messagesSynced :: nat
  res_error :: "string option"

text \<open>The payload of a \<^verbatim>\<open>tokens\<close> event of the OAuth client. A refresh token comes with
  some responses of the token endpoint only.\<close>

record token_event =
  ev_access_token :: string
  ev_refresh_token :: "string option"
  ev_expiry_date :: timestamp

text \<open>The document that the index worker hands to the search engine.\<close>

record indexed_message =
  message_uuid :: uuid
  im_account_id :: uuid
  im_message_id :: string
  im_subject :: string
  im_body_text :: string
  im_attachment_filenames :: "string list"

subsection \<open>Errors\<close>

text \<open>
  What the code throws: its own \<^verbatim>\<open>new Error(msg)\<close>, the errors of the database (a
  statement that does not parse, 42601; a text that is not of the syntax of its column's
  type, 22P02; the constraint violations), and the failures of the blob store, the provider,
  the queue and the search engine.
\<close>

datatype error =
    Error string
  | SyntaxError string
  | InvalidTextRepresentation string
  | UniqueViolation string
  | ForeignKeyViolation string
  | StorageError string
  | ProviderError string
  | QueueError string
  | SearchError string

fun error_message :: "error \<Rightarrow> string" where
  "error_message (Error m) = m"
| "error_message (SyntaxError t) = ''syntax error at or near '' @ t"
| "error_message (InvalidTextRepresentation v) = ''invalid input syntax for type uuid: '' @ v"
| "error_message (UniqueViolation c) = ''duplicate key value violates unique constraint '' @ c"
| "error_message (ForeignKeyViolation c) = ''insert violates foreign key constraint '' @ c"
| "error_message (StorageError m) = m"
| "error_message (ProviderError m) = m"
| "error_message (QueueError m) = m"
| "error_message (SearchError m) = m"

subsection \<open>The world and its environment\<close>

text \<open>What one \<^verbatim>\<open>gmail.users.messages.get\<close> with the raw format yields: a failure, a
  record without raw content, or raw content with the \<^verbatim>\<open>EmailMessage\<close> that mailparser
  and \<^verbatim>\<open>parseMimeToEmailMessage\<close> make of it (or the exception they throw).\<close>

datatype gmail_get =
    GetFailed string
  | NoRaw
  | ParseFailed string
  | Raw email_message

text \<open>
  The state: the five tables, the secrets in the vault with the history of writes, the
  objects in the bucket, the data of the jobs waiting in the index queue, the documents in
  the search index, the options of every fetch issued to the provider, the number of calls to
  the provider's token endpoint, the warnings and errors logged (logger context, message,
  detail), and the number of identifiers drawn so far.
\<close>

record world =
  db_accounts :: "account list"
  db_threads :: "thread list"
  db_messages :: "message list"
  db_attachments :: "attachment list"
  db_sync_jobs :: "sync_job list"
  vault_kv :: "(uuid \<times> credentials) list"
  vault_writes :: "(uuid \<times> credentials) list"
  s3_objects :: "(string \<times> string) list"
  index_queue :: "uuid list"
  search_index :: "(uuid \<times> indexed_message) list"
  fetch_log :: "sync_options list"
  refresh_calls :: nat
  error_log :: "(string \<times> string \<times> string) list"
  rng :: nat

text \<open>
  What the code does not decide: the characters that \<^verbatim>\<open>nanoid\<close> draws and the
  identifiers that the database generates with \<^verbatim>\<open>uuid_generate_v4\<close>, the key formats
  and the digest of storage.service.ts, whether the bucket, the queue, the search engine and
  the provider answer, what the provider lists, what its token endpoint answers to the n-th
  refresh, the text that mailparser extracts, the clock when the fetch window is computed and
  when the cursor is written, and the time zone of the process: \<^verbatim>\<open>LocalTZA(t, isUTC)\<close>
  of ECMAScript, the offset of local time from UTC in milliseconds at the instant \<open>t\<close>
  (\<^verbatim>\<open>isUTC\<close>) or at the local time \<open>t\<close>.
\<close>

record env =
  random_chars :: "nat \<Rightarrow> string"
  uuid_generate_v4 :: "nat \<Rightarrow> uuid"
  generateMessageKey :: "uuid \<Rightarrow> string \<Rightarrow> timestamp \<Rightarrow> string"
  generateAttachmentKey :: "uuid \<Rightarrow> string \<Rightarrow> uuid \<Rightarrow> string \<Rightarrow> string"
  sha256 :: "string \<Rightarrow> string"
  s3_available :: "string \<Rightarrow> bool"
  redis_available :: "uuid \<Rightarrow> bool"
  es_available :: bool
  gmail_profile :: bool
  gmail_list :: "sync_options \<Rightarrow> error + (string \<times> gmail_get) list"
  token_endpoint :: "nat \<Rightarrow> token_event"
  parse_text :: "string \<Rightarrow> string"
  clock :: timestamp
  clock_done :: timestamp
  localTZA :: "timestamp \<Rightarrow> bool \<Rightarrow> int"

definition log_entry :: "string \<Rightarrow> string \<Rightarrow> string \<Rightarrow> world \<Rightarrow> world" where
  "log_entry ctx msg detail w = w\<lparr>error_log := error_log w @ [(ctx, msg, detail)]\<rparr>"

definition log_error :: "string \<Rightarrow> string \<Rightarrow> error \<Rightarrow> world \<Rightarrow> world" where
  "log_error ctx msg e w = log_entry ctx msg (error_message e) w"

text \<open>An identifier is drawn; the next draw is the next element of the stream.\<close>

definition draw :: "world \<Rightarrow> world" where
  "draw w = w\<lparr>rng := Suc (rng w)\<rparr>"

text \<open>
  \<^verbatim>\<open>nanoid()\<close>: a string of 21 characters (of the alphabet \<^verbatim>\<open>A-Za-z0-9_-\<close>). The
  environment supplies the characters of the n-th draw; the first 21 are taken, and
  underscores fill what is missing.
\<close>

definition nanoid :: "env \<Rightarrow> nat \<Rightarrow> string" where
  "nanoid env n = take 21 (random_chars env n @ ''_____________________'')"

subsection \<open>The database statements of the message store\<close>

text \<open>\<^verbatim>\<open>SELECT * FROM messages WHERE account_id = $1 AND message_id = $2\<close>, first row.\<close>

definition getMessageByAccountAndMessageId :: "world \<Rightarrow> uuid \<Rightarrow> string \<Rightarrow> message option" where
  "getMessageByAccountAndMessageId w accountId mid =
     find (\<lambda>m. msg_account_id m = accountId \<and> msg_message_id m = mid) (db_messages w)"

definition getMessageById :: "world \<Rightarrow> uuid \<Rightarrow> message option" where
  "getMessageById w i = find (\<lambda>m. msg_id m = i) (db_messages w)"

definition getMessageAttachments :: "world \<Rightarrow> uuid \<Rightarrow> attachment list" where
  "getMessageAttachments w i = filter (\<lambda>a. att_message_id a = i) (db_attachments w)"

text \<open>The dedup key of a row: \<^verbatim>\<open>UNIQUE(account_id, message_id)\<close>.\<close>

definition dedup_key :: "message \<Rightarrow> uuid \<times> string" where
  "dedup_key m = (msg_account_id m, msg_message_id m)"

text \<open>
  \<^verbatim>\<open>INSERT INTO attachments\<close>: the syntax of \<^verbatim>\<open>id\<close> and
  \<^verbatim>\<open>message_id\<close>, which are of type \<^verbatim>\<open>uuid\<close>, the primary key, and the foreign
  key to \<^verbatim>\<open>messages(id)\<close>.
\<close>

definition insert_attachment :: "attachment \<Rightarrow> world \<Rightarrow> error + world" where
  "insert_attachment r w =
     (if \<not> is_uuid (att_id r) then Inl (InvalidTextRepresentation (att_id r))
      else if \<not> is_uuid (att_message_id r) then Inl (InvalidTextRepresentation (att_message_id r))
      else if att_id r \<in> set (map att_id (db_attachments w)) then Inl (UniqueViolation ''attachments_pkey'')
      else if att_message_id r \<notin> set (map msg_id (db_messages w))
        then Inl (ForeignKeyViolation ''attachments_message_id_fkey'')
      else Inr (w\<lparr>db_attachments := db_attachments w @ [r]\<rparr>))"

text \<open>\<^verbatim>\<open>INSERT INTO threads\<close>: the syntax of \<^verbatim>\<open>id\<close>, which is of type
  \<^verbatim>\<open>uuid\<close>, and the primary key.\<close>

definition insert_thread :: "thread \<Rightarrow> world \<Rightarrow> error + world" where
  "insert_thread r w =
     (if \<not> is_uuid (thr_id r) then Inl (InvalidTextRepresentation (thr_id r))
      else if thr_id r \<in> set (map thr_id (db_threads w)) then Inl (UniqueViolation ''threads_pkey'')
      else Inr (w\<lparr>db_threads := db_threads w @ [r]\<rparr>))"

text \<open>
  The trigger \<^verbatim>\<open>update_thread_after_message\<close>, which runs
  \<^verbatim>\<open>update_thread_participants\<close> after each inserted row: the thread that the new row
  references gets the distinct addresses, the number and the latest date of the messages
  that reference it. The new row is among them, so the maximum exists.
  \<^verbatim>\<open>ARRAY_AGG(DISTINCT email)\<close> yields the addresses sorted (here by character codes).
\<close>

definition thread_messages :: "uuid \<Rightarrow> message list \<Rightarrow> message list" where
  "thread_messages tid ms = filter (\<lambda>m. msg_thread_id m = Some tid) ms"

definition trigger_row :: "uuid \<Rightarrow> message \<Rightarrow> message list \<Rightarrow> thread \<Rightarrow> thread" where
  "trigger_row tid new ms t =
     (if thr_id t = tid
      then t\<lparr>thr_participants :=
               sort (remdups (concat (map (\<lambda>m. msg_to_emails m @ msg_cc_emails m @ [msg_from_email m]) ms))),
             thr_message_count := length ms,
             thr_last_message_date := fold max (map msg_date ms) (msg_date new)\<rparr>
      else t)"

definition update_thread_participants :: "message \<Rightarrow> world \<Rightarrow> world" where
  "update_thread_participants new w =
     (case msg_thread_id new of
        None \<Rightarrow> w
      | Some tid \<Rightarrow>
          w\<lparr>db_threads :=
              map (trigger_row tid new (thread_messages tid (db_messages w))) (db_threads w)\<rparr>)"

text \<open>
  What the table \<^verbatim>\<open>messages\<close> does with a row that a well-formed
  \<^verbatim>\<open>INSERT\<close> hands it: the syntax of \<^verbatim>\<open>id\<close>, \<^verbatim>\<open>account_id\<close> and
  \<^verbatim>\<open>thread_id\<close>, which are of type \<^verbatim>\<open>uuid\<close>, the primary key, the unique key
  \<^verbatim>\<open>(account_id, message_id)\<close>, the foreign keys to \<^verbatim>\<open>accounts(id)\<close> and
  \<^verbatim>\<open>threads(id)\<close>, then the trigger.
\<close>

definition messages_insert_row :: "message \<Rightarrow> world \<Rightarrow> error + world" where
  "messages_insert_row r w =
     (if \<not> is_uuid (msg_id r) then Inl (InvalidTextRepresentation (msg_id r))
      else if \<not> is_uuid (msg_account_id r) then Inl (InvalidTextRepresentation (msg_account_id r))
      else if (case msg_thread_id r of None \<Rightarrow> False | Some tid \<Rightarrow> \<not> is_uuid tid)
        then Inl (InvalidTextRepresentation (case msg_thread_id r of None \<Rightarrow> [] | Some tid \<Rightarrow> tid))
      else if msg_id r \<in> set (map msg_id (db_messages w)) then Inl (UniqueViolation ''messages_pkey'')
      else if dedup_key r \<in> set (map dedup_key (db_messages w))
        then Inl (UniqueViolation ''messages_account_id_message_id_key'')
      else if msg_account_id r \<notin> set (map acc_id (db_accounts w))
        then Inl (ForeignKeyViolation ''messages_account_id_fkey'')
      else if (case msg_thread_id r of None \<Rightarrow> False
               | Some tid \<Rightarrow> tid \<notin> set (map thr_id (db_threads w)))
        then Inl (ForeignKeyViolation ''messages_thread_id_fkey'')
      else Inr (update_thread_participants r (w\<lparr>db_messages := db_messages w @ [r]\<rparr>)))"

text \<open>
  The \<^verbatim>\<open>INSERT INTO messages (...) VALUES (...) RETURNING *\<close> of
  \<^verbatim>\<open>storeMessage\<close>. Its column list names \<^verbatim>\<open>references\<close> without quotes, and
  \<^verbatim>\<open>REFERENCES\<close> is a reserved word of PostgreSQL: the statement does not parse, so it
  fails whatever the row, before any value is looked at and before the table is reached.
\<close>

definition insert_message :: "message \<Rightarrow> world \<Rightarrow> error + world" where
  "insert_message r w = Inl (SyntaxError ''references'')"

subsection \<open>The blob store\<close>

definition s3_put :: "string \<Rightarrow> string \<Rightarrow> (string \<times> string) list \<Rightarrow> (string \<times> string) list" where
  "s3_put key body objs = (key, body) # filter (\<lambda>kv. fst kv \<noteq> key) objs"

text \<open>\<^verbatim>\<open>StorageService.storeMessage\<close>: the key, then \<^verbatim>\<open>putObject\<close>.\<close>

definition storage_storeMessage ::
  "env \<Rightarrow> uuid \<Rightarrow> string \<Rightarrow> string \<Rightarrow> timestamp \<Rightarrow> world \<Rightarrow> (error + string) \<times> world" where
  "storage_storeMessage env accountId mid raw d w =
     (let key = generateMessageKey env accountId mid d in
      if s3_available env key
      then (Inr key, w\<lparr>s3_objects := s3_put key raw (s3_objects w)\<rparr>)
      else (Inl (StorageError ''putObject failed''),
            log_error ''storage'' ''Failed to store message'' (StorageError ''putObject failed'') w))"

text \<open>\<^verbatim>\<open>StorageService.storeAttachment\<close>: the key, the checksum, then \<^verbatim>\<open>putObject\<close>.\<close>

definition storage_storeAttachment ::
  "env \<Rightarrow> uuid \<Rightarrow> string \<Rightarrow> uuid \<Rightarrow> email_attachment \<Rightarrow> world \<Rightarrow> (error + string \<times> string) \<times> world" where
  "storage_storeAttachment env accountId mid attachmentId att w =
     (let key = generateAttachmentKey env accountId mid attachmentId (filename att);
          checksum = sha256 env (content att) in
      if s3_available env key
      then (Inr (key, checksum), w\<lparr>s3_objects := s3_put key (content att) (s3_objects w)\<rparr>)
      else (Inl (StorageError ''putObject failed''),
            log_error ''storage'' ''Failed to store attachment'' (StorageError ''putObject failed'') w))"

text \<open>\<^verbatim>\<open>StorageService.getMessage\<close>.\<close>

definition storage_getMessage :: "env \<Rightarrow> string \<Rightarrow> world \<Rightarrow> (error + string) \<times> world" where
  "storage_getMessage env key w =
     (if \<not> s3_available env key
      then (Inl (StorageError ''getObject failed''),
            log_error ''storage'' ''Failed to retrieve message'' (StorageError ''getObject failed'') w)
      else (case map_of (s3_objects w) key of
              None \<Rightarrow> (Inl (StorageError ''NoSuchKey''),
                        log_error ''storage'' ''Failed to retrieve message'' (StorageError ''NoSuchKey'') w)
            | Some body \<Rightarrow> (Inr body, w)))"

subsection \<open>MessageService\<close>

text \<open>
  The two lookups of \<^verbatim>\<open>findOrCreateThread\<close>. The first runs only for a truthy
  \<^verbatim>\<open>inReplyTo\<close> (neither absent nor the empty string), is not restricted to the
  account, and yields the \<^verbatim>\<open>thread_id\<close> of the first message with that
  \<^verbatim>\<open>message_id\<close>, which may be null. The second yields the first thread with the
  normalised subject; the statement has no \<^verbatim>\<open>ORDER BY\<close>.
\<close>

definition lookup_reply :: "email_message \<Rightarrow> world \<Rightarrow> message option" where
  "lookup_reply em w =
     (case inReplyTo em of
        None \<Rightarrow> None
      | Some r \<Rightarrow> if r = [] then None else find (\<lambda>m. msg_message_id m = r) (db_messages w))"

definition lookup_subject :: "string \<Rightarrow> world \<Rightarrow> thread option" where
  "lookup_subject ns w = find (\<lambda>t. thr_subject_normalized t = ns) (db_threads w)"

text \<open>The participants of a new thread: \<^verbatim>\<open>Array.from(new Set([...]))\<close> keeps the
  first occurrence of each address.\<close>

definition new_set :: "string list \<Rightarrow> string list" where
  "new_set xs = rev (remdups (rev xs))"

definition new_thread :: "uuid \<Rightarrow> string \<Rightarrow> email_message \<Rightarrow> thread" where
  "new_thread tid ns em =
     \<lparr>thr_id = tid, thr_subject_normalized = ns, thr_first_message_date = date em,
      thr_last_message_date = date em, thr_message_count = 1,
      thr_participants = new_set (fromEmail em # toEmails em @ ccEmails em)\<rparr>"

text \<open>The third step: draw an identifier and insert the thread.\<close>

definition create_thread :: "env \<Rightarrow> string \<Rightarrow> email_message \<Rightarrow> world \<Rightarrow> (error + uuid) \<times> world" where
  "create_thread env ns em w =
     (let threadId = nanoid env (rng w); w1 = draw w in
      case insert_thread (new_thread threadId ns em) w1 of
        Inl e \<Rightarrow> (Inl e, log_error ''database'' ''Query error'' e w1)
      | Inr w2 \<Rightarrow> (Inr threadId, w2))"

text \<open>\<^verbatim>\<open>MessageService.findOrCreateThread\<close>; its \<^verbatim>\<open>catch\<close> logs and rethrows.\<close>

definition findOrCreateThread :: "env \<Rightarrow> email_message \<Rightarrow> world \<Rightarrow> (error + uuid option) \<times> world" where
  "findOrCreateThread env em w =
     (case lookup_reply em w of
        Some m \<Rightarrow> (Inr (msg_thread_id m), w)
      | None \<Rightarrow>
          (let normalizedSubject = normalizeSubject (subject em) in
           case lookup_subject normalizedSubject w of
             Some t \<Rightarrow> (Inr (Some (thr_id t)), w)
           | None \<Rightarrow>
               (case create_thread env normalizedSubject em w of
                  (Inl e, w1) \<Rightarrow>
                    (Inl e, log_error ''message-service'' ''Failed to find or create thread'' e w1)
                | (Inr threadId, w1) \<Rightarrow> (Inr (Some threadId), w1))))"

text \<open>
  The attachment loop of \<^verbatim>\<open>storeMessage\<close>: for each attachment an identifier, the
  object in the bucket, then the row, which references \<^verbatim>\<open>messageUuid\<close>. The loop
  runs before the message row is inserted.
\<close>

fun store_attachments ::
  "env \<Rightarrow> uuid \<Rightarrow> string \<Rightarrow> uuid \<Rightarrow> email_attachment list \<Rightarrow> world \<Rightarrow> (error + unit) \<times> world" where
  "store_attachments env accountId mid messageUuid [] w = (Inr (), w)"
| "store_attachments env accountId mid messageUuid (att # atts) w =
     (let attachmentId = nanoid env (rng w); w1 = draw w in
      case storage_storeAttachment env accountId mid attachmentId att w1 of
        (Inl e, w2) \<Rightarrow> (Inl e, w2)
      | (Inr (key, checksum), w2) \<Rightarrow>
          (case insert_attachment
                  \<lparr>att_id = attachmentId, att_message_id = messageUuid,
                   att_filename = filename att, att_content_type = contentType att,
                   att_size_bytes = size_att att, att_s3_key = key, att_checksum = checksum\<rparr> w2 of
             Inl e \<Rightarrow> (Inl e, log_error ''database'' ''Query error'' e w2)
           | Inr w3 \<Rightarrow> store_attachments env accountId mid messageUuid atts w3))"

text \<open>The row that \<^verbatim>\<open>storeMessage\<close> hands to its \<^verbatim>\<open>INSERT\<close>.\<close>

definition message_row :: "uuid \<Rightarrow> uuid \<Rightarrow> uuid option \<Rightarrow> string \<Rightarrow> email_message \<Rightarrow> message" where
  "message_row messageUuid accountId threadId s3Key em =
     \<lparr>msg_id = messageUuid, msg_account_id = accountId, msg_message_id = messageId em,
      msg_thread_id = threadId, msg_folder = folder em, msg_subject = subject em,
      msg_from_email = fromEmail em, msg_to_emails = toEmails em, msg_cc_emails = ccEmails em,
      msg_date = date em, msg_has_attachments = hasAttachments em, msg_is_read = isRead em,
      msg_is_starred = isStarred em, msg_is_spam = (folder em = ''Spam''), msg_s3_key = s3Key,
      msg_in_reply_to = inReplyTo em\<rparr>"

text \<open>
  The body of the \<^verbatim>\<open>try\<close> of \<^verbatim>\<open>storeMessage\<close>. \<^verbatim>\<open>messageUuid\<close> is drawn
  before the lookup for an existing row.
\<close>

definition storeMessage_body :: "env \<Rightarrow> uuid \<Rightarrow> email_message \<Rightarrow> world \<Rightarrow> (error + message) \<times> world" where
  "storeMessage_body env accountId em w =
     (let messageUuid = nanoid env (rng w); w0 = draw w in
      case getMessageByAccountAndMessageId w0 accountId (messageId em) of
        Some existing \<Rightarrow> (Inr existing, w0)
      | None \<Rightarrow>
          (case storage_storeMessage env accountId (messageId em) (rawEmail em) (date em) w0 of
             (Inl e, w1) \<Rightarrow> (Inl e, w1)
           | (Inr s3Key, w1) \<Rightarrow>
               (case store_attachments env accountId (messageId em) messageUuid (attachments em) w1 of
                  (Inl e, w2) \<Rightarrow> (Inl e, w2)
                | (Inr u, w2) \<Rightarrow>
                    (case findOrCreateThread env em w2 of
                       (Inl e, w3) \<Rightarrow> (Inl e, w3)
                     | (Inr threadId, w3) \<Rightarrow>
                         (let row = message_row messageUuid accountId threadId s3Key em in
                          case insert_message row w3 of
                            Inl e \<Rightarrow> (Inl e, log_error ''database'' ''Query error'' e w3)
                          | Inr w4 \<Rightarrow> (Inr row, w4))))))"

text \<open>\<^verbatim>\<open>MessageService.storeMessage\<close>: the \<^verbatim>\<open>catch\<close> logs and rethrows.\<close>

definition storeMessage :: "env \<Rightarrow> uuid \<Rightarrow> email_message \<Rightarrow> world \<Rightarrow> (error + message) \<times> world" where
  "storeMessage env accountId em w =
     (case storeMessage_body env accountId em w of
        (Inl e, w1) \<Rightarrow> (Inl e, log_error ''message-service'' ''Failed to store message'' e w1)
      | (Inr stored, w1) \<Rightarrow> (Inr stored, w1))"


subsection \<open>GmailAdapter: fetching\<close>

text \<open>
  \<^verbatim>\<open>fetchFullMessage\<close>: a record whose request fails, that has no raw content or that
  does not parse is logged and becomes \<^verbatim>\<open>null\<close>.
\<close>

definition fetchFullMessage :: "string \<times> gmail_get \<Rightarrow> world \<Rightarrow> email_message option \<times> world" where
  "fetchFullMessage rec w =
     (case snd rec of
        GetFailed m \<Rightarrow> (None, log_entry ''gmail-adapter'' ''Failed to fetch full message'' m w)
      | NoRaw \<Rightarrow> (None, log_entry ''gmail-adapter'' ''Message has no raw content'' (fst rec) w)
      | ParseFailed m \<Rightarrow> (None, log_entry ''gmail-adapter'' ''Failed to fetch full message'' m w)
      | Raw em \<Rightarrow> (Some em, w))"

text \<open>\<^verbatim>\<open>Promise.all(messageIds.map(...))\<close>: one result for each listed record, in the
  order of the list.\<close>

fun fetch_each :: "(string \<times> gmail_get) list \<Rightarrow> world \<Rightarrow> email_message option list \<times> world" where
  "fetch_each [] w = ([], w)"
| "fetch_each (rec # recs) w =
     (case fetchFullMessage rec w of
        (r, w1) \<Rightarrow> (case fetch_each recs w1 of (rs, w2) \<Rightarrow> (r # rs, w2)))"

text \<open>The filter \<^verbatim>\<open>msg !== null\<close>.\<close>

fun non_null :: "'a option list \<Rightarrow> 'a list" where
  "non_null [] = []"
| "non_null (None # xs) = non_null xs"
| "non_null (Some x # xs) = x # non_null xs"

text \<open>
  \<^verbatim>\<open>GmailAdapter.fetchMessages\<close>. The options go to the provider (\<^verbatim>\<open>buildQuery\<close>
  turns \<^verbatim>\<open>sinceDate\<close> into \<^verbatim>\<open>after:\<close>, and a \<^verbatim>\<open>maxMessages\<close> of 0 becomes
  100); a failing list request is logged and rethrown. The result is an array of messages and
  nothing else.
\<close>

definition fetchMessages :: "env \<Rightarrow> sync_options \<Rightarrow> world \<Rightarrow> (error + email_message list) \<times> world" where
  "fetchMessages env options w =
     (let query = options\<lparr>maxMessages := (if maxMessages options = 0 then 100 else maxMessages options)\<rparr>;
          w1 = w\<lparr>fetch_log := fetch_log w @ [query]\<rparr> in
      case gmail_list env query of
        Inl e \<Rightarrow> (Inl e, log_error ''gmail-adapter'' ''Failed to fetch Gmail messages'' e w1)
      | Inr recs \<Rightarrow> (case fetch_each recs w1 of (rs, w2) \<Rightarrow> (Inr (non_null rs), w2)))"

text \<open>\<^verbatim>\<open>GmailAdapter.testConnection\<close>.\<close>

definition testConnection :: "env \<Rightarrow> world \<Rightarrow> bool \<times> world" where
  "testConnection env w =
     (if gmail_profile env then (True, w)
      else (False, log_entry ''gmail-adapter'' ''Gmail connection test failed'' ''getProfile failed'' w))"

subsection \<open>AccountService and VaultService\<close>

definition getAccountById :: "world \<Rightarrow> uuid \<Rightarrow> account option" where
  "getAccountById w accountId = find (\<lambda>a. acc_id a = accountId) (db_accounts w)"

text \<open>\<^verbatim>\<open>updateAccountStatus\<close>: \<^verbatim>\<open>last_sync_error\<close> becomes \<^verbatim>\<open>error || null\<close>.\<close>

definition or_null :: "string option \<Rightarrow> string option" where
  "or_null e = (case e of None \<Rightarrow> None | Some m \<Rightarrow> if m = [] then None else Some m)"

definition updateAccountStatus :: "uuid \<Rightarrow> account_status \<Rightarrow> string option \<Rightarrow> world \<Rightarrow> world" where
  "updateAccountStatus accountId st e w =
     w\<lparr>db_accounts :=
         map (\<lambda>a. if acc_id a = accountId
                   then a\<lparr>acc_status := st, acc_last_sync_error := or_null e\<rparr> else a)
             (db_accounts w)\<rparr>"

definition updateSyncCursor :: "uuid \<Rightarrow> timestamp \<Rightarrow> timestamp \<Rightarrow> world \<Rightarrow> world" where
  "updateSyncCursor accountId cursor lastSyncAt w =
     w\<lparr>db_accounts :=
         map (\<lambda>a. if acc_id a = accountId
                   then a\<lparr>acc_sync_cursor := Some cursor, acc_last_sync_at := Some lastSyncAt\<rparr> else a)
             (db_accounts w)\<rparr>"

text \<open>\<^verbatim>\<open>VaultService.getAccountCredentials\<close>: a missing secret (404) is \<^verbatim>\<open>null\<close>.\<close>

definition getAccountCredentials :: "uuid \<Rightarrow> world \<Rightarrow> credentials option \<times> world" where
  "getAccountCredentials accountId w =
     (case map_of (vault_kv w) accountId of
        None \<Rightarrow> (None, log_entry ''vault'' ''Account credentials not found'' accountId w)
      | Some c \<Rightarrow> (Some c, w))"

text \<open>\<^verbatim>\<open>VaultService.storeAccountCredentials\<close>: the secret at the account's path is
  replaced.\<close>

definition storeAccountCredentials :: "uuid \<Rightarrow> credentials \<Rightarrow> world \<Rightarrow> world" where
  "storeAccountCredentials accountId c w =
     w\<lparr>vault_kv := (accountId, c) # filter (\<lambda>kv. fst kv \<noteq> accountId) (vault_kv w),
       vault_writes := vault_writes w @ [(accountId, c)]\<rparr>"

text \<open>\<^verbatim>\<open>VaultService.updateOAuthTokens\<close>: read, replace the OAuth part, write.\<close>

definition updateOAuthTokens :: "uuid \<Rightarrow> oauth \<Rightarrow> world \<Rightarrow> (error + unit) \<times> world" where
  "updateOAuthTokens accountId tokens w =
     (case getAccountCredentials accountId w of
        (None, w1) \<Rightarrow>
          (Inl (Error (''Account credentials not found for '' @ accountId)),
           log_error ''vault'' ''Failed to update OAuth tokens''
             (Error (''Account credentials not found for '' @ accountId)) w1)
      | (Some c, w1) \<Rightarrow> (Inr (), storeAccountCredentials accountId (c\<lparr>cred_oauth := Some tokens\<rparr>) w1))"

subsection \<open>SyncService\<close>

definition msPerDay :: int where
  "msPerDay = 86400000"

text \<open>\<^verbatim>\<open>LocalTime(t)\<close> and \<^verbatim>\<open>UTC(t)\<close> of ECMAScript: from an instant to the
  local time of the process, with the offset in force at that instant, and from a local time
  back to an instant, with the offset in force at that local time.\<close>

definition LocalTime :: "env \<Rightarrow> timestamp \<Rightarrow> int" where
  "LocalTime env t = t + localTZA env t True"

definition UTC :: "env \<Rightarrow> int \<Rightarrow> timestamp" where
  "UTC env t = t - localTZA env t False"

text \<open>
  \<^verbatim>\<open>date.setDate(date.getDate() - days)\<close>. \<^verbatim>\<open>Date.prototype.setDate\<close> works on
  local time: with \<open>t = LocalTime(tv)\<close> the new time value is
  \<^verbatim>\<open>UTC(MakeDate(MakeDay(YearFromTime(t), MonthFromTime(t), dt), TimeWithinDay(t)))\<close>.
  For \<open>dt\<close> the day of the month of \<open>t\<close> less \<open>days\<close>, \<^verbatim>\<open>MakeDay\<close> yields
  the day number of \<open>t\<close> less \<open>days\<close>, so the local time goes back by that many days of
  \<open>msPerDay\<close> milliseconds and keeps its time within the day.
\<close>

definition setDate_back :: "env \<Rightarrow> nat \<Rightarrow> timestamp \<Rightarrow> timestamp" where
  "setDate_back env days t = UTC env (LocalTime env t - int days * msPerDay)"

text \<open>\<^verbatim>\<open>SyncService.getLastSyncDate\<close>.\<close>

definition getLastSyncDate :: "env \<Rightarrow> account \<Rightarrow> timestamp" where
  "getLastSyncDate env account =
     (case acc_last_sync_at account of
        Some t \<Rightarrow> t
      | None \<Rightarrow> setDate_back env 30 (clock env))"

fun provider_name :: "provider \<Rightarrow> string" where
  "provider_name Gmail = ''gmail''"
| "provider_name Office365 = ''office365''"
| "provider_name Imap = ''imap''"
| "provider_name Protonmail = ''protonmail''"
| "provider_name Smtp = ''smtp''"

text \<open>\<^verbatim>\<open>SyncService.createAdapter\<close>: only Gmail has an adapter.\<close>

definition createAdapter :: "account \<Rightarrow> credentials \<Rightarrow> error + unit" where
  "createAdapter account c =
     (case acc_provider account of
        Gmail \<Rightarrow> Inr ()
      | _ \<Rightarrow> Inl (Error (''Unsupported provider: '' @ provider_name (acc_provider account))))"

text \<open>
  \<^verbatim>\<open>createSyncJob\<close>: the row is inserted in the state \<^verbatim>\<open>running\<close>. The statement
  gives no \<^verbatim>\<open>id\<close>, so the database generates it (\<^verbatim>\<open>DEFAULT uuid_generate_v4()\<close>).
\<close>

definition createSyncJob :: "env \<Rightarrow> uuid \<Rightarrow> world \<Rightarrow> (error + uuid) \<times> world" where
  "createSyncJob env accountId w =
     (let i = uuid_generate_v4 env (rng w); w1 = draw w in
      if i \<in> set (map job_id (db_sync_jobs w1))
        then (Inl (UniqueViolation ''sync_jobs_pkey''),
              log_error ''database'' ''Query error'' (UniqueViolation ''sync_jobs_pkey'') w1)
      else if accountId \<notin> set (map acc_id (db_accounts w1))
        then (Inl (ForeignKeyViolation ''sync_jobs_account_id_fkey''),
              log_error ''database'' ''Query error'' (ForeignKeyViolation ''sync_jobs_account_id_fkey'') w1)
      else (Inr i,
            w1\<lparr>db_sync_jobs := db_sync_jobs w1 @
                 [\<lparr>job_id = i, job_account_id = accountId, job_status = Running,
                   job_messages_synced = 0, job_error_message = None\<rparr>]\<rparr>))"

definition completeSyncJob :: "uuid \<Rightarrow> nat \<Rightarrow> world \<Rightarrow> world" where
  "completeSyncJob syncJobId n w =
     w\<lparr>db_sync_jobs :=
         map (\<lambda>j. if job_id j = syncJobId
                   then j\<lparr>job_status := Completed, job_messages_synced := n\<rparr> else j)
             (db_sync_jobs w)\<rparr>"

definition failSyncJob :: "uuid \<Rightarrow> string \<Rightarrow> world \<Rightarrow> world" where
  "failSyncJob syncJobId m w =
     w\<lparr>db_sync_jobs :=
         map (\<lambda>j. if job_id j = syncJobId
                   then j\<lparr>job_status := Failed, job_error_message := Some m\<rparr> else j)
             (db_sync_jobs w)\<rparr>"

text \<open>\<^verbatim>\<open>addIndexJob\<close> of queues/index.ts: the identifier of the stored message joins the
  index queue, unless the queue cannot be reached.\<close>

definition addIndexJob :: "env \<Rightarrow> uuid \<Rightarrow> world \<Rightarrow> (error + unit) \<times> world" where
  "addIndexJob env i w =
     (if redis_available env i then (Inr (), w\<lparr>index_queue := index_queue w @ [i]\<rparr>)
      else (Inl (QueueError ''queue unreachable''), w))"

text \<open>
  The loop over the fetched messages: store, queue for indexing, count. Whatever either call
  throws is logged, and the loop goes on with the next message.
\<close>

fun store_loop :: "env \<Rightarrow> uuid \<Rightarrow> email_message list \<Rightarrow> nat \<Rightarrow> world \<Rightarrow> nat \<times> world" where
  "store_loop env accountId [] n w = (n, w)"
| "store_loop env accountId (em # ems) n w =
     (case storeMessage env accountId em w of
        (Inl e, w1) \<Rightarrow>
          store_loop env accountId ems n (log_error ''sync-service'' ''Failed to store message'' e w1)
      | (Inr stored, w1) \<Rightarrow>
          (case addIndexJob env (msg_id stored) w1 of
             (Inl e, w2) \<Rightarrow>
               store_loop env accountId ems n (log_error ''sync-service'' ''Failed to store message'' e w2)
           | (Inr u, w2) \<Rightarrow> store_loop env accountId ems (Suc n) w2))"

text \<open>The outer \<^verbatim>\<open>catch\<close> of \<^verbatim>\<open>syncAccount\<close>: whatever was thrown, the error is
  logged and the account is set to \<^verbatim>\<open>auth_failed\<close> with the message.\<close>

definition sync_catch :: "uuid \<Rightarrow> nat \<Rightarrow> error \<Rightarrow> world \<Rightarrow> sync_result \<times> world" where
  "sync_catch accountId n e w =
     (\<lparr>res_success = False, res_messagesSynced = n, res_error = Some (error_message e)\<rparr>,
      updateAccountStatus accountId AuthFailed (Some (error_message e))
        (log_error ''sync-service'' ''Account sync failed'' e w))"

text \<open>The fetch window: \<^verbatim>\<open>options?.sinceDate || this.getLastSyncDate(account)\<close>.\<close>

definition sync_since :: "env \<Rightarrow> sync_request \<Rightarrow> account \<Rightarrow> timestamp" where
  "sync_since env options account =
     (case req_sinceDate options of Some d \<Rightarrow> d | None \<Rightarrow> getLastSyncDate env account)"

definition sync_max :: "sync_request \<Rightarrow> nat" where
  "sync_max options = (case req_maxMessages options of None \<Rightarrow> 100 | Some n \<Rightarrow> if n = 0 then 100 else n)"

text \<open>The inner \<^verbatim>\<open>try\<close> of \<^verbatim>\<open>syncAccount\<close>, entered with the job created: fetch,
  store, complete the job, write the cursor, set the account active again. A failing fetch
  fails the job and reaches the outer \<^verbatim>\<open>catch\<close>.\<close>

definition sync_job_body :: "env \<Rightarrow> uuid \<Rightarrow> uuid \<Rightarrow> timestamp \<Rightarrow> nat \<Rightarrow> world \<Rightarrow> sync_result \<times> world" where
  "sync_job_body env accountId syncJobId since mx w =
     (case fetchMessages env \<lparr>sinceDate = Some since, maxMessages = mx\<rparr> w of
        (Inl e, w1) \<Rightarrow> sync_catch accountId 0 e (failSyncJob syncJobId (error_message e) w1)
      | (Inr messages, w1) \<Rightarrow>
          (case store_loop env accountId messages 0 w1 of
             (n, w2) \<Rightarrow>
               (\<lparr>res_success = True, res_messagesSynced = n, res_error = None\<rparr>,
                updateAccountStatus accountId Active None
                  (updateSyncCursor accountId (clock_done env) (clock_done env)
                     (completeSyncJob syncJobId n w2)))))"

text \<open>\<^verbatim>\<open>SyncService.syncAccount\<close>.\<close>

definition syncAccount :: "env \<Rightarrow> uuid \<Rightarrow> sync_request \<Rightarrow> world \<Rightarrow> sync_result \<times> world" where
  "syncAccount env accountId options w =
     (case getAccountById w accountId of
        None \<Rightarrow> sync_catch accountId 0 (Error (''Account not found: '' @ accountId)) w
      | Some account \<Rightarrow>
          if acc_status account \<noteq> Active
          then (\<lparr>res_success = False, res_messagesSynced = 0, res_error = Some ''Account not active''\<rparr>,
                log_entry ''sync-service'' ''Account is not active'' accountId w)
          else
            (case getAccountCredentials accountId (updateAccountStatus accountId Syncing None w) of
               (None, w1) \<Rightarrow>
                 sync_catch accountId 0 (Error (''Credentials not found for account: '' @ accountId)) w1
             | (Some c, w1) \<Rightarrow>
                 (case createAdapter account c of
                    Inl e \<Rightarrow> sync_catch accountId 0 e w1
                  | Inr adapter \<Rightarrow>
                      (case testConnection env w1 of
                         (False, w2) \<Rightarrow>
                           sync_catch accountId 0 (Error ''Failed to connect to mail provider'') w2
                       | (True, w2) \<Rightarrow>
                           (case createSyncJob env accountId w2 of
                              (Inl e, w3) \<Rightarrow> sync_catch accountId 0 e w3
                            | (Inr syncJobId, w3) \<Rightarrow>
                                sync_job_body env accountId syncJobId
                                  (sync_since env options account) (sync_max options) w3)))))"

subsection \<open>The workers and the queue\<close>

text \<open>
  The contract of the queue library (Bull) as the workers use it: a job whose handler throws
  is run again until the handler returns or the configured number of attempts is made. The
  handler gets the number of attempts made before, so that each attempt can meet another
  environment. The result comes with the number of attempts made.
\<close>

fun bull_run ::
  "nat \<Rightarrow> nat \<Rightarrow> (nat \<Rightarrow> world \<Rightarrow> (error + 'r) \<times> world) \<Rightarrow> world \<Rightarrow> ((error + 'r) \<times> nat) \<times> world" where
  "bull_run 0 k handler w = ((Inl (Error ''no attempts configured''), k), w)"
| "bull_run (Suc n) k handler w =
     (case handler k w of
        (Inr r, w1) \<Rightarrow> ((Inr r, Suc k), w1)
      | (Inl e, w1) \<Rightarrow> if n = 0 then ((Inl e, Suc k), w1) else bull_run n (Suc k) handler w1)"

text \<open>\<^verbatim>\<open>defaultJobOptions.attempts\<close> of \<^verbatim>\<open>queueConfig\<close>.\<close>

definition attempts :: nat where
  "attempts = 3"

text \<open>The handler of the sync worker (\<^verbatim>\<open>syncQueue.process\<close>): an unsuccessful result
  is thrown, with \<^verbatim>\<open>result.error || 'Sync failed'\<close> as the message.\<close>

definition syncWorker_handler :: "env \<Rightarrow> uuid \<Rightarrow> sync_request \<Rightarrow> world \<Rightarrow> (error + sync_result) \<times> world" where
  "syncWorker_handler env accountId options w =
     (case syncAccount env accountId options w of
        (r, w1) \<Rightarrow>
          if \<not> res_success r
          then (let e = Error (case or_null (res_error r) of Some m \<Rightarrow> m | None \<Rightarrow> ''Sync failed'')
                in (Inl e, log_error ''sync-worker'' ''Sync job failed'' e w1))
          else (Inr r, w1))"

definition process_sync_job ::
  "(nat \<Rightarrow> env) \<Rightarrow> uuid \<Rightarrow> sync_request \<Rightarrow> world \<Rightarrow> ((error + sync_result) \<times> nat) \<times> world" where
  "process_sync_job envs accountId options w =
     bull_run attempts 0 (\<lambda>k. syncWorker_handler (envs k) accountId options) w"

text \<open>\<^verbatim>\<open>SearchService.indexMessage\<close>: an upsert keyed by the message's identifier.\<close>

definition searchService_indexMessage :: "env \<Rightarrow> indexed_message \<Rightarrow> world \<Rightarrow> (error + unit) \<times> world" where
  "searchService_indexMessage env doc w =
     (if es_available env
      then (Inr (), w\<lparr>search_index := (message_uuid doc, doc) #
                         filter (\<lambda>kv. fst kv \<noteq> message_uuid doc) (search_index w)\<rparr>)
      else (Inl (SearchError ''index request failed''),
            log_error ''search'' ''Failed to index message'' (SearchError ''index request failed'') w))"

text \<open>The \<^verbatim>\<open>try\<close> of the index worker's handler (\<^verbatim>\<open>indexQueue.process\<close>): the row,
  the raw mail from the bucket, the attachments, then the upsert.\<close>

definition indexWorker_body :: "env \<Rightarrow> uuid \<Rightarrow> world \<Rightarrow> (error + unit) \<times> world" where
  "indexWorker_body env i w =
     (case getMessageById w i of
        None \<Rightarrow> (Inl (Error (''Message not found: '' @ i)), w)
      | Some m \<Rightarrow>
          (case storage_getMessage env (msg_s3_key m) w of
             (Inl e, w1) \<Rightarrow> (Inl e, w1)
           | (Inr raw, w1) \<Rightarrow>
               searchService_indexMessage env
                 \<lparr>message_uuid = msg_id m, im_account_id = msg_account_id m,
                  im_message_id = msg_message_id m, im_subject = msg_subject m,
                  im_body_text = parse_text env raw,
                  im_attachment_filenames = map att_filename (getMessageAttachments w1 i)\<rparr> w1))"

definition indexWorker_handler :: "env \<Rightarrow> uuid \<Rightarrow> world \<Rightarrow> (error + unit) \<times> world" where
  "indexWorker_handler env i w =
     (case indexWorker_body env i w of
        (Inl e, w1) \<Rightarrow> (Inl e, log_error ''index-worker'' ''Index job failed'' e w1)
      | (Inr u, w1) \<Rightarrow> (Inr u, w1))"

definition process_index_job :: "(nat \<Rightarrow> env) \<Rightarrow> uuid \<Rightarrow> world \<Rightarrow> ((error + unit) \<times> nat) \<times> world" where
  "process_index_job envs i w = bull_run attempts 0 (\<lambda>k. indexWorker_handler (envs k) i) w"

text \<open>What storage holds: the tables and the bucket.\<close>

definition storage_state ::
  "world \<Rightarrow> account list \<times> thread list \<times> message list \<times> attachment list \<times> sync_job list \<times> (string \<times> string) list" where
  "storage_state w =
     (db_accounts w, db_threads w, db_messages w, db_attachments w, db_sync_jobs w, s3_objects w)"

subsection \<open>Credential refresh\<close>

text \<open>
  A \<^verbatim>\<open>GmailAdapter\<close> holds the account and, in its own OAuth client, the credentials that
  the constructor copied from the snapshot it was given.
\<close>

record adapter =
  ad_accountId :: uuid
  ad_oauth :: "oauth option"

definition new_GmailAdapter :: "uuid \<Rightarrow> credentials \<Rightarrow> adapter" where
  "new_GmailAdapter accountId c = \<lparr>ad_accountId = accountId, ad_oauth = cred_oauth c\<rparr>"

text \<open>The listener that the constructor registers for \<^verbatim>\<open>tokens\<close>: only an event with a
  truthy \<^verbatim>\<open>refresh_token\<close> is written to the vault.\<close>

definition on_tokens :: "uuid \<Rightarrow> token_event \<Rightarrow> world \<Rightarrow> world" where
  "on_tokens accountId ev w =
     (case ev_refresh_token ev of
        None \<Rightarrow> w
      | Some rt \<Rightarrow>
          if rt = [] then w
          else snd (updateOAuthTokens accountId
                      \<lparr>access_token = ev_access_token ev, refresh_token = rt,
                       expires_at = ev_expiry_date ev\<rparr> w))"

text \<open>\<^verbatim>\<open>eagerRefreshThresholdMillis\<close> of the OAuth client: five minutes.\<close>

definition eagerRefreshThresholdMillis :: int where
  "eagerRefreshThresholdMillis = 300000"

text \<open>
  The OAuth client of google-auth-library before a request, as far as the adapter relies on
  it: credentials that expire within the threshold after the time of the request (or have
  expired) and carry a refresh token are exchanged at the token endpoint; the
  \<^verbatim>\<open>tokens\<close> event fires with the answer; and the client goes on with the answer's
  access token and expiry and with the refresh token it used.
\<close>

definition authorize_request :: "env \<Rightarrow> timestamp \<Rightarrow> adapter \<Rightarrow> world \<Rightarrow> adapter \<times> world" where
  "authorize_request env now ad w =
     (case ad_oauth ad of
        None \<Rightarrow> (ad, w)
      | Some tok \<Rightarrow>
          if now + eagerRefreshThresholdMillis < expires_at tok \<or> refresh_token tok = [] then (ad, w)
          else (let ev = token_endpoint env (refresh_calls w);
                    w1 = w\<lparr>refresh_calls := Suc (refresh_calls w)\<rparr>;
                    tok' = \<lparr>access_token = ev_access_token ev,
                            refresh_token = refresh_token tok,
                            expires_at = ev_expiry_date ev\<rparr>
                in (ad\<lparr>ad_oauth := Some tok'\<rparr>, on_tokens (ad_accountId ad) ev w1)))"

subsection \<open>syncAccount, one awaited call at a time\<close>

text \<open>
  The same \<^verbatim>\<open>syncAccount\<close> as a machine whose steps are its awaited calls, so that two
  calls can interleave. A step runs from one \<^verbatim>\<open>await\<close> to the next. The program counter
  carries the local variables: the account read at the start, the job's identifier, the
  messages still to store and the count. Storing one message and queueing it is one step.
\<close>

datatype pc =
    PStart
  | PSetSyncing account
  | PGetCredentials account
  | PTestConnection account
  | PCreateJob account
  | PFetch account uuid
  | PStore uuid "email_message list" nat
  | PCursor nat
  | PSetActive nat
  | PFailJob uuid error
  | PCatch error
  | PDone sync_result

fun step :: "env \<Rightarrow> uuid \<Rightarrow> sync_request \<Rightarrow> pc \<Rightarrow> world \<Rightarrow> pc \<times> world" where
  "step env accountId options PStart w =
     (case getAccountById w accountId of
        None \<Rightarrow> (PCatch (Error (''Account not found: '' @ accountId)), w)
      | Some account \<Rightarrow>
          if acc_status account \<noteq> Active
          then (PDone \<lparr>res_success = False, res_messagesSynced = 0, res_error = Some ''Account not active''\<rparr>,
                log_entry ''sync-service'' ''Account is not active'' accountId w)
          else (PSetSyncing account, w))"
| "step env accountId options (PSetSyncing account) w =
     (PGetCredentials account, updateAccountStatus accountId Syncing None w)"
| "step env accountId options (PGetCredentials account) w =
     (case getAccountCredentials accountId w of
        (None, w1) \<Rightarrow> (PCatch (Error (''Credentials not found for account: '' @ accountId)), w1)
      | (Some c, w1) \<Rightarrow>
          (case createAdapter account c of
             Inl e \<Rightarrow> (PCatch e, w1)
           | Inr adapter \<Rightarrow> (PTestConnection account, w1)))"
| "step env accountId options (PTestConnection account) w =
     (case testConnection env w of
        (False, w1) \<Rightarrow> (PCatch (Error ''Failed to connect to mail provider''), w1)
      | (True, w1) \<Rightarrow> (PCreateJob account, w1))"
| "step env accountId options (PCreateJob account) w =
     (case createSyncJob env accountId w of
        (Inl e, w1) \<Rightarrow> (PCatch e, w1)
      | (Inr syncJobId, w1) \<Rightarrow> (PFetch account syncJobId, w1))"
| "step env accountId options (PFetch account syncJobId) w =
     (case fetchMessages env
             \<lparr>sinceDate = Some (sync_since env options account), maxMessages = sync_max options\<rparr> w of
        (Inl e, w1) \<Rightarrow> (PFailJob syncJobId e, w1)
      | (Inr messages, w1) \<Rightarrow> (PStore syncJobId messages 0, w1))"
| "step env accountId options (PStore syncJobId [] n) w = (PCursor n, completeSyncJob syncJobId n w)"
| "step env accountId options (PStore syncJobId (em # ems) n) w =
     (case store_loop env accountId [em] n w of (n1, w1) \<Rightarrow> (PStore syncJobId ems n1, w1))"
| "step env accountId options (PCursor n) w =
     (PSetActive n, updateSyncCursor accountId (clock_done env) (clock_done env) w)"
| "step env accountId options (PSetActive n) w =
     (PDone \<lparr>res_success = True, res_messagesSynced = n, res_error = None\<rparr>,
      updateAccountStatus accountId Active None w)"
| "step env accountId options (PFailJob syncJobId e) w =
     (PCatch e, failSyncJob syncJobId (error_message e) w)"
| "step env accountId options (PCatch e) w =
     (case sync_catch accountId 0 e w of (r, w1) \<Rightarrow> (PDone r, w1))"
| "step env accountId options (PDone r) w = (PDone r, w)"

text \<open>One call on its own: \<open>n\<close> steps from a program counter.\<close>

fun steps :: "nat \<Rightarrow> env \<Rightarrow> uuid \<Rightarrow> sync_request \<Rightarrow> pc \<Rightarrow> world \<Rightarrow> pc \<times> world" where
  "steps 0 env accountId options p w = (p, w)"
| "steps (Suc n) env accountId options p w =
     (case step env accountId options p w of (p1, w1) \<Rightarrow> steps n env accountId options p1 w1)"

text \<open>Several calls in flight, each a worker with its own environment, arguments and
  program counter, over one world. A schedule names the worker that takes the next step.\<close>

record worker =
  wk_env :: env
  wk_accountId :: uuid
  wk_options :: sync_request
  wk_pc :: pc

fun run_schedule :: "nat list \<Rightarrow> worker list \<Rightarrow> world \<Rightarrow> worker list \<times> world" where
  "run_schedule [] ws w = (ws, w)"
| "run_schedule (i # sched) ws w =
     (if i < length ws
      then (case step (wk_env (ws ! i)) (wk_accountId (ws ! i)) (wk_options (ws ! i)) (wk_pc (ws ! i)) w of
              (p1, w1) \<Rightarrow> run_schedule sched (ws[i := (ws ! i)\<lparr>wk_pc := p1\<rparr>]) w1)
      else run_schedule sched ws w)"

text \<open>The sync jobs of an account that are in the state \<^verbatim>\<open>running\<close>.\<close>

definition running_jobs :: "uuid \<Rightarrow> world \<Rightarrow> sync_job list" where
  "running_jobs accountId w =
     filter (\<lambda>j. job_account_id j = accountId \<and> job_status j = Running) (db_sync_jobs w)"

subsection \<open>Invariants of the store\<close>


text \<open>The \<^verbatim>\<open>message_count\<close> of a thread is the number of messages that reference it.\<close>

definition thread_count_ok :: "world \<Rightarrow> thread \<Rightarrow> bool" where
  "thread_count_ok w t = (thr_message_count t = length (thread_messages (thr_id t) (db_messages w)))"

definition counts_ok :: "world \<Rightarrow> bool" where
  "counts_ok w = list_all (thread_count_ok w) (db_threads w)"

text \<open>The message carries a reference to a message that is stored; a thread with the
  normalised subject exists.\<close>

definition replies_to_stored :: "email_message \<Rightarrow> world \<Rightarrow> bool" where
  "replies_to_stored em w =
     (case inReplyTo em of
        None \<Rightarrow> False
      | Some r \<Rightarrow> r \<noteq> [] \<and> r \<in> set (map msg_message_id (db_messages w)))"

definition subject_known :: "string \<Rightarrow> world \<Rightarrow> bool" where
  "subject_known ns w = (ns \<in> set (map thr_subject_normalized (db_threads w)))"

text \<open>The tables that the message store writes to.\<close>

definition message_tables :: "world \<Rightarrow> message list \<times> thread list \<times> attachment list" where
  "message_tables w = (db_messages w, db_threads w, db_attachments w)"

text \<open>The status and the \<^verbatim>\<open>last_sync_error\<close> of an account, if the account exists.\<close>

definition account_status_of :: "world \<Rightarrow> uuid \<Rightarrow> account_status option" where
  "account_status_of w a = map_option acc_status (getAccountById w a)"

definition account_error_of :: "world \<Rightarrow> uuid \<Rightarrow> string option option" where
  "account_error_of w a = map_option acc_last_sync_error (getAccountById w a)"

text \<open>The well-formed records of a listing, in its order: those whose request succeeds with
  raw content that parses.\<close>

fun well_formed :: "(string \<times> gmail_get) list \<Rightarrow> email_message list" where
  "well_formed [] = []"
| "well_formed ((i, Raw em) # recs) = em # well_formed recs"
| "well_formed ((i, other) # recs) = well_formed recs"

subsection \<open>A small installation, for the examples\<close>

text \<open>Identifiers of the \<^verbatim>\<open>uuid\<close> syntax: of an account, of two threads and of two
  messages; and the first two that the database generates in the examples.\<close>

definition acct1_id :: uuid where
  "acct1_id = ''00000000-0000-4000-8000-0000000000a1''"

definition thread1_id :: uuid where
  "thread1_id = ''00000000-0000-4000-8000-0000000000b1''"

definition thread2_id :: uuid where
  "thread2_id = ''00000000-0000-4000-8000-0000000000b2''"

definition msg1_id :: uuid where
  "msg1_id = ''00000000-0000-4000-8000-0000000000c1''"

definition msg2_id :: uuid where
  "msg2_id = ''00000000-0000-4000-8000-0000000000c2''"

definition job1_id :: uuid where
  "job1_id = ''00000000-0000-4000-8000-000000000000''"

definition job2_id :: uuid where
  "job2_id = ''00000000-0000-4000-8000-100000000000''"

text \<open>
  An environment in which every service answers, the characters of the n-th draw of
  \<^verbatim>\<open>nanoid\<close> are n letters \<^verbatim>\<open>x\<close> and then a fixed string, the n-th identifier
  that the database generates is \<^verbatim>\<open>00000000-0000-4000-8000-\<close> followed by n ones and zeros up to twelve
  digits, the provider lists nothing, the token endpoint answers the n-th refresh with new
  tokens followed by n plus signs, and local time is UTC; and a world with one active Gmail
  account that has never been synchronised, whose access token expires at 3600.
\<close>

definition env0 :: env where
  "env0 = \<lparr>random_chars = (\<lambda>n. replicate n CHR ''x'' @ ''V1StGXR8_Z5jdHi6B-myT''),
           uuid_generate_v4 =
             (\<lambda>n. take 36 (''00000000-0000-4000-8000-'' @ replicate n CHR ''1'' @ ''000000000000'')),
           generateMessageKey = (\<lambda>a mid d. ''messages/'' @ a @ ''/'' @ mid),
           generateAttachmentKey = (\<lambda>a mid i f. ''attachments/'' @ a @ ''/'' @ mid @ ''/'' @ i @ f),
           sha256 = (\<lambda>c. ''sha256:'' @ c),
           s3_available = (\<lambda>k. True),
           redis_available = (\<lambda>i. True),
           es_available = True,
           gmail_profile = True,
           gmail_list = (\<lambda>q. Inr []),
           token_endpoint = (\<lambda>n. \<lparr>ev_access_token = ''new-at'' @ replicate n CHR ''+'',
                                    ev_refresh_token = Some (''new-rt'' @ replicate n CHR ''+''),
                                    ev_expiry_date = 9000\<rparr>),
           parse_text = (\<lambda>raw. raw),
           clock = 2592001000,
           clock_done = 2592002000,
           localTZA = (\<lambda>t isUTC. 0)\<rparr>"

definition account1 :: account where
  "account1 = \<lparr>acc_id = acct1_id, acc_provider = Gmail, acc_email = ''a1@example.org'',
               acc_status = Active, acc_last_sync_at = None, acc_last_sync_error = None,
               acc_sync_cursor = None\<rparr>"

definition credentials1 :: credentials where
  "credentials1 = \<lparr>cred_provider = Gmail, cred_email = ''a1@example.org'',
                   cred_oauth = Some \<lparr>access_token = ''at'', refresh_token = ''rt'', expires_at = 3600\<rparr>\<rparr>"

definition world0 :: world where
  "world0 = \<lparr>db_accounts = [account1], db_threads = [], db_messages = [], db_attachments = [],
             db_sync_jobs = [], vault_kv = [(acct1_id, credentials1)], vault_writes = [],
             s3_objects = [], index_queue = [], search_index = [], fetch_log = [],
             refresh_calls = 0, error_log = [], rng = 0\<rparr>"

text \<open>A message without attachments from \<^verbatim>\<open>x@example.org\<close> to the account.\<close>

definition mail :: "string \<Rightarrow> string \<Rightarrow> string option \<Rightarrow> timestamp \<Rightarrow> email_message" where
  "mail mid subj irt d =
     \<lparr>messageId = mid, subject = subj, fromEmail = ''x@example.org'', toEmails = [''a1@example.org''],
      ccEmails = [], date = d, hasAttachments = False, attachments = [], inReplyTo = irt,
      folder = ''INBOX'', isRead = False, isStarred = False, rawEmail = ''raw''\<rparr>"

text \<open>
  Rows that the tables can hold: two threads with the normalised subject \<^verbatim>\<open>hello\<close>,
  last written at 10 and at 20; the message \<^verbatim>\<open>A\<close> of the account in the first thread,
  and a reply \<^verbatim>\<open>B\<close> to it.
\<close>

definition thread1 :: thread where
  "thread1 = \<lparr>thr_id = thread1_id, thr_subject_normalized = ''hello'', thr_first_message_date = 10,
               thr_last_message_date = 10, thr_message_count = 1,
               thr_participants = [''a1@example.org'', ''x@example.org'']\<rparr>"

definition thread2 :: thread where
  "thread2 = \<lparr>thr_id = thread2_id, thr_subject_normalized = ''hello'', thr_first_message_date = 20,
               thr_last_message_date = 20, thr_message_count = 1,
               thr_participants = [''a1@example.org'', ''y@example.org'']\<rparr>"

definition message1 :: message where
  "message1 = message_row msg1_id acct1_id (Some thread1_id)
                (generateMessageKey env0 acct1_id ''A'' 10) (mail ''A'' ''Hello'' None 10)"

definition message2 :: message where
  "message2 = message_row msg2_id acct1_id (Some thread1_id)
                (generateMessageKey env0 acct1_id ''B'' 20) (mail ''B'' ''Re: Hello'' (Some ''A'') 20)"

text \<open>The world in which the message \<^verbatim>\<open>A\<close> is stored, with its thread and its raw
  content in the bucket.\<close>

definition world_stored :: world where
  "world_stored = world0\<lparr>db_threads := [thread1], db_messages := [message1],
                         s3_objects := [(msg_s3_key message1, ''raw'')]\<rparr>"

text \<open>Two worlds with both threads and no message, which differ in the order in which a
  scan of \<^verbatim>\<open>threads\<close> meets the rows.\<close>

definition world_two_threads :: world where
  "world_two_threads = world0\<lparr>db_threads := [thread1, thread2]\<rparr>"

definition world_two_threads' :: world where
  "world_two_threads' = world0\<lparr>db_threads := [thread2, thread1]\<rparr>"

text \<open>The same environment with a provider whose list request times out; and a sync
  request without options.\<close>

definition env_timeout :: env where
  "env_timeout = env0\<lparr>gmail_list := (\<lambda>q. Inl (ProviderError ''ETIMEDOUT''))\<rparr>"

definition no_options :: sync_request where
  "no_options = \<lparr>req_sinceDate = None, req_maxMessages = None\<rparr>"

text \<open>
  The same environment in a time zone that moved its clocks forward by an hour at the
  instant 2000000000: local time is one hour ahead of UTC before and two hours after, and
  the local times of the hour that was skipped are read with the offset before the change.
\<close>

definition env_dst :: env where
  "env_dst = env0\<lparr>localTZA := (\<lambda>t isUTC. if isUTC then (if t < 2000000000 then 3600000 else 7200000)
                                        else (if t < 2007200000 then 3600000 else 7200000))\<rparr>"

text \<open>A worker about to run \<^verbatim>\<open>syncAccount\<close> for the account, and the world in the
  middle of such a call, after five steps: the job is created and the fetch is next.\<close>

definition worker1 :: worker where
  "worker1 = \<lparr>wk_env = env0, wk_accountId = acct1_id, wk_options = no_options, wk_pc = PStart\<rparr>"

definition world_syncing :: world where
  "world_syncing = snd (steps 5 env0 acct1_id no_options PStart world0)"

text \<open>Two listings of five records with one bad record each: the third has no raw
  content; or the fourth, another record, fails to load. And the environments whose provider
  lists them.\<close>

definition records_b :: "(string \<times> gmail_get) list" where
  "records_b = [(''g1'', Raw (mail ''M1'' ''One'' None 1)), (''g2'', Raw (mail ''M2'' ''Two'' None 2)),
                (''g3'', NoRaw), (''g4'', Raw (mail ''M4'' ''Four'' None 4)),
                (''g5'', Raw (mail ''M5'' ''Five'' None 5))]"

definition records_b' :: "(string \<times> gmail_get) list" where
  "records_b' = [(''g1'', Raw (mail ''M1'' ''One'' None 1)), (''g2'', Raw (mail ''M2'' ''Two'' None 2)),
                 (''g4'', Raw (mail ''M4'' ''Four'' None 4)), (''g9'', GetFailed ''socket hang up''),
                 (''g5'', Raw (mail ''M5'' ''Five'' None 5))]"

definition env_b :: env where
  "env_b = env0\<lparr>gmail_list := (\<lambda>q. Inr records_b)\<rparr>"

definition env_b' :: env where
  "env_b' = env0\<lparr>gmail_list := (\<lambda>q. Inr records_b')\<rparr>"

text \<open>A search engine that is down at every attempt, and one that is down at the first
  attempt only.\<close>

definition envs_down :: "nat \<Rightarrow> env" where
  "envs_down k = env0\<lparr>es_available := False\<rparr>"

definition envs_flaky :: "nat \<Rightarrow> env" where
  "envs_flaky k = env0\<lparr>es_available := (k \<noteq> 0)\<rparr>"

text \<open>An adapter built from the credentials in the vault, whose access token has expired
  by the time 5000; and the world after one request of such an adapter at that time, and
  after the request of a second adapter built from the same credentials.\<close>

definition adapter1 :: adapter where
  "adapter1 = new_GmailAdapter acct1_id credentials1"

definition world_refreshed_once :: world where
  "world_refreshed_once = snd (authorize_request env0 5000 adapter1 world0)"

definition world_refreshed_twice :: world where
  "world_refreshed_twice = snd (authorize_request env0 5000 adapter1 world_refreshed_once)"

section \<open>Theorems\<close>

lemmas string_defs =
  normalizeSubject_def replace_reply_prefix_def match_reply_prefix_def match_alternative_def
  toLowerCase_def trim_def toLowerCase_char_def ci_letter_def js_space_def ascii_upper_def
  latin1_upper_def

lemmas log_defs = log_error_def log_entry_def draw_def

lemmas store_defs =
  storeMessage_def storeMessage_body_def getMessageByAccountAndMessageId_def
  storage_storeMessage_def findOrCreateThread_def lookup_reply_def lookup_subject_def
  create_thread_def insert_thread_def new_thread_def new_set_def message_row_def insert_message_def
  s3_put_def insert_attachment_def storage_storeAttachment_def log_error_def log_entry_def draw_def

lemmas id_defs = acct1_id_def thread1_id_def thread2_id_def msg1_id_def msg2_id_def job1_id_def
  job2_id_def

lemmas example_defs = env0_def world0_def account1_def credentials1_def mail_def id_defs

lemmas row_defs = thread1_def thread2_def message1_def message2_def world_stored_def
  world_two_threads_def world_two_threads'_def message_row_def

subsection \<open>Subject normalisation\<close>

text \<open>
  C9. The claim: normalizeSubject removes every leading reply or forward prefix, so that
  \<^verbatim>\<open>Re: Fwd: X\<close> normalises to the same value as \<^verbatim>\<open>X\<close>. The code removes the first
  prefix only: \<^verbatim>\<open>Re: Fwd: X\<close> becomes \<^verbatim>\<open>fwd: x\<close>, while \<^verbatim>\<open>X\<close> becomes
  \<^verbatim>\<open>x\<close>.
\<close>

theorem normalizeSubject_strips_one_prefix:
  "normalizeSubject ''Re: Fwd: X'' = ''fwd: x'' \<and> normalizeSubject ''X'' = ''x'' \<and>
   normalizeSubject ''Re: Fwd: X'' \<noteq> normalizeSubject ''X''"
  by (simp add: string_defs)

subsection \<open>Identifiers\<close>

text \<open>What \<^verbatim>\<open>nanoid\<close> draws has 21 characters, and so is not of the \<^verbatim>\<open>uuid\<close>
  syntax, which takes 32 digits.\<close>

lemma nanoid_length: "length (nanoid env n) = 21"
  by (simp add: nanoid_def)

lemma uuid_groups_length: "uuid_groups n s \<Longrightarrow> 4 * n \<le> length s"
  by (induction n s rule: uuid_groups.induct) (auto split: list.splits)

lemma is_uuid_length: "is_uuid s \<Longrightarrow> 32 \<le> length s"
  by (auto simp: is_uuid_def split: list.splits dest!: uuid_groups_length)

lemma nanoid_not_uuid: "\<not> is_uuid (nanoid env n)"
  using is_uuid_length[of "nanoid env n"] by (auto simp: nanoid_length)

lemma example_ids_are_uuids:
  "is_uuid acct1_id" "is_uuid thread1_id" "is_uuid thread2_id" "is_uuid msg1_id" "is_uuid msg2_id"
  "is_uuid job1_id" "is_uuid job2_id"
  by (simp_all add: is_uuid_def hex_digit_def id_defs eval_nat_numeral)

lemma uuid_generate_v4_env0:
  "uuid_generate_v4 env0 0 = job1_id" "uuid_generate_v4 env0 (Suc 0) = job2_id"
  by (simp_all add: env0_def id_defs)

subsection \<open>What each call leaves alone\<close>

lemma find_Some_mem: "find P xs = Some x \<Longrightarrow> x \<in> set xs \<and> P x"
  by (induction xs) (auto split: if_splits)

text \<open>The third step of \<^verbatim>\<open>findOrCreateThread\<close> and the attachment loop hand the
  database an identifier from \<^verbatim>\<open>nanoid\<close> for a \<^verbatim>\<open>uuid\<close> column: the insert is
  rejected.\<close>

lemma create_thread_throws:
  "create_thread env ns em w =
     (Inl (InvalidTextRepresentation (nanoid env (rng w))),
      log_error ''database'' ''Query error'' (InvalidTextRepresentation (nanoid env (rng w))) (draw w))"
  by (simp add: create_thread_def insert_thread_def new_thread_def nanoid_not_uuid Let_def)

lemma store_attachments_cases:
  "store_attachments env a mid mu atts w = (r, w') \<Longrightarrow>
     (atts = [] \<and> r = Inr () \<and> w' = w) \<or>
     (atts \<noteq> [] \<and> (\<exists>e. r = Inl e) \<and>
      db_messages w' = db_messages w \<and> db_threads w' = db_threads w \<and>
      db_accounts w' = db_accounts w \<and> db_sync_jobs w' = db_sync_jobs w \<and>
      db_attachments w' = db_attachments w \<and>
      index_queue w' = index_queue w \<and> vault_kv w' = vault_kv w \<and> vault_writes w' = vault_writes w \<and>
      search_index w' = search_index w \<and> fetch_log w' = fetch_log w \<and>
      refresh_calls w' = refresh_calls w)"
  by (cases atts)
     (auto simp: Let_def storage_storeAttachment_def insert_attachment_def nanoid_not_uuid log_defs
           split: if_splits sum.splits prod.splits)

lemma store_attachments_frame:
  "store_attachments env a mid mu atts w = (r, w') \<Longrightarrow>
     db_messages w' = db_messages w \<and> db_threads w' = db_threads w \<and>
     db_accounts w' = db_accounts w \<and> db_sync_jobs w' = db_sync_jobs w \<and>
     db_attachments w' = db_attachments w \<and>
     index_queue w' = index_queue w \<and> vault_kv w' = vault_kv w \<and> vault_writes w' = vault_writes w \<and>
     search_index w' = search_index w \<and> fetch_log w' = fetch_log w \<and>
     refresh_calls w' = refresh_calls w"
  by (drule store_attachments_cases) auto

lemma storage_storeMessage_frame:
  "storage_storeMessage env a mid raw d w = (r, w') \<Longrightarrow>
     db_messages w' = db_messages w \<and> db_threads w' = db_threads w \<and>
     db_accounts w' = db_accounts w \<and> db_sync_jobs w' = db_sync_jobs w \<and>
     db_attachments w' = db_attachments w \<and>
     index_queue w' = index_queue w \<and> vault_kv w' = vault_kv w \<and> vault_writes w' = vault_writes w \<and>
     search_index w' = search_index w \<and> fetch_log w' = fetch_log w \<and>
     refresh_calls w' = refresh_calls w"
  by (auto simp: storage_storeMessage_def Let_def log_defs split: if_splits)

lemma findOrCreateThread_frame:
  "findOrCreateThread env em w = (r, w') \<Longrightarrow>
     db_messages w' = db_messages w \<and> db_threads w' = db_threads w \<and>
     db_accounts w' = db_accounts w \<and> db_sync_jobs w' = db_sync_jobs w \<and>
     db_attachments w' = db_attachments w \<and>
     index_queue w' = index_queue w \<and> vault_kv w' = vault_kv w \<and> vault_writes w' = vault_writes w \<and>
     search_index w' = search_index w \<and> fetch_log w' = fetch_log w \<and>
     refresh_calls w' = refresh_calls w \<and> s3_objects w' = s3_objects w"
  by (auto simp: findOrCreateThread_def create_thread_throws Let_def log_defs
           split: option.splits)

text \<open>\<^verbatim>\<open>storeMessage\<close> writes to the bucket and to the log, and to no table.\<close>

lemma storeMessage_body_frame:
  assumes "storeMessage_body env a em w = (r, w')"
  shows "db_messages w' = db_messages w \<and> db_threads w' = db_threads w \<and>
         db_accounts w' = db_accounts w \<and> db_sync_jobs w' = db_sync_jobs w \<and>
         db_attachments w' = db_attachments w \<and>
         index_queue w' = index_queue w \<and> vault_kv w' = vault_kv w \<and> vault_writes w' = vault_writes w \<and>
         search_index w' = search_index w \<and> fetch_log w' = fetch_log w \<and>
         refresh_calls w' = refresh_calls w"
proof (cases "getMessageByAccountAndMessageId (draw w) a (messageId em)")
  case (Some ex)
  with assms have "w' = draw w" by (simp add: storeMessage_body_def Let_def)
  then show ?thesis by (simp add: draw_def)
next
  case None
  obtain r1 w1 where s1: "storage_storeMessage env a (messageId em) (rawEmail em) (date em) (draw w) = (r1, w1)"
    by (cases "storage_storeMessage env a (messageId em) (rawEmail em) (date em) (draw w)")
  note f1 = storage_storeMessage_frame[OF s1]
  show ?thesis
  proof (cases r1)
    case (Inl e)
    with assms None s1 have "w' = w1" by (simp add: storeMessage_body_def Let_def)
    with f1 show ?thesis by (simp add: draw_def)
  next
    case (Inr key)
    obtain r2 w2 where s2: "store_attachments env a (messageId em) (nanoid env (rng w)) (attachments em) w1 = (r2, w2)"
      by (cases "store_attachments env a (messageId em) (nanoid env (rng w)) (attachments em) w1")
    note f2 = store_attachments_frame[OF s2]
    show ?thesis
    proof (cases r2)
      case (Inl e)
      with assms None s1 Inr s2 have "w' = w2" by (simp add: storeMessage_body_def Let_def)
      with f1 f2 show ?thesis by (simp add: draw_def)
    next
      case R2: (Inr u)
      obtain r3 w3 where s3: "findOrCreateThread env em w2 = (r3, w3)"
        by (cases "findOrCreateThread env em w2")
      note f3 = findOrCreateThread_frame[OF s3]
      show ?thesis
      proof (cases r3)
        case (Inl e)
        with assms None s1 Inr s2 R2 s3 have "w' = w3" by (simp add: storeMessage_body_def Let_def)
        with f1 f2 f3 show ?thesis by (simp add: draw_def)
      next
        case R3: (Inr th)
        with assms None s1 Inr s2 R2 s3
        have "w' = log_error ''database'' ''Query error'' (SyntaxError ''references'') w3"
          by (simp add: storeMessage_body_def insert_message_def Let_def)
        with f1 f2 f3 show ?thesis by (simp add: log_defs)
      qed
    qed
  qed
qed

lemma storeMessage_frame:
  assumes "storeMessage env a em w = (r, w')"
  shows "db_messages w' = db_messages w \<and> db_threads w' = db_threads w \<and>
         db_accounts w' = db_accounts w \<and> db_sync_jobs w' = db_sync_jobs w \<and>
         db_attachments w' = db_attachments w \<and>
         index_queue w' = index_queue w \<and> vault_kv w' = vault_kv w \<and> vault_writes w' = vault_writes w \<and>
         search_index w' = search_index w \<and> fetch_log w' = fetch_log w \<and>
         refresh_calls w' = refresh_calls w"
proof -
  obtain rb wb where b: "storeMessage_body env a em w = (rb, wb)"
    by (cases "storeMessage_body env a em w")
  from assms b have "w' = wb \<or> (\<exists>e. w' = log_error ''message-service'' ''Failed to store message'' e wb)"
    by (auto simp: storeMessage_def split: sum.splits)
  with storeMessage_body_frame[OF b] show ?thesis by (auto simp: log_defs)
qed

subsection \<open>Deduplication\<close>

lemma storeMessage_hit:
  "getMessageByAccountAndMessageId w a (messageId em) = Some ex \<Longrightarrow>
   storeMessage env a em w = (Inr ex, draw w)"
  by (simp add: storeMessage_def storeMessage_body_def Let_def getMessageByAccountAndMessageId_def draw_def)

text \<open>A call for a key that is not stored throws: at the bucket, at the first attachment,
  at the new thread, or at the message row.\<close>

lemma storeMessage_new_throws:
  assumes "getMessageByAccountAndMessageId w a (messageId em) = None"
  shows "\<exists>e. fst (storeMessage env a em w) = Inl e"
proof -
  have g: "getMessageByAccountAndMessageId (draw w) a (messageId em) = None"
    using assms by (simp add: getMessageByAccountAndMessageId_def draw_def)
  have "\<exists>e w1. storeMessage_body env a em w = (Inl e, w1)"
    by (auto simp: storeMessage_body_def g insert_message_def Let_def
          split: prod.splits sum.splits dest: store_attachments_cases)
  then show ?thesis by (auto simp: storeMessage_def)
qed




subsection \<open>Threads and their counts\<close>

lemma thread_messages_append:
  "thread_messages tid (ms @ [r]) = thread_messages tid ms @ (if msg_thread_id r = Some tid then [r] else [])"
  by (simp add: thread_messages_def)

lemma trigger_row_id: "thr_id (trigger_row tid new ms t) = thr_id t"
  by (simp add: trigger_row_def)

lemma trigger_row_count:
  "thr_message_count (trigger_row tid new ms t) = (if thr_id t = tid then length ms else thr_message_count t)"
  by (simp add: trigger_row_def)

lemma messages_insert_row_threads:
  assumes "messages_insert_row r w = Inr w'"
  shows "db_messages w' = db_messages w @ [r]"
    and "db_threads w' =
          (case msg_thread_id r of None \<Rightarrow> db_threads w
           | Some tid \<Rightarrow> map (trigger_row tid r (thread_messages tid (db_messages w @ [r]))) (db_threads w))"
  using assms
  by (auto simp: messages_insert_row_def update_thread_participants_def Let_def
        split: if_splits option.splits)

lemma messages_insert_row_counts:
  assumes "messages_insert_row r w = Inr w'"
  shows "(counts_ok w \<longrightarrow> counts_ok w') \<and>
         list_all (\<lambda>t. msg_thread_id r = Some (thr_id t) \<longrightarrow> thread_count_ok w' t) (db_threads w')"
  unfolding counts_ok_def list_all_iff thread_count_ok_def messages_insert_row_threads[OF assms]
  by (auto simp: thread_messages_append trigger_row_count trigger_row_id split: option.splits)

text \<open>
  C3. A call of \<^verbatim>\<open>storeMessage\<close> for a key \<^verbatim>\<open>(account_id, messageId)\<close> that is
  stored returns the stored row; every call of \<^verbatim>\<open>storeMessage\<close>, whatever it meets,
  leaves the rows of \<^verbatim>\<open>threads\<close>, with their counts, and the rows of
  \<^verbatim>\<open>messages\<close> as they are; and whenever the table \<^verbatim>\<open>messages\<close> takes a row, the
  row is the one message added, every thread that the row references has a
  \<^verbatim>\<open>message_count\<close> equal to the number of messages that reference it, and if that held
  of all threads before the insert it holds of all threads after.
\<close>

theorem storeMessage_thread_idempotent:
  "(\<forall>ex. getMessageByAccountAndMessageId w a (messageId em) = Some ex \<longrightarrow>
      storeMessage env a em w = (Inr ex, draw w)) \<and>
   db_threads (snd (storeMessage env a em w)) = db_threads w \<and>
   db_messages (snd (storeMessage env a em w)) = db_messages w \<and>
   (\<forall>w'. messages_insert_row r w = Inr w' \<longrightarrow>
      db_messages w' = db_messages w @ [r] \<and>
      list_all (\<lambda>t. msg_thread_id r = Some (thr_id t) \<longrightarrow> thread_count_ok w' t) (db_threads w') \<and>
      (counts_ok w \<longrightarrow> counts_ok w'))"
proof -
  obtain res w1 where s: "storeMessage env a em w = (res, w1)" by (cases "storeMessage env a em w")
  from storeMessage_frame[OF s]
  have t: "db_threads (snd (storeMessage env a em w)) = db_threads w"
    and m: "db_messages (snd (storeMessage env a em w)) = db_messages w"
    by (simp_all add: s)
  have i: "\<forall>w'. messages_insert_row r w = Inr w' \<longrightarrow>
      db_messages w' = db_messages w @ [r] \<and>
      list_all (\<lambda>t. msg_thread_id r = Some (thr_id t) \<longrightarrow> thread_count_ok w' t) (db_threads w') \<and>
      (counts_ok w \<longrightarrow> counts_ok w')"
    using messages_insert_row_counts messages_insert_row_threads(1) by blast
  from t m i storeMessage_hit show ?thesis by blast
qed

theorem storeMessage_thread_idempotent_witness:
  "getMessageByAccountAndMessageId world_stored acct1_id ''A'' = Some message1 \<and>
   storeMessage env0 acct1_id (mail ''A'' ''Hello'' None 10) world_stored =
     (Inr message1, draw world_stored) \<and>
   db_threads (snd (storeMessage env0 acct1_id (mail ''A'' ''Hello'' None 10) world_stored)) = [thread1] \<and>
   db_messages (snd (storeMessage env0 acct1_id (mail ''A'' ''Hello'' None 10) world_stored)) = [message1] \<and>
   counts_ok world_stored \<and>
   (\<exists>w'. messages_insert_row message2 world_stored = Inr w' \<and>
          db_messages w' = [message1, message2] \<and>
          map (\<lambda>t. (thr_id t, thr_message_count t)) (db_threads w') = [(thread1_id, 2)] \<and>
          counts_ok w')"
proof -
  let ?m = "mail ''A'' ''Hello'' None 10"
  have m: "messageId ?m = ''A''" by (simp add: mail_def)
  have g: "getMessageByAccountAndMessageId world_stored acct1_id ''A'' = Some message1"
    by (simp add: getMessageByAccountAndMessageId_def row_defs world0_def mail_def)
  have c0: "counts_ok world_stored"
    by (simp add: counts_ok_def thread_count_ok_def thread_messages_def row_defs world0_def)
  have tm: "db_threads world_stored = [thread1]" "db_messages world_stored = [message1]"
    by (simp_all add: world_stored_def world0_def)
  have r2: "msg_thread_id message2 = Some thread1_id" "thr_id thread1 = thread1_id"
    by (simp_all add: row_defs)
  have u: "is_uuid (msg_id message2)" "is_uuid (msg_account_id message2)"
    using example_ids_are_uuids by (simp_all add: row_defs)
  have k: "msg_id message2 \<noteq> msg_id message1" "dedup_key message2 \<noteq> dedup_key message1"
          "msg_account_id message2 = acc_id account1"
    by (simp_all add: row_defs dedup_key_def mail_def account1_def id_defs)
  obtain w' where i: "messages_insert_row message2 world_stored = Inr w'"
    using u k r2 example_ids_are_uuids(2)
    by (simp add: messages_insert_row_def tm world_stored_def world0_def)
  note t = storeMessage_thread_idempotent[of world_stored acct1_id ?m env0 message2]
  from t g m have a: "storeMessage env0 acct1_id ?m world_stored = (Inr message1, draw world_stored)"
    by simp
  from t tm have b: "db_threads (snd (storeMessage env0 acct1_id ?m world_stored)) = [thread1]"
    and c: "db_messages (snd (storeMessage env0 acct1_id ?m world_stored)) = [message1]"
    by simp_all
  from t i c0 tm have d: "db_messages w' = [message1, message2]" and e: "counts_ok w'"
    by simp_all
  have f: "map (\<lambda>t. (thr_id t, thr_message_count t)) (db_threads w') = [(thread1_id, 2)]"
    unfolding messages_insert_row_threads(2)[OF i]
    by (simp add: r2 tm trigger_row_id trigger_row_count thread_messages_def row_defs)
  have x: "\<exists>w'. messages_insert_row message2 world_stored = Inr w' \<and>
          db_messages w' = [message1, message2] \<and>
          map (\<lambda>t. (thr_id t, thr_message_count t)) (db_threads w') = [(thread1_id, 2)] \<and>
          counts_ok w'"
    by (rule exI[of _ w']) (simp add: i d e f)
  from g a b c c0 x show ?thesis by (intro conjI)
qed

subsection \<open>Thread resolution\<close>

lemma lookup_reply_Some:
  "lookup_reply em w = Some m \<Longrightarrow>
     m \<in> set (db_messages w) \<and> inReplyTo em = Some (msg_message_id m) \<and> replies_to_stored em w"
  by (auto simp: lookup_reply_def replies_to_stored_def split: option.splits if_splits dest!: find_Some_mem)

lemma lookup_reply_None: "lookup_reply em w = None \<Longrightarrow> \<not> replies_to_stored em w"
  by (auto simp: lookup_reply_def replies_to_stored_def find_None_iff split: option.splits if_splits)

lemma lookup_subject_Some:
  "lookup_subject ns w = Some t \<Longrightarrow>
     t \<in> set (db_threads w) \<and> thr_subject_normalized t = ns \<and> subject_known ns w"
  by (auto simp: lookup_subject_def subject_known_def dest!: find_Some_mem)

lemma lookup_subject_None: "lookup_subject ns w = None \<Longrightarrow> \<not> subject_known ns w"
  by (auto simp: lookup_subject_def subject_known_def find_None_iff)

text \<open>
  C4, as the code has it. \<^verbatim>\<open>findOrCreateThread\<close> tries in this order: (1) if the
  message carries a non-empty in-reply-to reference to a stored message (of any account), the
  result is the thread of such a message and nothing is written; (2) otherwise, if a thread
  with the normalised subject exists, the result is such a thread and nothing is written;
  (3) otherwise, and only then, the call goes on to its third step, the insert of a new
  thread with that subject, and its result is the outcome of that step. The lookups take the
  first row in scan order.
\<close>

theorem findOrCreateThread_priority:
  assumes "findOrCreateThread env em w = (r, w')"
  shows "(replies_to_stored em w \<longrightarrow>
            w' = w \<and>
            (\<exists>m \<in> set (db_messages w). inReplyTo em = Some (msg_message_id m) \<and> r = Inr (msg_thread_id m))) \<and>
         (\<not> replies_to_stored em w \<and> subject_known (normalizeSubject (subject em)) w \<longrightarrow>
            w' = w \<and>
            (\<exists>t \<in> set (db_threads w). thr_subject_normalized t = normalizeSubject (subject em) \<and>
                r = Inr (Some (thr_id t)))) \<and>
         (\<not> replies_to_stored em w \<and> \<not> subject_known (normalizeSubject (subject em)) w \<longrightarrow>
            (r, w') =
              (case create_thread env (normalizeSubject (subject em)) em w of
                 (Inl e, w1) \<Rightarrow>
                   (Inl e, log_error ''message-service'' ''Failed to find or create thread'' e w1)
               | (Inr threadId, w1) \<Rightarrow> (Inr (Some threadId), w1)))"
proof (cases "lookup_reply em w")
  case (Some m)
  from lookup_reply_Some[OF Some] assms show ?thesis
    by (auto simp: findOrCreateThread_def Some)
next
  case None
  note nr = lookup_reply_None[OF None]
  show ?thesis
  proof (cases "lookup_subject (normalizeSubject (subject em)) w")
    case (Some t)
    from lookup_subject_Some[OF Some] nr assms show ?thesis
      by (auto simp: findOrCreateThread_def None Some Let_def)
  next
    case N2: None
    from lookup_subject_None[OF N2] nr assms show ?thesis
      by (simp add: findOrCreateThread_def None N2 Let_def)
  qed
qed

lemmas thread_defs = findOrCreateThread_def lookup_reply_def lookup_subject_def log_defs

text \<open>
  Against C4 as stated (the most recent thread with the subject): the store holds two
  threads with the subject \<^verbatim>\<open>hello\<close>, last written at 10 and at 20, and the next
  message with that subject joins the one of 10, which a scan of the table meets first; had
  the scan met the other first, the message would have joined that one.
\<close>

theorem findOrCreateThread_most_recent_counterexample:
  "map (\<lambda>t. (thr_id t, thr_subject_normalized t, thr_last_message_date t)) (db_threads world_two_threads) =
     [(thread1_id, ''hello'', 10), (thread2_id, ''hello'', 20)] \<and>
   normalizeSubject ''Hello'' = ''hello'' \<and>
   findOrCreateThread env0 (mail ''C'' ''Hello'' None 30) world_two_threads =
     (Inr (Some thread1_id), world_two_threads) \<and>
   set (db_threads world_two_threads') = set (db_threads world_two_threads) \<and>
   findOrCreateThread env0 (mail ''C'' ''Hello'' None 30) world_two_threads' =
     (Inr (Some thread2_id), world_two_threads')"
  by (simp add: thread_defs row_defs world0_def mail_def Let_def string_defs insert_commute)

theorem findOrCreateThread_priority_witness:
  "replies_to_stored (mail ''B'' ''Question'' (Some ''A'') 20) world_stored \<and>
   findOrCreateThread env0 (mail ''B'' ''Question'' (Some ''A'') 20) world_stored =
     (Inr (Some thread1_id), world_stored) \<and>
   \<not> replies_to_stored (mail ''D'' ''Fwd: Hello'' None 30) world_stored \<and>
   subject_known (normalizeSubject ''Fwd: Hello'') world_stored \<and>
   findOrCreateThread env0 (mail ''D'' ''Fwd: Hello'' None 30) world_stored =
     (Inr (Some thread1_id), world_stored) \<and>
   \<not> replies_to_stored (mail ''E'' ''Other'' None 40) world_stored \<and>
   \<not> subject_known (normalizeSubject ''Other'') world_stored \<and>
   fst (findOrCreateThread env0 (mail ''E'' ''Other'' None 40) world_stored) =
     Inl (InvalidTextRepresentation (nanoid env0 0)) \<and>
   db_threads (snd (findOrCreateThread env0 (mail ''E'' ''Other'' None 40) world_stored)) = [thread1]"
proof -
  let ?mB = "mail ''B'' ''Question'' (Some ''A'') 20"
  let ?mD = "mail ''D'' ''Fwd: Hello'' None 30"
  let ?mE = "mail ''E'' ''Other'' None 40"
  have sD: "subject ?mD = ''Fwd: Hello''" and sE: "subject ?mE = ''Other''"
    and iB: "inReplyTo ?mB = Some ''A''"
    by (simp_all add: mail_def)
  have tm: "db_threads world_stored = [thread1]" "db_messages world_stored = [message1]"
    "rng world_stored = 0"
    by (simp_all add: world_stored_def world0_def)
  have rows: "msg_message_id message1 = ''A''" "msg_thread_id message1 = Some thread1_id"
    "thr_id thread1 = thread1_id" "thr_subject_normalized thread1 = ''hello''"
    by (simp_all add: row_defs mail_def)
  have b1: "replies_to_stored ?mB world_stored"
    by (simp add: replies_to_stored_def tm rows mail_def)
  have d1: "\<not> replies_to_stored ?mD world_stored"
    by (simp add: replies_to_stored_def mail_def)
  have d2: "subject_known (normalizeSubject ''Fwd: Hello'') world_stored"
    by (simp add: subject_known_def tm rows string_defs)
  have e1: "\<not> replies_to_stored ?mE world_stored"
    by (simp add: replies_to_stored_def mail_def)
  have e2: "\<not> subject_known (normalizeSubject ''Other'') world_stored"
    by (simp add: subject_known_def tm rows string_defs)
  from findOrCreateThread_priority[of env0 ?mB world_stored "fst (findOrCreateThread env0 ?mB world_stored)"
      "snd (findOrCreateThread env0 ?mB world_stored)"] b1
  have "snd (findOrCreateThread env0 ?mB world_stored) = world_stored \<and>
        (\<exists>m \<in> set (db_messages world_stored). inReplyTo ?mB = Some (msg_message_id m) \<and>
               fst (findOrCreateThread env0 ?mB world_stored) = Inr (msg_thread_id m))"
    by simp
  then have b2: "findOrCreateThread env0 ?mB world_stored = (Inr (Some thread1_id), world_stored)"
    by (simp add: tm rows prod_eq_iff)
  from findOrCreateThread_priority[of env0 ?mD world_stored "fst (findOrCreateThread env0 ?mD world_stored)"
      "snd (findOrCreateThread env0 ?mD world_stored)"] d1 d2 sD
  have "snd (findOrCreateThread env0 ?mD world_stored) = world_stored \<and>
        (\<exists>t \<in> set (db_threads world_stored).
               fst (findOrCreateThread env0 ?mD world_stored) = Inr (Some (thr_id t)))"
    by auto
  then have d3: "findOrCreateThread env0 ?mD world_stored = (Inr (Some thread1_id), world_stored)"
    by (simp add: tm rows prod_eq_iff)
  from findOrCreateThread_priority[of env0 ?mE world_stored "fst (findOrCreateThread env0 ?mE world_stored)"
      "snd (findOrCreateThread env0 ?mE world_stored)"] e1 e2 sE
  have e3: "findOrCreateThread env0 ?mE world_stored =
      (Inl (InvalidTextRepresentation (nanoid env0 0)),
       log_error ''message-service'' ''Failed to find or create thread''
         (InvalidTextRepresentation (nanoid env0 0))
         (log_error ''database'' ''Query error'' (InvalidTextRepresentation (nanoid env0 0))
            (draw world_stored)))"
    by (simp add: create_thread_throws tm)
  have e4: "fst (findOrCreateThread env0 ?mE world_stored) = Inl (InvalidTextRepresentation (nanoid env0 0))"
    and e5: "db_threads (snd (findOrCreateThread env0 ?mE world_stored)) = [thread1]"
    unfolding e3 by (simp_all add: log_defs tm)
  from b1 b2 d1 d2 d3 e1 e2 e4 e5 show ?thesis by blast
qed

subsection \<open>syncAccount: what it leaves alone, and the fetch window\<close>

lemma store_loop_frame:
  "store_loop env a ems n w = (k, w') \<Longrightarrow>
     db_accounts w' = db_accounts w \<and> db_sync_jobs w' = db_sync_jobs w \<and>
     db_messages w' = db_messages w \<and> db_threads w' = db_threads w \<and>
     db_attachments w' = db_attachments w \<and>
     fetch_log w' = fetch_log w \<and> vault_kv w' = vault_kv w \<and> search_index w' = search_index w"
proof (induction ems arbitrary: n w)
  case Nil
  then show ?case by simp
next
  case (Cons em ems)
  obtain r w1 where s: "storeMessage env a em w = (r, w1)" by (cases "storeMessage env a em w")
  note f = storeMessage_frame[OF s]
  show ?case
  proof (cases r)
    case (Inl e)
    with Cons.prems s have "store_loop env a ems n (log_error ''sync-service'' ''Failed to store message'' e w1) = (k, w')"
      by simp
    from Cons.IH[OF this] f show ?thesis by (simp add: log_defs)
  next
    case (Inr stored)
    show ?thesis
    proof (cases "redis_available env (msg_id stored)")
      case True
      with Cons.prems s Inr have "store_loop env a ems (Suc n) (w1\<lparr>index_queue := index_queue w1 @ [msg_id stored]\<rparr>) = (k, w')"
        by (simp add: addIndexJob_def)
      from Cons.IH[OF this] f show ?thesis by simp
    next
      case False
      with Cons.prems s Inr have "store_loop env a ems n (log_error ''sync-service'' ''Failed to store message'' (QueueError ''queue unreachable'') w1) = (k, w')"
        by (simp add: addIndexJob_def)
      from Cons.IH[OF this] f show ?thesis by (simp add: log_defs)
    qed
  qed
qed

lemma fetch_each_frame:
  "fetch_each recs w = (rs, w') \<Longrightarrow>
     db_accounts w' = db_accounts w \<and> db_sync_jobs w' = db_sync_jobs w \<and>
     db_messages w' = db_messages w \<and> db_threads w' = db_threads w \<and>
     fetch_log w' = fetch_log w \<and> vault_kv w' = vault_kv w \<and> search_index w' = search_index w \<and>
     s3_objects w' = s3_objects w \<and> db_attachments w' = db_attachments w \<and>
     index_queue w' = index_queue w \<and> rng w' = rng w"
proof (induction recs arbitrary: w rs)
  case Nil
  then show ?case by simp
next
  case (Cons rec recs)
  then show ?case
    by (auto simp: fetchFullMessage_def log_defs split: prod.splits gmail_get.splits)
qed

lemma fetchMessages_frame:
  "fetchMessages env q w = (r, w') \<Longrightarrow>
     db_accounts w' = db_accounts w \<and> db_sync_jobs w' = db_sync_jobs w \<and>
     db_messages w' = db_messages w \<and> db_threads w' = db_threads w \<and>
     vault_kv w' = vault_kv w \<and> search_index w' = search_index w \<and>
     s3_objects w' = s3_objects w \<and> db_attachments w' = db_attachments w \<and>
     index_queue w' = index_queue w \<and> rng w' = rng w \<and>
     fetch_log w' = fetch_log w @ [q\<lparr>maxMessages := (if maxMessages q = 0 then 100 else maxMessages q)\<rparr>]"
  by (auto simp: fetchMessages_def Let_def log_defs split: sum.splits prod.splits dest!: fetch_each_frame)

lemma sync_max_pos: "sync_max opts \<noteq> 0"
  by (simp add: sync_max_def split: option.splits)

lemma sync_job_body_fetch_log:
  "fetch_log (snd (sync_job_body env a j since mx w)) =
     fetch_log w @ [\<lparr>sinceDate = Some since, maxMessages = (if mx = 0 then 100 else mx)\<rparr>]"
proof -
  obtain r w1 where f: "fetchMessages env \<lparr>sinceDate = Some since, maxMessages = mx\<rparr> w = (r, w1)"
    by (cases "fetchMessages env \<lparr>sinceDate = Some since, maxMessages = mx\<rparr> w")
  note ff = fetchMessages_frame[OF f]
  show ?thesis
  proof (cases r)
    case (Inl e)
    with f ff show ?thesis
      by (simp add: sync_job_body_def sync_catch_def updateAccountStatus_def failSyncJob_def log_defs)
  next
    case (Inr ms)
    obtain k w2 where l: "store_loop env a ms 0 w1 = (k, w2)" by (cases "store_loop env a ms 0 w1")
    from store_loop_frame[OF l] f ff Inr l show ?thesis
      by (simp add: sync_job_body_def updateAccountStatus_def updateSyncCursor_def completeSyncJob_def)
  qed
qed

lemma getAccountById_mem:
  "getAccountById w a = Some acct \<Longrightarrow> acct \<in> set (db_accounts w) \<and> acc_id acct = a"
  by (auto simp: getAccountById_def dest!: find_Some_mem)


lemma updateAccountStatus_frame:
  "db_sync_jobs (updateAccountStatus a st e w) = db_sync_jobs w"
  "vault_kv (updateAccountStatus a st e w) = vault_kv w"
  "fetch_log (updateAccountStatus a st e w) = fetch_log w"
  "rng (updateAccountStatus a st e w) = rng w"
  "map acc_id (db_accounts (updateAccountStatus a st e w)) = map acc_id (db_accounts w)"
  by (simp_all add: updateAccountStatus_def o_def if_distrib cong: if_cong)

lemma syncAccount_reaches_job:
  assumes "getAccountById w a = Some acct" and "acc_status acct = Active"
      and "map_of (vault_kv w) a = Some c" and "acc_provider acct = Gmail"
      and "gmail_profile env" and "uuid_generate_v4 env (rng w) \<notin> set (map job_id (db_sync_jobs w))"
  shows "\<exists>w3. createSyncJob env a (updateAccountStatus a Syncing None w) = (Inr (uuid_generate_v4 env (rng w)), w3) \<and>
              fetch_log w3 = fetch_log w \<and>
              syncAccount env a opts w =
                sync_job_body env a (uuid_generate_v4 env (rng w)) (sync_since env opts acct) (sync_max opts) w3"
proof -
  let ?w1 = "updateAccountStatus a Syncing None w"
  from getAccountById_mem[OF assms(1)] have "a \<in> set (map acc_id (db_accounts w))" by force
  then have mem: "a \<in> set (map acc_id (db_accounts ?w1))"
    by (simp add: updateAccountStatus_frame)
  have fresh: "uuid_generate_v4 env (rng ?w1) \<notin> set (map job_id (db_sync_jobs ?w1))"
    using assms(6) by (simp add: updateAccountStatus_frame)
  define w3 where "w3 = snd (createSyncJob env a ?w1)"
  have j: "createSyncJob env a ?w1 = (Inr (uuid_generate_v4 env (rng w)), w3)"
    using mem fresh unfolding w3_def
    by (simp add: createSyncJob_def Let_def draw_def updateAccountStatus_frame)
  have fl: "fetch_log w3 = fetch_log w"
    using mem fresh unfolding w3_def
    by (simp add: createSyncJob_def Let_def draw_def updateAccountStatus_frame)
  have cr: "getAccountCredentials a ?w1 = (Some c, ?w1)"
    using assms(3) by (simp add: getAccountCredentials_def updateAccountStatus_frame)
  have ad: "createAdapter acct c = Inr ()"
    using assms(4) by (simp add: createAdapter_def)
  have tc: "testConnection env ?w1 = (True, ?w1)"
    using assms(5) by (simp add: testConnection_def)
  have "syncAccount env a opts w =
          sync_job_body env a (uuid_generate_v4 env (rng w)) (sync_since env opts acct) (sync_max opts) w3"
    unfolding syncAccount_def using assms(1,2) by (simp add: cr ad tc j)
  with j fl show ?thesis by blast
qed

lemma setDate_back_same_offset:
  "localTZA env (LocalTime env t - int days * msPerDay) False = localTZA env t True \<Longrightarrow>
   setDate_back env days t = t - int days * msPerDay"
  by (simp add: setDate_back_def UTC_def LocalTime_def)

text \<open>
  C10, as the code has it. A \<^verbatim>\<open>syncAccount\<close> call without \<^verbatim>\<open>sinceDate\<close> that
  gets as far as the fetch (the account is active and a Gmail account, its credentials are in
  the vault, the provider answers the connection test, the job's identifier is unused) issues
  exactly one fetch. Its window starts at \<^verbatim>\<open>last_sync_at\<close> when that is set. Otherwise
  it starts at the instant whose local time is 30 days (of \<open>msPerDay\<close> milliseconds each)
  before the local time of the clock of the call; when local time has the same offset from
  UTC at both, that is the clock less 30 days.
\<close>

theorem syncAccount_window:
  assumes "getAccountById w a = Some acct" and "acc_status acct = Active"
      and "map_of (vault_kv w) a = Some c" and "acc_provider acct = Gmail"
      and "gmail_profile env" and "uuid_generate_v4 env (rng w) \<notin> set (map job_id (db_sync_jobs w))"
      and "req_sinceDate opts = None"
  shows "fetch_log (snd (syncAccount env a opts w)) =
           fetch_log w @
           [\<lparr>sinceDate = Some (case acc_last_sync_at acct of
                                 None \<Rightarrow> UTC env (LocalTime env (clock env) - 30 * msPerDay)
                               | Some t \<Rightarrow> t),
             maxMessages = sync_max opts\<rparr>] \<and>
         (localTZA env (LocalTime env (clock env) - 30 * msPerDay) False = localTZA env (clock env) True \<longrightarrow>
            fetch_log (snd (syncAccount env a opts w)) =
              fetch_log w @
              [\<lparr>sinceDate = Some (case acc_last_sync_at acct of
                                    None \<Rightarrow> clock env - 30 * msPerDay
                                  | Some t \<Rightarrow> t),
                maxMessages = sync_max opts\<rparr>])"
proof -
  have since: "sync_since env opts acct =
      (case acc_last_sync_at acct of None \<Rightarrow> UTC env (LocalTime env (clock env) - 30 * msPerDay)
       | Some t \<Rightarrow> t)"
    using assms(7) by (simp add: sync_since_def getLastSyncDate_def setDate_back_def split: option.splits)
  from syncAccount_reaches_job[OF assms(1-6), of opts] obtain w3 where
    fl: "fetch_log w3 = fetch_log w" and
    eq: "syncAccount env a opts w =
           sync_job_body env a (uuid_generate_v4 env (rng w)) (sync_since env opts acct) (sync_max opts) w3"
    by blast
  have a: "fetch_log (snd (syncAccount env a opts w)) =
           fetch_log w @
           [\<lparr>sinceDate = Some (case acc_last_sync_at acct of
                                 None \<Rightarrow> UTC env (LocalTime env (clock env) - 30 * msPerDay)
                               | Some t \<Rightarrow> t),
             maxMessages = sync_max opts\<rparr>]"
    unfolding eq sync_job_body_fetch_log fl since using sync_max_pos[of opts] by simp
  have b: "localTZA env (LocalTime env (clock env) - 30 * msPerDay) False = localTZA env (clock env) True \<Longrightarrow>
           UTC env (LocalTime env (clock env) - 30 * msPerDay) = clock env - 30 * msPerDay"
    using setDate_back_same_offset[of env "clock env" 30] by (simp add: setDate_back_def)
  from a b show ?thesis by (auto split: option.splits)
qed

lemmas sync_defs = syncAccount_def getAccountById_def getAccountCredentials_def updateAccountStatus_def
  or_null_def createAdapter_def testConnection_def createSyncJob_def sync_job_body_def sync_since_def
  sync_max_def getLastSyncDate_def setDate_back_def UTC_def LocalTime_def msPerDay_def fetchMessages_def
  sync_catch_def failSyncJob_def completeSyncJob_def updateSyncCursor_def fetchFullMessage_def
  addIndexJob_def syncWorker_handler_def process_sync_job_def attempts_def

text \<open>
  Against C10 as stated (exactly 30 days before the current time): in a time zone whose
  clocks went forward by an hour within the last 30 days, the window of a first
  synchronisation starts 30 days less one hour before the clock of the call. The clock is
  2592001000, 30 days before it is 1000, and the fetch is issued from 3601000.
\<close>

theorem syncAccount_window_dst_counterexample:
  "acc_last_sync_at account1 = None \<and> req_sinceDate no_options = None \<and>
   clock env_dst - 30 * msPerDay = 1000 \<and>
   fetch_log (snd (syncAccount env_dst acct1_id no_options world0)) =
     [\<lparr>sinceDate = Some 3601000, maxMessages = 100\<rparr>]"
  by (simp add: sync_defs env_dst_def no_options_def example_defs log_defs Let_def)

theorem syncAccount_window_witness:
  "getAccountById world0 acct1_id = Some account1 \<and> acc_status account1 = Active \<and>
   map_of (vault_kv world0) acct1_id = Some credentials1 \<and> acc_provider account1 = Gmail \<and>
   gmail_profile env0 \<and> uuid_generate_v4 env0 (rng world0) \<notin> set (map job_id (db_sync_jobs world0)) \<and>
   localTZA env0 (LocalTime env0 (clock env0) - 30 * msPerDay) False = localTZA env0 (clock env0) True \<and>
   fetch_log (snd (syncAccount env0 acct1_id \<lparr>req_sinceDate = None, req_maxMessages = None\<rparr> world0)) =
     [\<lparr>sinceDate = Some 1000, maxMessages = 100\<rparr>] \<and>
   getAccountById (world0\<lparr>db_accounts := [account1\<lparr>acc_last_sync_at := Some 5000\<rparr>]\<rparr>) acct1_id =
     Some (account1\<lparr>acc_last_sync_at := Some 5000\<rparr>) \<and>
   fetch_log (snd (syncAccount env0 acct1_id \<lparr>req_sinceDate = None, req_maxMessages = None\<rparr>
                (world0\<lparr>db_accounts := [account1\<lparr>acc_last_sync_at := Some 5000\<rparr>]\<rparr>))) =
     [\<lparr>sinceDate = Some 5000, maxMessages = 100\<rparr>] \<and>
   fetch_log (snd (syncAccount env_dst acct1_id \<lparr>req_sinceDate = None, req_maxMessages = None\<rparr> world0)) =
     [\<lparr>sinceDate = Some (UTC env_dst (LocalTime env_dst (clock env_dst) - 30 * msPerDay)),
       maxMessages = 100\<rparr>]"
proof -
  let ?o = "\<lparr>req_sinceDate = None, req_maxMessages = None\<rparr>"
  let ?acct2 = "account1\<lparr>acc_last_sync_at := Some 5000\<rparr>"
  let ?w2 = "world0\<lparr>db_accounts := [?acct2]\<rparr>"
  have h1: "getAccountById world0 acct1_id = Some account1"
    by (simp add: getAccountById_def world0_def account1_def)
  have h2: "acc_status account1 = Active" by (simp add: account1_def)
  have h3: "map_of (vault_kv world0) acct1_id = Some credentials1" by (simp add: world0_def)
  have h4: "acc_provider account1 = Gmail" by (simp add: account1_def)
  have h5: "gmail_profile env0" "gmail_profile env_dst" by (simp_all add: env0_def env_dst_def)
  have h6: "uuid_generate_v4 env0 (rng world0) \<notin> set (map job_id (db_sync_jobs world0))"
    "uuid_generate_v4 env_dst (rng world0) \<notin> set (map job_id (db_sync_jobs world0))"
    by (simp_all add: world0_def)
  have h7: "req_sinceDate ?o = None" by simp
  have h8: "localTZA env0 (LocalTime env0 (clock env0) - 30 * msPerDay) False = localTZA env0 (clock env0) True"
    by (simp add: env0_def)
  have n: "acc_last_sync_at account1 = None" "fetch_log world0 = []" "sync_max ?o = 100"
    "clock env0 - 30 * msPerDay = 1000"
    by (simp_all add: account1_def world0_def sync_max_def env0_def msPerDay_def)
  have g1: "getAccountById ?w2 acct1_id = Some ?acct2"
    by (simp add: getAccountById_def world0_def account1_def)
  have g2: "acc_status ?acct2 = Active" by (simp add: account1_def)
  have g3: "map_of (vault_kv ?w2) acct1_id = Some credentials1" by (simp add: world0_def)
  have g4: "acc_provider ?acct2 = Gmail" by (simp add: account1_def)
  have g6: "uuid_generate_v4 env0 (rng ?w2) \<notin> set (map job_id (db_sync_jobs ?w2))"
    by (simp add: world0_def)
  from syncAccount_window[OF h1 h2 h3 h4 h5(1) h6(1) h7, THEN conjunct2] h8 n
  have a: "fetch_log (snd (syncAccount env0 acct1_id ?o world0)) = [\<lparr>sinceDate = Some 1000, maxMessages = 100\<rparr>]"
    by simp
  from syncAccount_window[OF g1 g2 g3 g4 h5(1) g6 h7, THEN conjunct1] n(3)
  have b: "fetch_log (snd (syncAccount env0 acct1_id ?o ?w2)) = [\<lparr>sinceDate = Some 5000, maxMessages = 100\<rparr>]"
    by (simp add: world0_def)
  from syncAccount_window[OF h1 h2 h3 h4 h5(2) h6(2) h7, THEN conjunct1] n
  have c: "fetch_log (snd (syncAccount env_dst acct1_id ?o world0)) =
     [\<lparr>sinceDate = Some (UTC env_dst (LocalTime env_dst (clock env_dst) - 30 * msPerDay)),
       maxMessages = 100\<rparr>]"
    by simp
  from h1 h2 h3 h4 h5(1) h6(1) h8 a g1 b c show ?thesis by blast
qed

subsection \<open>syncAccount: failures\<close>

lemma find_map_update:
  "find (\<lambda>x. acc_id x = a) (map (\<lambda>x. if acc_id x = a then f x else x) xs) =
     map_option f (find (\<lambda>x. acc_id x = a) xs)" if "\<And>x. acc_id (f x) = acc_id x"
  using that by (induction xs) auto

lemma getAccountById_updateAccountStatus:
  "getAccountById (updateAccountStatus a st e w) a =
     map_option (\<lambda>x. x\<lparr>acc_status := st, acc_last_sync_error := or_null e\<rparr>) (getAccountById w a)"
  unfolding getAccountById_def updateAccountStatus_def
  by (simp add: find_map_update)

lemma getAccountById_updateSyncCursor:
  "getAccountById (updateSyncCursor a c t w) a =
     map_option (\<lambda>x. x\<lparr>acc_sync_cursor := Some c, acc_last_sync_at := Some t\<rparr>) (getAccountById w a)"
  unfolding getAccountById_def updateSyncCursor_def
  by (simp add: find_map_update)

lemma getAccountById_cong: "db_accounts w' = db_accounts w \<Longrightarrow> getAccountById w' a = getAccountById w a"
  by (simp add: getAccountById_def)

lemma sync_catch_status:
  assumes "getAccountById w a = Some acct" and "sync_catch a n e w = (r, w')"
  shows "\<not> res_success r \<and> account_status_of w' a = Some AuthFailed \<and>
         account_error_of w' a = Some (or_null (res_error r)) \<and> db_sync_jobs w' = db_sync_jobs w"
proof -
  let ?w1 = "log_error ''sync-service'' ''Account sync failed'' e w"
  have g: "getAccountById ?w1 a = Some acct"
    using assms(1) by (simp add: getAccountById_def log_defs)
  from assms(2) have r: "r = \<lparr>res_success = False, res_messagesSynced = n, res_error = Some (error_message e)\<rparr>"
    and w': "w' = updateAccountStatus a AuthFailed (Some (error_message e)) ?w1"
    by (simp_all add: sync_catch_def)
  have j: "db_sync_jobs w' = db_sync_jobs w"
    unfolding w' by (simp add: updateAccountStatus_def log_defs)
  show ?thesis
    unfolding account_status_of_def account_error_of_def
    by (simp add: r w' getAccountById_updateAccountStatus g j[unfolded w'])
qed

lemma createSyncJob_cases:
  assumes "createSyncJob env a w = (r, w')"
  shows "db_accounts w' = db_accounts w \<and>
         ((\<exists>e. r = Inl e \<and> db_sync_jobs w' = db_sync_jobs w) \<or>
          (\<exists>i. r = Inr i \<and> i \<notin> set (map job_id (db_sync_jobs w)) \<and>
               db_sync_jobs w' = db_sync_jobs w @
                 [\<lparr>job_id = i, job_account_id = a, job_status = Running,
                   job_messages_synced = 0, job_error_message = None\<rparr>]))"
  using assms by (auto simp: createSyncJob_def Let_def log_defs split: if_splits)

lemma map_job_update_append:
  assumes "i \<notin> set (map job_id js)" and "job_id j = i"
  shows "map (\<lambda>x. if job_id x = i then f x else x) (js @ [j]) = js @ [f j]"
proof -
  have "map (\<lambda>x. if job_id x = i then f x else x) js = js"
    using assms(1) by (induction js) auto
  with assms(2) show ?thesis by simp
qed

lemma sync_job_body_result:
  assumes "getAccountById w a = Some acct"
      and "db_sync_jobs w = js @ [j]" and "job_id j = i" and "i \<notin> set (map job_id js)"
      and "sync_job_body env a i since mx w = (r, w')"
  shows "account_status_of w' a = Some (if res_success r then Active else AuthFailed) \<and>
         account_error_of w' a = Some (if res_success r then None else or_null (res_error r)) \<and>
         (\<exists>j'. db_sync_jobs w' = js @ [j'] \<and> job_account_id j' = job_account_id j \<and> job_id j' = i \<and>
               job_status j' = (if res_success r then Completed else Failed))"
proof -
  obtain fr w1 where f: "fetchMessages env \<lparr>sinceDate = Some since, maxMessages = mx\<rparr> w = (fr, w1)"
    by (cases "fetchMessages env \<lparr>sinceDate = Some since, maxMessages = mx\<rparr> w")
  note ff = fetchMessages_frame[OF f]
  from ff assms(1) have g1: "getAccountById w1 a = Some acct" by (simp add: getAccountById_def)
  show ?thesis
  proof (cases fr)
    case (Inl e)
    let ?w2 = "failSyncJob i (error_message e) w1"
    have g2: "getAccountById ?w2 a = Some acct"
      using g1 by (simp add: getAccountById_def failSyncJob_def)
    have j2: "db_sync_jobs ?w2 = js @ [j\<lparr>job_status := Failed, job_error_message := Some (error_message e)\<rparr>]"
      using ff assms(2,3) map_job_update_append[OF assms(4,3)] by (simp add: failSyncJob_def)
    from assms(5) f Inl have c: "sync_catch a 0 e ?w2 = (r, w')"
      by (simp add: sync_job_body_def)
    from sync_catch_status[OF g2 c] j2 assms(3) show ?thesis by simp
  next
    case (Inr ms)
    obtain k w2 where l: "store_loop env a ms 0 w1 = (k, w2)" by (cases "store_loop env a ms 0 w1")
    note lf = store_loop_frame[OF l]
    from lf g1 have g2: "getAccountById w2 a = Some acct" by (simp add: getAccountById_def)
    let ?w3 = "completeSyncJob i k w2"
    have g3: "getAccountById ?w3 a = Some acct"
      using g2 by (simp add: getAccountById_def completeSyncJob_def)
    have j3: "db_sync_jobs ?w3 = js @ [j\<lparr>job_status := Completed, job_messages_synced := k\<rparr>]"
      using lf ff assms(2,3) map_job_update_append[OF assms(4,3)] by (simp add: completeSyncJob_def)
    from assms(5) f Inr l
    have r: "r = \<lparr>res_success = True, res_messagesSynced = k, res_error = None\<rparr>"
      and w': "w' = updateAccountStatus a Active None
                  (updateSyncCursor a (clock_done env) (clock_done env) ?w3)"
      by (simp_all add: sync_job_body_def)
    have js': "db_sync_jobs w' = db_sync_jobs ?w3"
      unfolding w' by (simp add: updateAccountStatus_def updateSyncCursor_def)
    show ?thesis
      using g3 j3 assms(3) unfolding js'
      by (simp add: r w' account_status_of_def account_error_of_def getAccountById_updateAccountStatus
          getAccountById_updateSyncCursor or_null_def)
  qed
qed


lemma sync_catch_jobs: "db_sync_jobs (snd (sync_catch a n e w)) = db_sync_jobs w"
  by (simp add: sync_catch_def updateAccountStatus_def log_defs)

lemma sync_catch_fails: "\<not> res_success (fst (sync_catch a n e w))"
  by (simp add: sync_catch_def)

lemma syncAccount_inactive:
  assumes "getAccountById w a = Some acct" and "acc_status acct \<noteq> Active"
  shows "syncAccount env a opts w =
           (\<lparr>res_success = False, res_messagesSynced = 0, res_error = Some ''Account not active''\<rparr>,
            log_entry ''sync-service'' ''Account is not active'' a w)"
  using assms by (simp add: syncAccount_def)

lemma syncAccount_active:
  assumes "getAccountById w a = Some acct" and "acc_status acct = Active"
      and "syncAccount env a opts w = (r, w')"
  shows "account_status_of w' a = Some (if res_success r then Active else AuthFailed) \<and>
         account_error_of w' a = Some (if res_success r then None else or_null (res_error r)) \<and>
         ((\<not> res_success r \<and> db_sync_jobs w' = db_sync_jobs w) \<or>
          (\<exists>j. db_sync_jobs w' = db_sync_jobs w @ [j] \<and> job_account_id j = a \<and>
               job_id j \<notin> set (map job_id (db_sync_jobs w)) \<and>
               job_status j = (if res_success r then Completed else Failed)))"
proof -
  let ?w1 = "updateAccountStatus a Syncing None w"
  let ?acct1 = "acct\<lparr>acc_status := Syncing, acc_last_sync_error := or_null None\<rparr>"
  have g1: "getAccountById ?w1 a = Some ?acct1"
    by (simp add: getAccountById_updateAccountStatus assms(1))
  have j1: "db_sync_jobs ?w1 = db_sync_jobs w" by (simp add: updateAccountStatus_def)
  obtain cr w2 where c: "getAccountCredentials a ?w1 = (cr, w2)"
    by (cases "getAccountCredentials a ?w1")
  then have f2: "db_accounts w2 = db_accounts ?w1" "db_sync_jobs w2 = db_sync_jobs w"
    by (auto simp: getAccountCredentials_def log_defs j1 split: option.splits)
  from f2 g1 have g2: "getAccountById w2 a = Some ?acct1" by (simp add: getAccountById_def)
  show ?thesis
  proof (cases cr)
    case None
    with assms c have "sync_catch a 0 (Error (''Credentials not found for account: '' @ a)) w2 = (r, w')"
      by (simp add: syncAccount_def)
    from sync_catch_status[OF g2 this] f2 show ?thesis by simp
  next
    case (Some cred)
    show ?thesis
    proof (cases "createAdapter acct cred")
      case (Inl e)
      with assms c Some have "sync_catch a 0 e w2 = (r, w')" by (simp add: syncAccount_def)
      from sync_catch_status[OF g2 this] f2 show ?thesis by simp
    next
      case (Inr ad)
      obtain ok w3 where t: "testConnection env w2 = (ok, w3)" by (cases "testConnection env w2")
      with f2 have f3: "db_accounts w3 = db_accounts w2" "db_sync_jobs w3 = db_sync_jobs w"
        by (auto simp: testConnection_def log_defs split: if_splits)
      from f3 g2 have g3: "getAccountById w3 a = Some ?acct1" by (simp add: getAccountById_def)
      show ?thesis
      proof (cases ok)
        case False
        with assms c Some Inr t
        have "sync_catch a 0 (Error ''Failed to connect to mail provider'') w3 = (r, w')"
          by (simp add: syncAccount_def)
        from sync_catch_status[OF g3 this] f3 show ?thesis by simp
      next
        case True
        obtain jr w4 where cj: "createSyncJob env a w3 = (jr, w4)" by (cases "createSyncJob env a w3")
        note cc = createSyncJob_cases[OF cj]
        from cc g3 have g4: "getAccountById w4 a = Some ?acct1" by (simp add: getAccountById_def)
        show ?thesis
        proof (cases jr)
          case (Inl e)
          with assms c Some Inr t True cj have "sync_catch a 0 e w4 = (r, w')"
            by (simp add: syncAccount_def)
          from sync_catch_status[OF g4 this] cc Inl f3 show ?thesis by auto
        next
          case jb: (Inr i)
          from cc jb f3 have fresh: "i \<notin> set (map job_id (db_sync_jobs w))"
            and j4: "db_sync_jobs w4 = db_sync_jobs w @
                 [\<lparr>job_id = i, job_account_id = a, job_status = Running,
                   job_messages_synced = 0, job_error_message = None\<rparr>]"
            by auto
          from assms c Some Inr t True cj jb
          have b: "sync_job_body env a i (sync_since env opts acct) (sync_max opts) w4 = (r, w')"
            by (simp add: syncAccount_def)
          from sync_job_body_result[OF g4 j4 _ fresh b] fresh show ?thesis by auto
        qed
      qed
    qed
  qed
qed

lemma syncAccount_missing:
  assumes "getAccountById w a = None"
  shows "syncAccount env a opts w = sync_catch a 0 (Error (''Account not found: '' @ a)) w"
  using assms by (simp add: syncAccount_def)

lemma syncAccount_jobs:
  assumes "syncAccount env a opts w = (r, w')"
  shows "db_sync_jobs w' = db_sync_jobs w \<or>
         (\<exists>j. db_sync_jobs w' = db_sync_jobs w @ [j] \<and> job_account_id j = a \<and>
              job_id j \<notin> set (map job_id (db_sync_jobs w)) \<and>
              job_status j = (if res_success r then Completed else Failed))"
proof (cases "getAccountById w a")
  case None
  from assms show ?thesis
    unfolding syncAccount_missing[OF None] using sync_catch_jobs[of a 0 _ w] by (metis snd_conv)
next
  case (Some acct)
  show ?thesis
  proof (cases "acc_status acct = Active")
    case True
    from syncAccount_active[OF Some True assms] show ?thesis by blast
  next
    case False
    from assms show ?thesis
      unfolding syncAccount_inactive[OF Some False] by (auto simp: log_defs)
  qed
qed


lemma syncWorker_handler_inactive:
  assumes "getAccountById w a = Some acct" and "acc_status acct \<noteq> Active"
  shows "\<exists>w'. syncWorker_handler env a opts w = (Inl (Error ''Account not active''), w') \<and>
              db_accounts w' = db_accounts w \<and> db_sync_jobs w' = db_sync_jobs w"
  by (simp add: syncWorker_handler_def syncAccount_inactive[OF assms] or_null_def log_defs)

lemma bull_run_inactive:
  assumes "getAccountById w a = Some acct" and "acc_status acct \<noteq> Active"
  shows "\<exists>w'. bull_run (Suc n) k (\<lambda>k. syncWorker_handler (envs k) a opts) w =
                  ((Inl (Error ''Account not active''), Suc (k + n)), w') \<and>
              db_accounts w' = db_accounts w \<and> db_sync_jobs w' = db_sync_jobs w"
  using assms
proof (induction n arbitrary: k w)
  case 0
  from syncWorker_handler_inactive[OF 0, of "envs k" opts] show ?case by auto
next
  case (Suc n)
  from syncWorker_handler_inactive[OF Suc.prems, of "envs k" opts] obtain w1 where
    h: "syncWorker_handler (envs k) a opts w = (Inl (Error ''Account not active''), w1)" and
    f: "db_accounts w1 = db_accounts w" "db_sync_jobs w1 = db_sync_jobs w" by blast
  from f Suc.prems have g: "getAccountById w1 a = Some acct" by (simp add: getAccountById_def)
  from Suc.IH[OF g Suc.prems(2), of "Suc k"] obtain w2 where
    r: "bull_run (Suc n) (Suc k) (\<lambda>k. syncWorker_handler (envs k) a opts) w1 =
          ((Inl (Error ''Account not active''), Suc (Suc k + n)), w2)" and
    f2: "db_accounts w2 = db_accounts w1" "db_sync_jobs w2 = db_sync_jobs w1" by blast
  have "bull_run (Suc (Suc n)) k (\<lambda>k. syncWorker_handler (envs k) a opts) w =
          ((Inl (Error ''Account not active''), Suc (k + Suc n)), w2)"
    using h r by simp
  with f f2 show ?case by auto
qed

lemma process_sync_job_exhausted:
  assumes "getAccountById w a = Some acct" and "acc_status acct = Active"
      and "process_sync_job envs a opts w = ((Inl e, n), w')"
  shows "n = attempts \<and> \<not> res_success (fst (syncAccount (envs 0) a opts w)) \<and>
         db_accounts w' = db_accounts (snd (syncAccount (envs 0) a opts w)) \<and>
         db_sync_jobs w' = db_sync_jobs (snd (syncAccount (envs 0) a opts w))"
proof -
  obtain r0 w0 where s: "syncAccount (envs 0) a opts w = (r0, w0)"
    by (cases "syncAccount (envs 0) a opts w")
  have att: "attempts = Suc (Suc (Suc 0))" by (simp add: attempts_def)
  show ?thesis
  proof (cases "res_success r0")
    case True
    with assms(3) s show ?thesis
      by (simp add: process_sync_job_def att syncWorker_handler_def)
  next
    case False
    let ?e0 = "Error (case or_null (res_error r0) of Some m \<Rightarrow> m | None \<Rightarrow> ''Sync failed'')"
    let ?wa = "log_error ''sync-worker'' ''Sync job failed'' ?e0 w0"
    have h0: "syncWorker_handler (envs 0) a opts w = (Inl ?e0, ?wa)"
      using s False by (simp add: syncWorker_handler_def Let_def)
    from syncAccount_active[OF assms(1,2) s] False
    have "account_status_of w0 a = Some AuthFailed" by simp
    then obtain acct' where g: "getAccountById ?wa a = Some acct'" and st: "acc_status acct' \<noteq> Active"
      by (auto simp: account_status_of_def getAccountById_def log_defs)
    from bull_run_inactive[OF g st, of "Suc 0" "Suc 0" envs opts] obtain w2 where
      r: "bull_run (Suc (Suc 0)) (Suc 0) (\<lambda>k. syncWorker_handler (envs k) a opts) ?wa =
            ((Inl (Error ''Account not active''), Suc (Suc (Suc 0))), w2)" and
      f: "db_accounts w2 = db_accounts ?wa" "db_sync_jobs w2 = db_sync_jobs ?wa" by auto
    have "process_sync_job envs a opts w = ((Inl (Error ''Account not active''), Suc (Suc (Suc 0))), w2)"
      unfolding process_sync_job_def att using h0 r by simp
    with assms(3) f s False att show ?thesis by (simp add: log_defs)
  qed
qed


text \<open>A job for an account that does not exist: every attempt throws, and the update in the
  \<^verbatim>\<open>catch\<close> meets no row.\<close>

lemma updateAccountStatus_missing:
  assumes "getAccountById w a = None"
  shows "db_accounts (updateAccountStatus a st e w) = db_accounts w"
proof -
  from assms have "\<forall>x \<in> set (db_accounts w). acc_id x \<noteq> a"
    by (simp add: getAccountById_def find_None_iff)
  then have "map (\<lambda>x. if acc_id x = a then x\<lparr>acc_status := st, acc_last_sync_error := or_null e\<rparr> else x)
               (db_accounts w) = db_accounts w"
    by (intro map_idI) simp
  then show ?thesis by (simp add: updateAccountStatus_def)
qed

lemma syncWorker_handler_missing:
  assumes "getAccountById w a = None"
  shows "\<exists>w'. syncWorker_handler env a opts w = (Inl (Error (''Account not found: '' @ a)), w') \<and>
              db_accounts w' = db_accounts w \<and> db_sync_jobs w' = db_sync_jobs w"
proof -
  let ?w1 = "log_error ''sync-service'' ''Account sync failed'' (Error (''Account not found: '' @ a)) w"
  have g: "getAccountById ?w1 a = None" using assms by (simp add: getAccountById_def log_defs)
  have "db_accounts (updateAccountStatus a AuthFailed (Some (''Account not found: '' @ a)) ?w1) = db_accounts w"
    using updateAccountStatus_missing[OF g] by (simp add: log_defs)
  then show ?thesis
    by (simp add: syncWorker_handler_def syncAccount_missing[OF assms] sync_catch_def or_null_def
          updateAccountStatus_frame log_defs)
qed

lemma bull_run_always_fails:
  assumes "\<And>k w. P w \<Longrightarrow> \<exists>w'. h k w = (Inl e, w') \<and> P w' \<and> f w' = f w" and "P w"
  shows "\<exists>w'. bull_run (Suc n) k h w = ((Inl e, Suc (k + n)), w') \<and> f w' = f w"
  using assms(2)
proof (induction n arbitrary: k w)
  case 0
  from assms(1)[OF 0, of k] show ?case by auto
next
  case (Suc n)
  from assms(1)[OF Suc.prems, of k] obtain w1 where
    h: "h k w = (Inl e, w1)" and p: "P w1" and f: "f w1 = f w" by blast
  from Suc.IH[OF p, of "Suc k"] obtain w2 where
    r: "bull_run (Suc n) (Suc k) h w1 = ((Inl e, Suc (Suc k + n)), w2)" and f2: "f w2 = f w1" by blast
  have "bull_run (Suc (Suc n)) k h w = ((Inl e, Suc (k + Suc n)), w2)"
    using h r by simp
  with f f2 show ?case by auto
qed

lemma process_sync_job_not_active:
  assumes "getAccountById w a = None \<or> (\<exists>acct. getAccountById w a = Some acct \<and> acc_status acct \<noteq> Active)"
  shows "(\<exists>e. fst (process_sync_job envs a opts w) = (Inl e, attempts)) \<and>
         db_accounts (snd (process_sync_job envs a opts w)) = db_accounts w \<and>
         db_sync_jobs (snd (process_sync_job envs a opts w)) = db_sync_jobs w"
proof -
  have att: "attempts = Suc (Suc (Suc 0))" by (simp add: attempts_def)
  from assms show ?thesis
  proof
    assume n: "getAccountById w a = None"
    have "\<exists>w'. bull_run (Suc (Suc (Suc 0))) 0 (\<lambda>k. syncWorker_handler (envs k) a opts) w =
                 ((Inl (Error (''Account not found: '' @ a)), Suc (0 + Suc (Suc 0))), w') \<and>
               (db_accounts w', db_sync_jobs w') = (db_accounts w, db_sync_jobs w)"
    proof (rule bull_run_always_fails[where P = "\<lambda>w. getAccountById w a = None"])
      fix k w0 assume "getAccountById w0 a = None"
      from syncWorker_handler_missing[OF this, of "envs k" opts]
      show "\<exists>w'. syncWorker_handler (envs k) a opts w0 = (Inl (Error (''Account not found: '' @ a)), w') \<and>
                 getAccountById w' a = None \<and>
                 (db_accounts w', db_sync_jobs w') = (db_accounts w0, db_sync_jobs w0)"
        using \<open>getAccountById w0 a = None\<close> by (auto simp: getAccountById_def)
    qed (rule n)
    then show ?thesis by (auto simp: process_sync_job_def att)
  next
    assume "\<exists>acct. getAccountById w a = Some acct \<and> acc_status acct \<noteq> Active"
    then obtain acct where g: "getAccountById w a = Some acct" and s: "acc_status acct \<noteq> Active"
      by blast
    from bull_run_inactive[OF g s, of "Suc (Suc 0)" 0 envs opts]
    show ?thesis by (auto simp: process_sync_job_def att)
  qed
qed

text \<open>An attempt whose fetch returns succeeds, whatever happens to its messages in the
  store.\<close>

lemma sync_job_body_fetched:
  assumes "fetchMessages env \<lparr>sinceDate = Some since, maxMessages = mx\<rparr> w = (Inr ms, w1)"
  shows "sync_job_body env a i since mx w =
           (case store_loop env a ms 0 w1 of
              (k, w2) \<Rightarrow>
                (\<lparr>res_success = True, res_messagesSynced = k, res_error = None\<rparr>,
                 updateAccountStatus a Active None
                   (updateSyncCursor a (clock_done env) (clock_done env) (completeSyncJob i k w2))))"
  using assms by (simp add: sync_job_body_def)

text \<open>
  C5, as the code has it. For a sync job on an account that is \<^verbatim>\<open>active\<close> when the job
  starts: when its attempts are exhausted, all configured attempts were made and the account
  is \<^verbatim>\<open>auth_failed\<close> with the message of the first attempt's error in
  \<^verbatim>\<open>last_sync_error\<close>, whatever the cause (the outer \<^verbatim>\<open>catch\<close> of
  \<^verbatim>\<open>syncAccount\<close> does not look at the error); the first attempt leaves the job row it
  created, if any, \<^verbatim>\<open>failed\<close>, and the later attempts find the account not active and
  add no job; and after one attempt the account is \<^verbatim>\<open>active\<close> if the attempt succeeded
  and \<^verbatim>\<open>auth_failed\<close> if it did not. A job on an account that does not exist or is not
  \<^verbatim>\<open>active\<close> when the job starts fails all its attempts and leaves the rows of
  \<^verbatim>\<open>accounts\<close> and of \<^verbatim>\<open>sync_jobs\<close> as they are. An attempt that has created
  its job and whose fetch returns succeeds, whatever its messages meet in the store: a call of
  \<^verbatim>\<open>storeMessage\<close> that throws is logged, and the loop goes on with the next message
  and the same count.
\<close>

theorem sync_failure_marks_auth_failed:
  "(\<forall>acct. getAccountById w a = Some acct \<and> acc_status acct = Active \<longrightarrow>
      (\<forall>e n w'. process_sync_job envs a opts w = ((Inl e, n), w') \<longrightarrow>
         n = attempts \<and> account_status_of w' a = Some AuthFailed \<and>
         account_error_of w' a = Some (or_null (res_error (fst (syncAccount (envs 0) a opts w)))) \<and>
         (db_sync_jobs w' = db_sync_jobs w \<or>
          (\<exists>j. db_sync_jobs w' = db_sync_jobs w @ [j] \<and> job_account_id j = a \<and> job_status j = Failed))) \<and>
      account_status_of (snd (syncAccount env a opts w)) a =
        Some (if res_success (fst (syncAccount env a opts w)) then Active else AuthFailed)) \<and>
   (getAccountById w a = None \<or> (\<exists>acct. getAccountById w a = Some acct \<and> acc_status acct \<noteq> Active) \<longrightarrow>
      (\<exists>e. fst (process_sync_job envs a opts w) = (Inl e, attempts)) \<and>
      db_accounts (snd (process_sync_job envs a opts w)) = db_accounts w \<and>
      db_sync_jobs (snd (process_sync_job envs a opts w)) = db_sync_jobs w) \<and>
   (\<forall>ms w1. fetchMessages env \<lparr>sinceDate = Some since, maxMessages = mx\<rparr> w = (Inr ms, w1) \<longrightarrow>
      res_success (fst (sync_job_body env a i since mx w))) \<and>
   (\<forall>em ems e k w2. storeMessage env a em w = (Inl e, w2) \<longrightarrow>
      store_loop env a (em # ems) k w =
        store_loop env a ems k (log_error ''sync-service'' ''Failed to store message'' e w2))"
proof -
  have p1: "\<forall>acct. getAccountById w a = Some acct \<and> acc_status acct = Active \<longrightarrow>
      (\<forall>e n w'. process_sync_job envs a opts w = ((Inl e, n), w') \<longrightarrow>
         n = attempts \<and> account_status_of w' a = Some AuthFailed \<and>
         account_error_of w' a = Some (or_null (res_error (fst (syncAccount (envs 0) a opts w)))) \<and>
         (db_sync_jobs w' = db_sync_jobs w \<or>
          (\<exists>j. db_sync_jobs w' = db_sync_jobs w @ [j] \<and> job_account_id j = a \<and> job_status j = Failed))) \<and>
      account_status_of (snd (syncAccount env a opts w)) a =
        Some (if res_success (fst (syncAccount env a opts w)) then Active else AuthFailed)"
  proof (intro allI impI, elim conjE)
    fix acct assume g0: "getAccountById w a = Some acct" and act: "acc_status acct = Active"
    have x: "\<forall>e n w'. process_sync_job envs a opts w = ((Inl e, n), w') \<longrightarrow>
         n = attempts \<and> account_status_of w' a = Some AuthFailed \<and>
         account_error_of w' a = Some (or_null (res_error (fst (syncAccount (envs 0) a opts w)))) \<and>
         (db_sync_jobs w' = db_sync_jobs w \<or>
          (\<exists>j. db_sync_jobs w' = db_sync_jobs w @ [j] \<and> job_account_id j = a \<and> job_status j = Failed))"
    proof (intro allI impI)
      fix e n w' assume p: "process_sync_job envs a opts w = ((Inl e, n), w')"
      obtain r0 w0 where s: "syncAccount (envs 0) a opts w = (r0, w0)"
        by (cases "syncAccount (envs 0) a opts w")
      from process_sync_job_exhausted[OF g0 act p] s
      have n: "n = attempts" and f: "\<not> res_success r0" and
        acc: "db_accounts w' = db_accounts w0" and jobs: "db_sync_jobs w' = db_sync_jobs w0"
        by simp_all
      from acc have g: "getAccountById w' a = getAccountById w0 a" by (simp add: getAccountById_def)
      from syncAccount_active[OF g0 act s] f
      have a: "account_status_of w0 a = Some AuthFailed"
        and b: "account_error_of w0 a = Some (or_null (res_error r0))"
        and c: "db_sync_jobs w0 = db_sync_jobs w \<or>
              (\<exists>j. db_sync_jobs w0 = db_sync_jobs w @ [j] \<and> job_account_id j = a \<and> job_status j = Failed)"
        by auto
      from n a b c show "n = attempts \<and> account_status_of w' a = Some AuthFailed \<and>
         account_error_of w' a = Some (or_null (res_error (fst (syncAccount (envs 0) a opts w)))) \<and>
         (db_sync_jobs w' = db_sync_jobs w \<or>
          (\<exists>j. db_sync_jobs w' = db_sync_jobs w @ [j] \<and> job_account_id j = a \<and> job_status j = Failed))"
        by (simp add: account_status_of_def account_error_of_def g jobs s)
    qed
    obtain r1 w1 where s1: "syncAccount env a opts w = (r1, w1)" by (cases "syncAccount env a opts w")
    from syncAccount_active[OF g0 act s1]
    have y: "account_status_of (snd (syncAccount env a opts w)) a =
        Some (if res_success (fst (syncAccount env a opts w)) then Active else AuthFailed)"
      by (simp add: s1)
    from x y show "(\<forall>e n w'. process_sync_job envs a opts w = ((Inl e, n), w') \<longrightarrow>
         n = attempts \<and> account_status_of w' a = Some AuthFailed \<and>
         account_error_of w' a = Some (or_null (res_error (fst (syncAccount (envs 0) a opts w)))) \<and>
         (db_sync_jobs w' = db_sync_jobs w \<or>
          (\<exists>j. db_sync_jobs w' = db_sync_jobs w @ [j] \<and> job_account_id j = a \<and> job_status j = Failed))) \<and>
      account_status_of (snd (syncAccount env a opts w)) a =
        Some (if res_success (fst (syncAccount env a opts w)) then Active else AuthFailed)"
      by blast
  qed
  have p2: "getAccountById w a = None \<or> (\<exists>acct. getAccountById w a = Some acct \<and> acc_status acct \<noteq> Active) \<longrightarrow>
      (\<exists>e. fst (process_sync_job envs a opts w) = (Inl e, attempts)) \<and>
      db_accounts (snd (process_sync_job envs a opts w)) = db_accounts w \<and>
      db_sync_jobs (snd (process_sync_job envs a opts w)) = db_sync_jobs w"
    using process_sync_job_not_active[of w a envs opts] by blast
  have p3: "\<forall>ms w1. fetchMessages env \<lparr>sinceDate = Some since, maxMessages = mx\<rparr> w = (Inr ms, w1) \<longrightarrow>
      res_success (fst (sync_job_body env a i since mx w))"
    by (auto simp: sync_job_body_fetched split: prod.splits)
  have p4: "\<forall>em ems e k w2. storeMessage env a em w = (Inl e, w2) \<longrightarrow>
      store_loop env a (em # ems) k w =
        store_loop env a ems k (log_error ''sync-service'' ''Failed to store message'' e w2)"
    by simp
  from p1 p2 p3 p4 show ?thesis by (intro conjI)
qed

text \<open>
  Against C5 as stated: the provider's list request times out, which has nothing to do with
  credentials; after the three attempts the account is \<^verbatim>\<open>auth_failed\<close>, not
  \<^verbatim>\<open>active\<close>.
\<close>

theorem sync_failure_counterexample:
  "acc_status account1 = Active \<and>
   fst (process_sync_job (\<lambda>k. env_timeout) acct1_id no_options world0) =
     (Inl (Error ''Account not active''), 3) \<and>
   fst (syncAccount env_timeout acct1_id no_options world0) =
     \<lparr>res_success = False, res_messagesSynced = 0, res_error = Some ''ETIMEDOUT''\<rparr> \<and>
   map (\<lambda>x. (acc_id x, acc_status x, acc_last_sync_error x))
     (db_accounts (snd (process_sync_job (\<lambda>k. env_timeout) acct1_id no_options world0))) =
     [(acct1_id, AuthFailed, Some ''ETIMEDOUT'')] \<and>
   map job_status (db_sync_jobs (snd (process_sync_job (\<lambda>k. env_timeout) acct1_id no_options world0))) =
     [Failed]"
  by (simp add: sync_defs env_timeout_def no_options_def example_defs log_defs Let_def eval_nat_numeral)

theorem sync_failure_marks_auth_failed_witness:
  "getAccountById world0 acct1_id = Some account1 \<and> acc_status account1 = Active \<and>
   fst (process_sync_job (\<lambda>k. env_timeout) acct1_id no_options world0) =
     (Inl (Error ''Account not active''), attempts) \<and>
   account_status_of (snd (process_sync_job (\<lambda>k. env_timeout) acct1_id no_options world0)) acct1_id =
     Some AuthFailed \<and>
   account_error_of (snd (process_sync_job (\<lambda>k. env_timeout) acct1_id no_options world0)) acct1_id =
     Some (Some ''ETIMEDOUT'') \<and>
   res_success (fst (syncAccount env0 acct1_id no_options world0)) \<and>
   account_status_of (snd (syncAccount env0 acct1_id no_options world0)) acct1_id = Some Active \<and>
   account_status_of world_syncing acct1_id = Some Syncing \<and>
   (\<exists>e. fst (process_sync_job (\<lambda>k. env0) acct1_id no_options world_syncing) = (Inl e, attempts)) \<and>
   db_accounts (snd (process_sync_job (\<lambda>k. env0) acct1_id no_options world_syncing)) =
     db_accounts world_syncing \<and>
   getAccountById world0 msg1_id = None \<and>
   (\<exists>e. fst (process_sync_job (\<lambda>k. env0) msg1_id no_options world0) = (Inl e, attempts)) \<and>
   db_accounts (snd (process_sync_job (\<lambda>k. env0) msg1_id no_options world0)) = [account1] \<and>
   (\<exists>ms w1. fetchMessages env_b \<lparr>sinceDate = Some 1000, maxMessages = 100\<rparr> world_syncing = (Inr ms, w1)) \<and>
   res_success (fst (sync_job_body env_b acct1_id job1_id 1000 100 world_syncing))"
proof -
  let ?p = "process_sync_job (\<lambda>k. env_timeout) acct1_id no_options world0"
  let ?q = "\<lparr>sinceDate = Some 1000, maxMessages = 100\<rparr>"
  have h1: "getAccountById world0 acct1_id = Some account1"
    by (simp add: getAccountById_def world0_def account1_def)
  have h2: "acc_status account1 = Active" by (simp add: account1_def)
  have h3: "fst ?p = (Inl (Error ''Account not active''), attempts)"
    by (simp add: sync_defs env_timeout_def no_options_def example_defs log_defs Let_def eval_nat_numeral)
  then have h3': "?p = ((Inl (Error ''Account not active''), attempts), snd ?p)"
    by (metis prod.collapse)
  have e: "res_error (fst (syncAccount env_timeout acct1_id no_options world0)) = Some ''ETIMEDOUT''"
    by (simp add: sync_defs env_timeout_def no_options_def example_defs log_defs Let_def)
  have s: "res_success (fst (syncAccount env0 acct1_id no_options world0))"
    by (simp add: sync_defs no_options_def example_defs log_defs Let_def)
  note t = sync_failure_marks_auth_failed[of world0 acct1_id "\<lambda>k. env_timeout" no_options env0]
  from t h1 h2 h3' e
  have a: "account_status_of (snd ?p) acct1_id = Some AuthFailed \<and>
        account_error_of (snd ?p) acct1_id = Some (Some ''ETIMEDOUT'')"
    by (simp add: or_null_def)
  from t h1 h2 s
  have b: "account_status_of (snd (syncAccount env0 acct1_id no_options world0)) acct1_id = Some Active"
    by simp
  have st: "account_status_of world_syncing acct1_id = Some Syncing"
    by (simp add: world_syncing_def account_status_of_def sync_defs no_options_def example_defs
          log_defs Let_def eval_nat_numeral)
  then have na: "\<exists>acct. getAccountById world_syncing acct1_id = Some acct \<and> acc_status acct \<noteq> Active"
    by (auto simp: account_status_of_def)
  from sync_failure_marks_auth_failed[of world_syncing acct1_id "\<lambda>k. env0" no_options] na
  have c: "(\<exists>e. fst (process_sync_job (\<lambda>k. env0) acct1_id no_options world_syncing) = (Inl e, attempts)) \<and>
      db_accounts (snd (process_sync_job (\<lambda>k. env0) acct1_id no_options world_syncing)) =
        db_accounts world_syncing"
    by blast
  have m: "getAccountById world0 msg1_id = None"
    by (simp add: getAccountById_def world0_def account1_def id_defs)
  from sync_failure_marks_auth_failed[of world0 msg1_id "\<lambda>k. env0" no_options] m
  have d: "(\<exists>e. fst (process_sync_job (\<lambda>k. env0) msg1_id no_options world0) = (Inl e, attempts)) \<and>
      db_accounts (snd (process_sync_job (\<lambda>k. env0) msg1_id no_options world0)) = db_accounts world0"
    by blast
  then have d': "db_accounts (snd (process_sync_job (\<lambda>k. env0) msg1_id no_options world0)) = [account1]"
    by (simp add: world0_def)
  have f: "\<exists>ms w1. fetchMessages env_b ?q world_syncing = (Inr ms, w1)"
    by (simp add: fetchMessages_def env_b_def Let_def split: prod.splits)
  from sync_failure_marks_auth_failed[where w = world_syncing and env = env_b and since = 1000
      and mx = 100 and a = acct1_id and i = job1_id] f
  have g: "res_success (fst (sync_job_body env_b acct1_id job1_id 1000 100 world_syncing))"
    by blast
  from h1 h2 h3 a s b st c m d d' f g show ?thesis by (intro conjI) (simp_all only:)
qed

subsection \<open>One running job for each account\<close>

lemmas step_defs = sync_defs worker1_def no_options_def example_defs log_defs Let_def running_jobs_def

text \<open>
  Against C2 as stated: two calls of \<^verbatim>\<open>syncAccount\<close> for the same account take their
  steps in turn. Both read the status \<^verbatim>\<open>active\<close> before either writes
  \<^verbatim>\<open>syncing\<close>, both create their job, and when both are about to fetch the account has
  two jobs in the state \<^verbatim>\<open>running\<close>.
\<close>

theorem two_running_jobs_counterexample:
  "map wk_pc (fst (run_schedule [0, 1, 0, 1, 0, 1, 0, 1, 0, 1] [worker1, worker1] world0)) =
     [PFetch account1 job1_id, PFetch account1 job2_id] \<and>
   map (\<lambda>j. (job_id j, job_account_id j, job_status j))
     (running_jobs acct1_id (snd (run_schedule [0, 1, 0, 1, 0, 1, 0, 1, 0, 1] [worker1, worker1] world0))) =
     [(job1_id, acct1_id, Running), (job2_id, acct1_id, Running)]"
  by (simp add: step_defs)

lemma running_jobs_append:
  "running_jobs b (w\<lparr>db_sync_jobs := js\<rparr>) = filter (\<lambda>j. job_account_id j = b \<and> job_status j = Running) js"
  by (simp add: running_jobs_def)

text \<open>
  C2, as the code has it. No lock is taken. A call of \<^verbatim>\<open>syncAccount\<close> that runs from
  start to end leaves every account with the running jobs it had before: the job the call
  creates is \<^verbatim>\<open>completed\<close> or \<^verbatim>\<open>failed\<close> when the call returns. A call that finds
  the account in a status other than \<^verbatim>\<open>active\<close>, such as \<^verbatim>\<open>syncing\<close>, fails and
  writes neither a job nor an account. So calls that do not overlap never run two jobs of an
  account at once.
\<close>

theorem syncAccount_running_jobs:
  "running_jobs b (snd (syncAccount env a opts w)) = running_jobs b w \<and>
   (\<forall>acct. getAccountById w a = Some acct \<and> acc_status acct \<noteq> Active \<longrightarrow>
      \<not> res_success (fst (syncAccount env a opts w)) \<and>
      db_sync_jobs (snd (syncAccount env a opts w)) = db_sync_jobs w \<and>
      db_accounts (snd (syncAccount env a opts w)) = db_accounts w)"
proof -
  obtain r w' where s: "syncAccount env a opts w = (r, w')" by (cases "syncAccount env a opts w")
  from syncAccount_jobs[OF s] have "running_jobs b w' = running_jobs b w"
    by (auto simp: running_jobs_def)
  moreover have "\<forall>acct. getAccountById w a = Some acct \<and> acc_status acct \<noteq> Active \<longrightarrow>
      \<not> res_success r \<and> db_sync_jobs w' = db_sync_jobs w \<and> db_accounts w' = db_accounts w"
    using s by (auto simp: syncAccount_inactive log_defs)
  ultimately show ?thesis by (simp add: s)
qed


text \<open>The machine run alone ends in the result and the world of \<^verbatim>\<open>syncAccount\<close>.\<close>

lemma steps_add:
  "steps (m + n) env a opts p w = (case steps m env a opts p w of (p1, w1) \<Rightarrow> steps n env a opts p1 w1)"
  by (induction m arbitrary: p w) (auto split: prod.splits)

lemma steps_done: "steps n env a opts (PDone r) w = (PDone r, w)"
  by (induction n) auto

lemma store_loop_cons:
  "store_loop env a (em # ems) n w =
     (case store_loop env a [em] n w of (n1, w1) \<Rightarrow> store_loop env a ems n1 w1)"
  by (simp split: prod.splits sum.splits)

lemma steps_store:
  "steps (length ems) env a opts (PStore j ems n) w =
     (PStore j [] (fst (store_loop env a ems n w)), snd (store_loop env a ems n w))"
proof (induction ems arbitrary: n w)
  case Nil
  then show ?case by simp
next
  case (Cons em ems)
  obtain n1 w1 where o: "store_loop env a [em] n w = (n1, w1)" by (cases "store_loop env a [em] n w")
  have "steps (length (em # ems)) env a opts (PStore j (em # ems) n) w =
        steps (length ems) env a opts (PStore j ems n1) w1"
    using o by simp
  also have "\<dots> = (PStore j [] (fst (store_loop env a ems n1 w1)), snd (store_loop env a ems n1 w1))"
    by (rule Cons.IH)
  also have "store_loop env a ems n1 w1 = store_loop env a (em # ems) n w"
    unfolding store_loop_cons[of env a em ems n w] o by simp
  finally show ?case .
qed

lemma steps_catch: "steps (Suc 0) env a opts (PCatch e) w = (PDone (fst (sync_catch a 0 e w)), snd (sync_catch a 0 e w))"
  by (simp split: prod.splits)

lemma steps_job_body:
  "\<exists>n. steps n env a opts (PFetch acct j) w =
         (PDone (fst (sync_job_body env a j (sync_since env opts acct) (sync_max opts) w)),
          snd (sync_job_body env a j (sync_since env opts acct) (sync_max opts) w))"
proof -
  let ?q = "\<lparr>sinceDate = Some (sync_since env opts acct), maxMessages = sync_max opts\<rparr>"
  obtain fr w1 where f: "fetchMessages env ?q w = (fr, w1)" by (cases "fetchMessages env ?q w")
  show ?thesis
  proof (cases fr)
    case (Inl e)
    have "steps (Suc (Suc (Suc 0))) env a opts (PFetch acct j) w =
            (PDone (fst (sync_job_body env a j (sync_since env opts acct) (sync_max opts) w)),
             snd (sync_job_body env a j (sync_since env opts acct) (sync_max opts) w))"
      using f Inl by (simp add: sync_job_body_def split: prod.splits)
    then show ?thesis by blast
  next
    case (Inr ms)
    obtain k w2 where l: "store_loop env a ms 0 w1 = (k, w2)" by (cases "store_loop env a ms 0 w1")
    have a1: "steps (Suc 0) env a opts (PFetch acct j) w = (PStore j ms 0, w1)"
      using f Inr by simp
    have a2: "steps (length ms) env a opts (PStore j ms 0) w1 = (PStore j [] k, w2)"
      using steps_store[of ms env a opts j 0 w1] l by simp
    have a3: "steps (Suc (Suc (Suc 0))) env a opts (PStore j [] k) w2 =
            (PDone (fst (sync_job_body env a j (sync_since env opts acct) (sync_max opts) w)),
             snd (sync_job_body env a j (sync_since env opts acct) (sync_max opts) w))"
      using f Inr l by (simp add: sync_job_body_def)
    have "steps (Suc 0 + (length ms + Suc (Suc (Suc 0)))) env a opts (PFetch acct j) w =
            (PDone (fst (sync_job_body env a j (sync_since env opts acct) (sync_max opts) w)),
             snd (sync_job_body env a j (sync_since env opts acct) (sync_max opts) w))"
      unfolding steps_add[of "Suc 0"] a1 by (simp only: prod.case steps_add[of "length ms"] a2 a3)
    then show ?thesis by blast
  qed
qed

lemma steps_syncAccount:
  "\<exists>n. steps n env a opts PStart w = (PDone (fst (syncAccount env a opts w)), snd (syncAccount env a opts w))"
proof (cases "getAccountById w a")
  case None
  then have "steps (Suc (Suc 0)) env a opts PStart w =
      (PDone (fst (syncAccount env a opts w)), snd (syncAccount env a opts w))"
    by (simp add: syncAccount_def split: prod.splits)
  then show ?thesis by blast
next
  case (Some acct)
  show ?thesis
  proof (cases "acc_status acct = Active")
    case False
    with Some have "steps (Suc 0) env a opts PStart w =
      (PDone (fst (syncAccount env a opts w)), snd (syncAccount env a opts w))"
      by (simp add: syncAccount_def)
    then show ?thesis by blast
  next
    case True
    let ?w1 = "updateAccountStatus a Syncing None w"
    have s2: "steps (Suc (Suc 0)) env a opts PStart w = (PGetCredentials acct, ?w1)"
      using Some True by simp
    obtain cr w2 where c: "getAccountCredentials a ?w1 = (cr, w2)"
      by (cases "getAccountCredentials a ?w1")
    have "\<exists>n. steps n env a opts (PGetCredentials acct) ?w1 =
      (PDone (fst (syncAccount env a opts w)), snd (syncAccount env a opts w))"
    proof (cases cr)
      case None
      with c Some True have "steps (Suc (Suc 0)) env a opts (PGetCredentials acct) ?w1 =
        (PDone (fst (syncAccount env a opts w)), snd (syncAccount env a opts w))"
        by (simp add: syncAccount_def split: prod.splits)
      then show ?thesis by blast
    next
      case cs: (Some cred)
      show ?thesis
      proof (cases "createAdapter acct cred")
        case (Inl e)
        with c cs Some True have "steps (Suc (Suc 0)) env a opts (PGetCredentials acct) ?w1 =
          (PDone (fst (syncAccount env a opts w)), snd (syncAccount env a opts w))"
          by (simp add: syncAccount_def split: prod.splits)
        then show ?thesis by blast
      next
        case (Inr ad)
        obtain ok w3 where t: "testConnection env w2 = (ok, w3)" by (cases "testConnection env w2")
        show ?thesis
        proof (cases ok)
          case False
          with c cs Some True Inr t have "steps (Suc (Suc (Suc 0))) env a opts (PGetCredentials acct) ?w1 =
            (PDone (fst (syncAccount env a opts w)), snd (syncAccount env a opts w))"
            by (simp add: syncAccount_def split: prod.splits)
          then show ?thesis by blast
        next
          case ok: True
          obtain jr w4 where cj: "createSyncJob env a w3 = (jr, w4)" by (cases "createSyncJob env a w3")
          show ?thesis
          proof (cases jr)
            case (Inl e)
            with c cs Some True Inr t ok cj
            have "steps (Suc (Suc (Suc (Suc 0)))) env a opts (PGetCredentials acct) ?w1 =
              (PDone (fst (syncAccount env a opts w)), snd (syncAccount env a opts w))"
              by (simp add: syncAccount_def split: prod.splits)
            then show ?thesis by blast
          next
            case jb: (Inr j)
            have p: "steps (Suc (Suc (Suc 0))) env a opts (PGetCredentials acct) ?w1 = (PFetch acct j, w4)"
              using c cs Inr t ok cj jb by simp
            have e: "syncAccount env a opts w =
                       sync_job_body env a j (sync_since env opts acct) (sync_max opts) w4"
              using c cs Some True Inr t ok cj jb by (simp add: syncAccount_def)
            from steps_job_body[of env a opts acct j w4] obtain n where
              n: "steps n env a opts (PFetch acct j) w4 =
                    (PDone (fst (syncAccount env a opts w)), snd (syncAccount env a opts w))"
              unfolding e by blast
            have "steps (Suc (Suc (Suc 0)) + n) env a opts (PGetCredentials acct) ?w1 =
                    (PDone (fst (syncAccount env a opts w)), snd (syncAccount env a opts w))"
              unfolding steps_add p using n by simp
            then show ?thesis by blast
          qed
        qed
      qed
    qed
    then obtain n where n: "steps n env a opts (PGetCredentials acct) ?w1 =
      (PDone (fst (syncAccount env a opts w)), snd (syncAccount env a opts w))" by blast
    have "steps (Suc (Suc 0) + n) env a opts PStart w =
      (PDone (fst (syncAccount env a opts w)), snd (syncAccount env a opts w))"
      unfolding steps_add s2 using n by simp
    then show ?thesis by blast
  qed
qed


theorem syncAccount_running_jobs_witness:
  "account_status_of world_syncing acct1_id = Some Syncing \<and>
   map job_status (running_jobs acct1_id world_syncing) = [Running] \<and>
   (\<exists>acct. getAccountById world_syncing acct1_id = Some acct \<and> acc_status acct \<noteq> Active) \<and>
   \<not> res_success (fst (syncAccount env0 acct1_id no_options world_syncing)) \<and>
   db_sync_jobs (snd (syncAccount env0 acct1_id no_options world_syncing)) = db_sync_jobs world_syncing \<and>
   running_jobs acct1_id (snd (syncAccount env0 acct1_id no_options world_syncing)) =
     running_jobs acct1_id world_syncing \<and>
   res_success (fst (syncAccount env0 acct1_id no_options world0)) \<and>
   running_jobs acct1_id (snd (syncAccount env0 acct1_id no_options world0)) = []"
proof -
  have st: "account_status_of world_syncing acct1_id = Some Syncing"
    by (simp add: world_syncing_def account_status_of_def step_defs eval_nat_numeral)
  have rj: "map job_status (running_jobs acct1_id world_syncing) = [Running]"
    by (simp add: world_syncing_def step_defs eval_nat_numeral)
  from st obtain acct where g: "getAccountById world_syncing acct1_id = Some acct"
    and na: "acc_status acct \<noteq> Active"
    by (auto simp: account_status_of_def)
  have s0: "res_success (fst (syncAccount env0 acct1_id no_options world0))"
    by (simp add: step_defs)
  have r0: "running_jobs acct1_id world0 = []" by (simp add: running_jobs_def example_defs)
  from syncAccount_running_jobs[of acct1_id env0 acct1_id no_options world_syncing] g na
  have a: "\<not> res_success (fst (syncAccount env0 acct1_id no_options world_syncing)) \<and>
        db_sync_jobs (snd (syncAccount env0 acct1_id no_options world_syncing)) = db_sync_jobs world_syncing \<and>
        running_jobs acct1_id (snd (syncAccount env0 acct1_id no_options world_syncing)) =
          running_jobs acct1_id world_syncing"
    by blast
  from syncAccount_running_jobs[of acct1_id env0 acct1_id no_options world0] r0
  have b: "running_jobs acct1_id (snd (syncAccount env0 acct1_id no_options world0)) = []" by simp
  from st rj g na a s0 b show ?thesis by blast
qed

subsection \<open>Malformed records\<close>

lemma well_formed_length: "length (well_formed recs) \<le> length recs"
  by (induction recs rule: well_formed.induct) auto

lemma fetchFullMessage_cases:
  "fetchFullMessage rec w = (r, w1) \<Longrightarrow>
     (\<exists>em. snd rec = Raw em \<and> r = Some em \<and> w1 = w \<and> well_formed (rec # recs) = em # well_formed recs) \<or>
     (r = None \<and> length (error_log w1) = Suc (length (error_log w)) \<and>
      well_formed (rec # recs) = well_formed recs)"
  by (cases rec; cases "snd rec") (auto simp: fetchFullMessage_def log_defs)

lemma fetch_each_spec:
  "fetch_each recs w = (rs, w') \<Longrightarrow>
     non_null rs = well_formed recs \<and>
     length (error_log w') = length (error_log w) + (length recs - length (well_formed recs))"
proof (induction recs arbitrary: w rs w')
  case Nil
  then show ?case by simp
next
  case (Cons rec recs)
  obtain r w1 where f: "fetchFullMessage rec w = (r, w1)" by (cases "fetchFullMessage rec w")
  obtain rs1 w2 where e: "fetch_each recs w1 = (rs1, w2)" by (cases "fetch_each recs w1")
  from Cons.prems f e have rs: "rs = r # rs1" and w': "w' = w2" by simp_all
  note ih = Cons.IH[OF e]
  from fetchFullMessage_cases[OF f, of recs] ih well_formed_length[of recs] show ?case
    unfolding rs w' by auto
qed

lemma fetchMessages_listed:
  assumes "gmail_list env q = Inr recs" and "maxMessages q \<noteq> 0"
  shows "fst (fetchMessages env q w) = Inr (well_formed recs)"
    and "length (error_log (snd (fetchMessages env q w))) =
           length (error_log w) + (length recs - length (well_formed recs))"
proof -
  have q: "q\<lparr>maxMessages := (if maxMessages q = 0 then 100 else maxMessages q)\<rparr> = q"
    using assms(2) by simp
  let ?w1 = "w\<lparr>fetch_log := fetch_log w @ [q]\<rparr>"
  have e: "fetchMessages env q w = (Inr (non_null (fst (fetch_each recs ?w1))), snd (fetch_each recs ?w1))"
    using assms(1) by (simp add: fetchMessages_def Let_def q split: prod.splits)
  have sp: "non_null (fst (fetch_each recs ?w1)) = well_formed recs \<and>
     length (error_log (snd (fetch_each recs ?w1))) =
       length (error_log ?w1) + (length recs - length (well_formed recs))"
    by (rule fetch_each_spec) simp
  show "fst (fetchMessages env q w) = Inr (well_formed recs)"
    unfolding e using sp by simp
  show "length (error_log (snd (fetchMessages env q w))) =
           length (error_log w) + (length recs - length (well_formed recs))"
    unfolding e using sp by simp
qed


text \<open>
  C6, as the code has it. When the provider lists records of which some are malformed,
  \<^verbatim>\<open>fetchMessages\<close> returns the well-formed ones in the order listed and logs one entry
  for each of the others. The sync job that fetches them hands exactly the well-formed
  messages, in that order, to the loop that stores them, and whatever that loop meets the
  attempt succeeds and the job is \<^verbatim>\<open>completed\<close>, with the count that the loop
  returns. The array returned holds messages only.
\<close>

theorem fetch_skips_malformed_records:
  assumes "gmail_list env \<lparr>sinceDate = Some since, maxMessages = mx\<rparr> = Inr recs" and "mx \<noteq> 0"
      and "db_sync_jobs w = js @ [j]" and "job_id j = i" and "i \<notin> set (map job_id js)"
  shows "fst (fetchMessages env \<lparr>sinceDate = Some since, maxMessages = mx\<rparr> w) = Inr (well_formed recs) \<and>
         length (error_log (snd (fetchMessages env \<lparr>sinceDate = Some since, maxMessages = mx\<rparr> w))) =
           length (error_log w) + (length recs - length (well_formed recs)) \<and>
         sync_job_body env a i since mx w =
           (case store_loop env a (well_formed recs) 0
                   (snd (fetchMessages env \<lparr>sinceDate = Some since, maxMessages = mx\<rparr> w)) of
              (k, w2) \<Rightarrow>
                (\<lparr>res_success = True, res_messagesSynced = k, res_error = None\<rparr>,
                 updateAccountStatus a Active None
                   (updateSyncCursor a (clock_done env) (clock_done env) (completeSyncJob i k w2)))) \<and>
         res_success (fst (sync_job_body env a i since mx w)) \<and>
         (\<exists>j'. db_sync_jobs (snd (sync_job_body env a i since mx w)) = js @ [j'] \<and>
               job_status j' = Completed \<and>
               job_messages_synced j' =
                 fst (store_loop env a (well_formed recs) 0
                        (snd (fetchMessages env \<lparr>sinceDate = Some since, maxMessages = mx\<rparr> w))))"
proof -
  let ?q = "\<lparr>sinceDate = Some since, maxMessages = mx\<rparr>"
  have mq: "maxMessages ?q \<noteq> 0" using assms(2) by simp
  note fl = fetchMessages_listed[OF assms(1) mq, of w]
  obtain w1 where f: "fetchMessages env ?q w = (Inr (well_formed recs), w1)"
    using fl(1) by (cases "fetchMessages env ?q w") simp
  note ff = fetchMessages_frame[OF f]
  obtain k w2 where l: "store_loop env a (well_formed recs) 0 w1 = (k, w2)"
    by (cases "store_loop env a (well_formed recs) 0 w1")
  note lf = store_loop_frame[OF l]
  have b: "sync_job_body env a i since mx w =
             (\<lparr>res_success = True, res_messagesSynced = k, res_error = None\<rparr>,
              updateAccountStatus a Active None
                (updateSyncCursor a (clock_done env) (clock_done env) (completeSyncJob i k w2)))"
    using f l by (simp add: sync_job_body_def)
  have j3: "db_sync_jobs (completeSyncJob i k w2) =
              js @ [j\<lparr>job_status := Completed, job_messages_synced := k\<rparr>]"
    using lf ff assms(3,4) map_job_update_append[OF assms(5,4)] by (simp add: completeSyncJob_def)
  have js: "db_sync_jobs (snd (sync_job_body env a i since mx w)) =
              js @ [j\<lparr>job_status := Completed, job_messages_synced := k\<rparr>]"
    unfolding b using j3 by (simp add: updateAccountStatus_def updateSyncCursor_def)
  show ?thesis
    using fl unfolding js by (simp add: b f l)
qed

text \<open>
  Against C6 as stated (the result includes an error list that identifies the failed record):
  the result for five records of which the third has no raw content is the array of the four
  messages, and it is the same array when another record, in another place, fails in another
  way.
\<close>

theorem fetch_error_list_counterexample:
  "fst (fetchMessages env_b \<lparr>sinceDate = Some 1000, maxMessages = 100\<rparr> world0) =
     Inr [mail ''M1'' ''One'' None 1, mail ''M2'' ''Two'' None 2, mail ''M4'' ''Four'' None 4,
          mail ''M5'' ''Five'' None 5] \<and>
   fst (fetchMessages env_b' \<lparr>sinceDate = Some 1000, maxMessages = 100\<rparr> world0) =
     fst (fetchMessages env_b \<lparr>sinceDate = Some 1000, maxMessages = 100\<rparr> world0)"
  by (simp add: fetchMessages_def fetchFullMessage_def env_b_def env_b'_def records_b_def
        records_b'_def env0_def Let_def)

theorem fetch_skips_malformed_records_witness:
  "gmail_list env_b \<lparr>sinceDate = Some 1000, maxMessages = 100\<rparr> = Inr records_b \<and>
   map job_id (db_sync_jobs world_syncing) = [job1_id] \<and>
   fst (fetchMessages env_b \<lparr>sinceDate = Some 1000, maxMessages = 100\<rparr> world_syncing) =
     Inr [mail ''M1'' ''One'' None 1, mail ''M2'' ''Two'' None 2, mail ''M4'' ''Four'' None 4,
          mail ''M5'' ''Five'' None 5] \<and>
   length (error_log (snd (fetchMessages env_b \<lparr>sinceDate = Some 1000, maxMessages = 100\<rparr> world_syncing))) =
     length (error_log world_syncing) + 1 \<and>
   res_success (fst (sync_job_body env_b acct1_id job1_id 1000 100 world_syncing)) \<and>
   map job_status (db_sync_jobs (snd (sync_job_body env_b acct1_id job1_id 1000 100 world_syncing))) =
     [Completed] \<and>
   map (\<lambda>j. (job_status j, job_messages_synced j))
     (db_sync_jobs (snd (syncAccount env_b acct1_id no_options world0))) = [(Completed, 0)] \<and>
   db_messages (snd (syncAccount env_b acct1_id no_options world0)) = [] \<and>
   map fst (error_log (snd (syncAccount env_b acct1_id no_options world0))) =
     [''gmail-adapter'',
      ''database'', ''message-service'', ''message-service'', ''sync-service'',
      ''database'', ''message-service'', ''message-service'', ''sync-service'',
      ''database'', ''message-service'', ''message-service'', ''sync-service'',
      ''database'', ''message-service'', ''message-service'', ''sync-service'']"
proof -
  let ?q = "\<lparr>sinceDate = Some 1000, maxMessages = 100\<rparr>"
  have h1: "gmail_list env_b ?q = Inr records_b" by (simp add: env_b_def)
  have h2: "(100::nat) \<noteq> 0" by simp
  obtain j where h3: "db_sync_jobs world_syncing = [] @ [j]" and h4: "job_id j = job1_id"
    by (simp add: world_syncing_def step_defs eval_nat_numeral)
  have h5: "job1_id \<notin> set (map job_id [])" by simp
  have wf: "well_formed records_b = [mail ''M1'' ''One'' None 1, mail ''M2'' ''Two'' None 2,
      mail ''M4'' ''Four'' None 4, mail ''M5'' ''Five'' None 5]"
    by (simp add: records_b_def)
  have ln: "length records_b = 5" by (simp add: records_b_def)
  note t = fetch_skips_malformed_records[OF h1 h2 h3 h4 h5, of acct1_id]
  from t[THEN conjunct1] wf
  have a1: "fst (fetchMessages env_b ?q world_syncing) =
     Inr [mail ''M1'' ''One'' None 1, mail ''M2'' ''Two'' None 2, mail ''M4'' ''Four'' None 4,
          mail ''M5'' ''Five'' None 5]"
    by simp
  from t[THEN conjunct2, THEN conjunct1] wf ln
  have a2: "length (error_log (snd (fetchMessages env_b ?q world_syncing))) =
      length (error_log world_syncing) + 1"
    by simp
  from t[THEN conjunct2, THEN conjunct2, THEN conjunct2, THEN conjunct1]
  have a3: "res_success (fst (sync_job_body env_b acct1_id job1_id 1000 100 world_syncing))" .
  from t[THEN conjunct2, THEN conjunct2, THEN conjunct2, THEN conjunct2]
  have c: "map job_status (db_sync_jobs (snd (sync_job_body env_b acct1_id job1_id 1000 100 world_syncing))) =
     [Completed]"
    by auto
  note a = a1 a2 a3
  have ids: "map job_id (db_sync_jobs world_syncing) = [job1_id]" using h3 h4 by simp
  have jb: "map (\<lambda>j. (job_status j, job_messages_synced j))
     (db_sync_jobs (snd (syncAccount env_b acct1_id no_options world0))) = [(Completed, 0)]"
    by (simp add: step_defs store_defs env_b_def records_b_def string_defs nanoid_not_uuid)
  have m: "db_messages (snd (syncAccount env_b acct1_id no_options world0)) = []"
    by (simp add: step_defs store_defs env_b_def records_b_def string_defs nanoid_not_uuid)
  have lg: "map fst (error_log (snd (syncAccount env_b acct1_id no_options world0))) =
     [''gmail-adapter'',
      ''database'', ''message-service'', ''message-service'', ''sync-service'',
      ''database'', ''message-service'', ''message-service'', ''sync-service'',
      ''database'', ''message-service'', ''message-service'', ''sync-service'',
      ''database'', ''message-service'', ''message-service'', ''sync-service'']"
    by (simp add: step_defs store_defs env_b_def records_b_def string_defs nanoid_not_uuid)
  from h1 ids a c jb m lg show ?thesis by (intro conjI) (simp_all only:)
qed

subsection \<open>Indexing\<close>

lemma indexWorker_handler_storage:
  "storage_state (snd (indexWorker_handler env i w)) = storage_state w"
  by (auto simp: indexWorker_handler_def indexWorker_body_def storage_getMessage_def
        searchService_indexMessage_def storage_state_def log_defs
        split: option.splits prod.splits sum.splits if_splits)

lemma bull_run_preserves:
  assumes "\<And>k w. f (snd (h k w)) = f w"
  shows "f (snd (bull_run n k h w)) = f w"
proof (induction n arbitrary: k w)
  case 0
  then show ?case by simp
next
  case (Suc n)
  obtain r w1 where o: "h k w = (r, w1)" by (cases "h k w")
  from assms[of k w] o have f1: "f w1 = f w" by simp
  show ?case
  proof (cases r)
    case (Inl e)
    with o f1 Suc.IH[of "Suc k" w1] show ?thesis by simp
  next
    case (Inr x)
    with o f1 show ?thesis by simp
  qed
qed

lemma process_index_job_storage:
  "storage_state (snd (process_index_job envs i w)) = storage_state w"
  unfolding process_index_job_def
  by (rule bull_run_preserves) (rule indexWorker_handler_storage)

lemma nanoid_es: "nanoid (env\<lparr>es_available := b\<rparr>) n = nanoid env n"
  by (simp add: nanoid_def)

lemma store_attachments_es:
  "store_attachments (env\<lparr>es_available := b\<rparr>) a mid mu atts w = store_attachments env a mid mu atts w"
  by (induction atts arbitrary: w)
     (simp_all add: storage_storeAttachment_def nanoid_es Let_def
        cong: prod.case_cong sum.case_cong if_cong)

lemma storeMessage_es: "storeMessage (env\<lparr>es_available := b\<rparr>) a em w = storeMessage env a em w"
  by (simp add: storeMessage_def storeMessage_body_def storage_storeMessage_def store_attachments_es
        findOrCreateThread_def create_thread_def nanoid_es Let_def
        cong: prod.case_cong sum.case_cong option.case_cong if_cong)

lemma store_loop_es: "store_loop (env\<lparr>es_available := b\<rparr>) a ems n w = store_loop env a ems n w"
  by (induction ems arbitrary: n w)
     (simp_all add: storeMessage_es addIndexJob_def cong: prod.case_cong sum.case_cong if_cong)

lemma syncAccount_es: "syncAccount (env\<lparr>es_available := b\<rparr>) a opts w = syncAccount env a opts w"
  by (simp add: syncAccount_def sync_job_body_def fetchMessages_def testConnection_def createSyncJob_def
      store_loop_es sync_since_def getLastSyncDate_def setDate_back_def UTC_def LocalTime_def Let_def
      cong: prod.case_cong sum.case_cong option.case_cong if_cong bool.case_cong)

lemma indexWorker_handler_unreachable:
  assumes "getMessageById w i = Some m" and "map_of (s3_objects w) (msg_s3_key m) = Some raw"
      and "s3_available env (msg_s3_key m)" and "\<not> es_available env"
  shows "\<exists>w'. indexWorker_handler env i w = (Inl (SearchError ''index request failed''), w') \<and>
              db_messages w' = db_messages w \<and> s3_objects w' = s3_objects w \<and>
              search_index w' = search_index w"
  using assms
  by (simp add: indexWorker_handler_def indexWorker_body_def storage_getMessage_def
        searchService_indexMessage_def log_defs)

lemma indexWorker_handler_reachable:
  assumes "getMessageById w i = Some m" and "map_of (s3_objects w) (msg_s3_key m) = Some raw"
      and "s3_available env (msg_s3_key m)" and "es_available env"
  shows "\<exists>w'. indexWorker_handler env i w = (Inr (), w') \<and>
              map fst (search_index w') = msg_id m # filter (\<lambda>k. k \<noteq> msg_id m) (map fst (search_index w))"
  using assms
  by (simp add: indexWorker_handler_def indexWorker_body_def storage_getMessage_def
        searchService_indexMessage_def log_defs filter_map o_def)


lemma getMessageById_cong: "db_messages w' = db_messages w \<Longrightarrow> getMessageById w' i = getMessageById w i"
  by (simp add: getMessageById_def)

lemma process_index_job_unreachable:
  assumes "getMessageById w i = Some m" and "map_of (s3_objects w) (msg_s3_key m) = Some raw"
      and "\<forall>k<attempts. s3_available (envs k) (msg_s3_key m) \<and> \<not> es_available (envs k)"
  shows "fst (process_index_job envs i w) = (Inl (SearchError ''index request failed''), attempts)"
proof -
  have att: "attempts = Suc (Suc (Suc 0))" by (simp add: attempts_def)
  from assms(3) have e0: "s3_available (envs 0) (msg_s3_key m)" "\<not> es_available (envs 0)"
    and e1: "s3_available (envs (Suc 0)) (msg_s3_key m)" "\<not> es_available (envs (Suc 0))"
    and e2: "s3_available (envs (Suc (Suc 0))) (msg_s3_key m)" "\<not> es_available (envs (Suc (Suc 0)))"
    by (simp_all add: att)
  from indexWorker_handler_unreachable[OF assms(1,2) e0] obtain w1 where
    h1: "indexWorker_handler (envs 0) i w = (Inl (SearchError ''index request failed''), w1)" and
    f1: "db_messages w1 = db_messages w" "s3_objects w1 = s3_objects w" by blast
  have g1: "getMessageById w1 i = Some m" and o1: "map_of (s3_objects w1) (msg_s3_key m) = Some raw"
    using f1 assms(1,2) by (simp_all add: getMessageById_def)
  from indexWorker_handler_unreachable[OF g1 o1 e1] obtain w2 where
    h2: "indexWorker_handler (envs (Suc 0)) i w1 = (Inl (SearchError ''index request failed''), w2)" and
    f2: "db_messages w2 = db_messages w1" "s3_objects w2 = s3_objects w1" by blast
  have g2: "getMessageById w2 i = Some m" and o2: "map_of (s3_objects w2) (msg_s3_key m) = Some raw"
    using f2 g1 o1 by (simp_all add: getMessageById_def)
  from indexWorker_handler_unreachable[OF g2 o2 e2] obtain w3 where
    h3: "indexWorker_handler (envs (Suc (Suc 0))) i w2 = (Inl (SearchError ''index request failed''), w3)"
    by blast
  show ?thesis
    unfolding process_index_job_def att using h1 h2 h3 by simp
qed

lemma process_index_job_recovers:
  assumes "getMessageById w i = Some m" and "map_of (s3_objects w) (msg_s3_key m) = Some raw"
      and "s3_available (envs 0) (msg_s3_key m)" and "\<not> es_available (envs 0)"
      and "s3_available (envs (Suc 0)) (msg_s3_key m)" and "es_available (envs (Suc 0))"
  shows "fst (process_index_job envs i w) = (Inr (), Suc (Suc 0)) \<and>
         msg_id m \<in> set (map fst (search_index (snd (process_index_job envs i w))))"
proof -
  have att: "attempts = Suc (Suc (Suc 0))" by (simp add: attempts_def)
  from indexWorker_handler_unreachable[OF assms(1,2,3,4)] obtain w1 where
    h1: "indexWorker_handler (envs 0) i w = (Inl (SearchError ''index request failed''), w1)" and
    f1: "db_messages w1 = db_messages w" "s3_objects w1 = s3_objects w" by blast
  have g1: "getMessageById w1 i = Some m" and o1: "map_of (s3_objects w1) (msg_s3_key m) = Some raw"
    using f1 assms(1,2) by (simp_all add: getMessageById_def)
  from indexWorker_handler_reachable[OF g1 o1 assms(5,6)] obtain w2 where
    h2: "indexWorker_handler (envs (Suc 0)) i w1 = (Inr (), w2)" and
    f2: "map fst (search_index w2) = msg_id m # filter (\<lambda>k. k \<noteq> msg_id m) (map fst (search_index w1))"
    by auto
  have "process_index_job envs i w = ((Inr (), Suc (Suc 0)), w2)"
    unfolding process_index_job_def att using h1 h2 by simp
  with f2 show ?thesis by simp
qed

text \<open>
  C7. Whatever the search engine does, processing an index job with all its attempts leaves
  storage (the accounts, threads, messages, attachments, sync jobs and the bucket) as it is;
  \<^verbatim>\<open>syncAccount\<close> returns the same result and the same world whether the search engine
  is reachable or not; an index job for a stored message whose upsert fails at every attempt
  is attempted \<open>attempts\<close> times and then fails as an index job; and one whose upsert fails
  at the first attempt and succeeds at the second completes, with the message in the index.
\<close>

theorem indexing_failure_isolated:
  "storage_state (snd (process_index_job envs i w)) = storage_state w \<and>
   syncAccount (env\<lparr>es_available := b\<rparr>) a opts w = syncAccount env a opts w \<and>
   (\<forall>m raw. getMessageById w i = Some m \<and> map_of (s3_objects w) (msg_s3_key m) = Some raw \<and>
       (\<forall>k<attempts. s3_available (envs k) (msg_s3_key m) \<and> \<not> es_available (envs k)) \<longrightarrow>
       fst (process_index_job envs i w) = (Inl (SearchError ''index request failed''), attempts)) \<and>
   (\<forall>m raw. getMessageById w i = Some m \<and> map_of (s3_objects w) (msg_s3_key m) = Some raw \<and>
       s3_available (envs 0) (msg_s3_key m) \<and> \<not> es_available (envs 0) \<and>
       s3_available (envs 1) (msg_s3_key m) \<and> es_available (envs 1) \<longrightarrow>
       fst (process_index_job envs i w) = (Inr (), 2) \<and>
       msg_id m \<in> set (map fst (search_index (snd (process_index_job envs i w)))))"
proof -
  have "\<forall>m raw. getMessageById w i = Some m \<and> map_of (s3_objects w) (msg_s3_key m) = Some raw \<and>
       s3_available (envs 0) (msg_s3_key m) \<and> \<not> es_available (envs 0) \<and>
       s3_available (envs 1) (msg_s3_key m) \<and> es_available (envs 1) \<longrightarrow>
       fst (process_index_job envs i w) = (Inr (), 2) \<and>
       msg_id m \<in> set (map fst (search_index (snd (process_index_job envs i w))))"
    using process_index_job_recovers[of w i _ _ envs] by (auto simp: numeral_2_eq_2)
  then show ?thesis
    using process_index_job_storage[of envs i w] syncAccount_es
      process_index_job_unreachable[of w i _ _ envs]
    by blast
qed



theorem indexing_failure_isolated_witness:
  "getMessageById world_stored msg1_id = Some message1 \<and>
   map_of (s3_objects world_stored) (msg_s3_key message1) = Some ''raw'' \<and>
   fst (process_index_job envs_down msg1_id world_stored) =
     (Inl (SearchError ''index request failed''), attempts) \<and>
   storage_state (snd (process_index_job envs_down msg1_id world_stored)) = storage_state world_stored \<and>
   fst (process_index_job envs_flaky msg1_id world_stored) = (Inr (), 2) \<and>
   msg1_id \<in> set (map fst (search_index (snd (process_index_job envs_flaky msg1_id world_stored))))"
proof -
  have g: "getMessageById world_stored msg1_id = Some message1"
    by (simp add: getMessageById_def row_defs world0_def)
  have i: "msg_id message1 = msg1_id" by (simp add: row_defs)
  have o: "map_of (s3_objects world_stored) (msg_s3_key message1) = Some ''raw''"
    by (simp add: world_stored_def world0_def)
  have d: "\<forall>k<attempts. s3_available (envs_down k) (msg_s3_key message1) \<and> \<not> es_available (envs_down k)"
    by (simp add: envs_down_def env0_def)
  have f: "s3_available (envs_flaky 0) (msg_s3_key message1) \<and> \<not> es_available (envs_flaky 0) \<and>
           s3_available (envs_flaky 1) (msg_s3_key message1) \<and> es_available (envs_flaky 1)"
    by (simp add: envs_flaky_def env0_def)
  from indexing_failure_isolated[where envs=envs_down and i=msg1_id and w=world_stored and env=env0
      and b=False and a=acct1_id and opts=no_options] g o d
  have a: "fst (process_index_job envs_down msg1_id world_stored) =
        (Inl (SearchError ''index request failed''), attempts) \<and>
      storage_state (snd (process_index_job envs_down msg1_id world_stored)) = storage_state world_stored"
    by blast
  from indexing_failure_isolated[where envs=envs_flaky and i=msg1_id and w=world_stored and env=env0
      and b=False and a=acct1_id and opts=no_options] g o f i
  have b: "fst (process_index_job envs_flaky msg1_id world_stored) = (Inr (), 2) \<and>
      msg1_id \<in> set (map fst (search_index (snd (process_index_job envs_flaky msg1_id world_stored))))"
    by metis
  from g o a b show ?thesis by blast
qed

subsection \<open>Credential refresh\<close>

lemmas refresh_defs = authorize_request_def eagerRefreshThresholdMillis_def on_tokens_def updateOAuthTokens_def getAccountCredentials_def
  storeAccountCredentials_def new_GmailAdapter_def adapter1_def world_refreshed_once_def
  world_refreshed_twice_def

text \<open>
  Against C8 as stated (one refresh and one credential persisted): two adapters are built
  from the credentials that the vault holds, and both find them expired. The token endpoint
  is called twice and the secret is written twice; the first adapter goes on with the tokens
  of the first answer while the vault holds those of the second.
\<close>

theorem two_refreshes_counterexample:
  "fst (getAccountCredentials acct1_id world0) = Some credentials1 \<and>
   refresh_calls world_refreshed_twice = 2 \<and>
   map (\<lambda>kv. (fst kv, map_option access_token (cred_oauth (snd kv)))) (vault_writes world_refreshed_twice) =
     [(acct1_id, Some ''new-at''), (acct1_id, Some ''new-at+'')] \<and>
   map_option access_token (ad_oauth (fst (authorize_request env0 5000 adapter1 world0))) = Some ''new-at'' \<and>
   map_option (\<lambda>c. map_option access_token (cred_oauth c)) (map_of (vault_kv world_refreshed_twice) acct1_id) =
     Some (Some ''new-at+'')"
  by (simp add: refresh_defs example_defs log_defs Let_def)

lemma updateOAuthTokens_found:
  assumes "map_of (vault_kv w) a = Some c"
  shows "updateOAuthTokens a tok w = (Inr (), storeAccountCredentials a (c\<lparr>cred_oauth := Some tok\<rparr>) w)"
  using assms by (simp add: updateOAuthTokens_def getAccountCredentials_def)

lemma storeAccountCredentials_read:
  "map_of (vault_kv (storeAccountCredentials a c w)) a = Some c"
  "vault_writes (storeAccountCredentials a c w) = vault_writes w @ [(a, c)]"
  "refresh_calls (storeAccountCredentials a c w) = refresh_calls w"
  by (simp_all add: storeAccountCredentials_def)

lemma on_tokens_persists:
  assumes "map_of (vault_kv w) a = Some c" and "ev_refresh_token ev = Some rt" and "rt \<noteq> []"
  shows "on_tokens a ev w =
           storeAccountCredentials a
             (c\<lparr>cred_oauth := Some \<lparr>access_token = ev_access_token ev, refresh_token = rt,
                                    expires_at = ev_expiry_date ev\<rparr>\<rparr>) w"
  using assms by (simp add: on_tokens_def updateOAuthTokens_found)

text \<open>
  C8, as the code has it. No lock is taken. For an account whose secret is in the vault: a
  \<^verbatim>\<open>tokens\<close> event without a refresh token writes nothing; an event with one replaces the
  OAuth part of the secret and nothing else, in one more write; of two such events the
  second one's tokens are what the vault holds in the end, after two writes; and every
  adapter whose own credentials have expired calls the token endpoint once more.
\<close>

theorem refresh_persists_each_event:
  assumes "map_of (vault_kv w) a = Some c"
  shows "(ev_refresh_token ev = None \<or> ev_refresh_token ev = Some [] \<longrightarrow> on_tokens a ev w = w) \<and>
         (\<forall>rt. ev_refresh_token ev = Some rt \<and> rt \<noteq> [] \<longrightarrow>
            map_of (vault_kv (on_tokens a ev w)) a =
              Some (c\<lparr>cred_oauth := Some \<lparr>access_token = ev_access_token ev, refresh_token = rt,
                                           expires_at = ev_expiry_date ev\<rparr>\<rparr>) \<and>
            vault_writes (on_tokens a ev w) =
              vault_writes w @
              [(a, c\<lparr>cred_oauth := Some \<lparr>access_token = ev_access_token ev, refresh_token = rt,
                                          expires_at = ev_expiry_date ev\<rparr>\<rparr>)] \<and>
            (\<forall>ev2 rt2. ev_refresh_token ev2 = Some rt2 \<and> rt2 \<noteq> [] \<longrightarrow>
               map_of (vault_kv (on_tokens a ev2 (on_tokens a ev w))) a =
                 Some (c\<lparr>cred_oauth := Some \<lparr>access_token = ev_access_token ev2, refresh_token = rt2,
                                              expires_at = ev_expiry_date ev2\<rparr>\<rparr>) \<and>
               length (vault_writes (on_tokens a ev2 (on_tokens a ev w))) =
                 length (vault_writes w) + 2)) \<and>
         (\<forall>ad tok. ad_oauth ad = Some tok \<and> expires_at tok \<le> now \<and> refresh_token tok \<noteq> [] \<longrightarrow>
            refresh_calls (snd (authorize_request env now ad w)) = Suc (refresh_calls w))"
proof -
  have p1: "ev_refresh_token ev = None \<or> ev_refresh_token ev = Some [] \<longrightarrow> on_tokens a ev w = w"
    by (auto simp: on_tokens_def)
  have p2: "\<forall>rt. ev_refresh_token ev = Some rt \<and> rt \<noteq> [] \<longrightarrow>
            map_of (vault_kv (on_tokens a ev w)) a =
              Some (c\<lparr>cred_oauth := Some \<lparr>access_token = ev_access_token ev, refresh_token = rt,
                                           expires_at = ev_expiry_date ev\<rparr>\<rparr>) \<and>
            vault_writes (on_tokens a ev w) =
              vault_writes w @
              [(a, c\<lparr>cred_oauth := Some \<lparr>access_token = ev_access_token ev, refresh_token = rt,
                                          expires_at = ev_expiry_date ev\<rparr>\<rparr>)] \<and>
            (\<forall>ev2 rt2. ev_refresh_token ev2 = Some rt2 \<and> rt2 \<noteq> [] \<longrightarrow>
               map_of (vault_kv (on_tokens a ev2 (on_tokens a ev w))) a =
                 Some (c\<lparr>cred_oauth := Some \<lparr>access_token = ev_access_token ev2, refresh_token = rt2,
                                              expires_at = ev_expiry_date ev2\<rparr>\<rparr>) \<and>
               length (vault_writes (on_tokens a ev2 (on_tokens a ev w))) =
                 length (vault_writes w) + 2)"
  proof (intro allI impI, elim conjE)
    fix rt assume r: "ev_refresh_token ev = Some rt" "rt \<noteq> []"
    let ?c1 = "c\<lparr>cred_oauth := Some \<lparr>access_token = ev_access_token ev, refresh_token = rt,
                                       expires_at = ev_expiry_date ev\<rparr>\<rparr>"
    note e1 = on_tokens_persists[OF assms r]
    have v1: "map_of (vault_kv (on_tokens a ev w)) a = Some ?c1"
      unfolding e1 by (rule storeAccountCredentials_read)
    have w1: "vault_writes (on_tokens a ev w) = vault_writes w @ [(a, ?c1)]"
      unfolding e1 by (rule storeAccountCredentials_read)
    have two: "\<forall>ev2 rt2. ev_refresh_token ev2 = Some rt2 \<and> rt2 \<noteq> [] \<longrightarrow>
               map_of (vault_kv (on_tokens a ev2 (on_tokens a ev w))) a =
                 Some (c\<lparr>cred_oauth := Some \<lparr>access_token = ev_access_token ev2, refresh_token = rt2,
                                              expires_at = ev_expiry_date ev2\<rparr>\<rparr>) \<and>
               length (vault_writes (on_tokens a ev2 (on_tokens a ev w))) = length (vault_writes w) + 2"
    proof (intro allI impI, elim conjE)
      fix ev2 :: token_event and rt2 assume r2: "ev_refresh_token ev2 = Some rt2" "rt2 \<noteq> []"
      note e2 = on_tokens_persists[OF v1 r2]
      show "map_of (vault_kv (on_tokens a ev2 (on_tokens a ev w))) a =
                 Some (c\<lparr>cred_oauth := Some \<lparr>access_token = ev_access_token ev2, refresh_token = rt2,
                                              expires_at = ev_expiry_date ev2\<rparr>\<rparr>) \<and>
            length (vault_writes (on_tokens a ev2 (on_tokens a ev w))) = length (vault_writes w) + 2"
        unfolding e2 by (simp add: storeAccountCredentials_read w1)
    qed
    from v1 w1 two
    show "map_of (vault_kv (on_tokens a ev w)) a = Some ?c1 \<and>
          vault_writes (on_tokens a ev w) = vault_writes w @ [(a, ?c1)] \<and>
          (\<forall>ev2 rt2. ev_refresh_token ev2 = Some rt2 \<and> rt2 \<noteq> [] \<longrightarrow>
               map_of (vault_kv (on_tokens a ev2 (on_tokens a ev w))) a =
                 Some (c\<lparr>cred_oauth := Some \<lparr>access_token = ev_access_token ev2, refresh_token = rt2,
                                              expires_at = ev_expiry_date ev2\<rparr>\<rparr>) \<and>
               length (vault_writes (on_tokens a ev2 (on_tokens a ev w))) = length (vault_writes w) + 2)"
      by blast
  qed
  have rc: "\<And>a ev w. refresh_calls (on_tokens a ev w) = refresh_calls w"
    by (auto simp: on_tokens_def updateOAuthTokens_def getAccountCredentials_def
          storeAccountCredentials_def log_defs split: option.splits)
  have p3: "\<forall>ad tok. ad_oauth ad = Some tok \<and> expires_at tok \<le> now \<and> refresh_token tok \<noteq> [] \<longrightarrow>
            refresh_calls (snd (authorize_request env now ad w)) = Suc (refresh_calls w)"
    by (auto simp: authorize_request_def eagerRefreshThresholdMillis_def Let_def rc)
  from p1 p2 p3 show ?thesis by blast
qed


theorem refresh_persists_each_event_witness:
  "map_of (vault_kv world0) acct1_id = Some credentials1 \<and>
   ev_refresh_token (token_endpoint env0 0) = Some ''new-rt'' \<and>
   on_tokens acct1_id ((token_endpoint env0 0)\<lparr>ev_refresh_token := None\<rparr>) world0 = world0 \<and>
   map_option cred_oauth (map_of (vault_kv (on_tokens acct1_id (token_endpoint env0 0) world0)) acct1_id) =
     Some (Some \<lparr>access_token = ''new-at'', refresh_token = ''new-rt'', expires_at = 9000\<rparr>) \<and>
   map_option cred_oauth
     (map_of (vault_kv (on_tokens acct1_id (token_endpoint env0 1) (on_tokens acct1_id (token_endpoint env0 0) world0)))
        acct1_id) =
     Some (Some \<lparr>access_token = ''new-at+'', refresh_token = ''new-rt+'', expires_at = 9000\<rparr>) \<and>
   length (vault_writes (on_tokens acct1_id (token_endpoint env0 1) (on_tokens acct1_id (token_endpoint env0 0) world0))) = 2 \<and>
   ad_oauth adapter1 = Some \<lparr>access_token = ''at'', refresh_token = ''rt'', expires_at = 3600\<rparr> \<and>
   refresh_calls (snd (authorize_request env0 5000 adapter1 world0)) = 1"
proof -
  let ?ev0 = "token_endpoint env0 0"
  let ?ev1 = "token_endpoint env0 1"
  have h: "map_of (vault_kv world0) acct1_id = Some credentials1" by (simp add: example_defs)
  have r0: "ev_refresh_token ?ev0 = Some ''new-rt''" "ev_access_token ?ev0 = ''new-at''"
    "ev_expiry_date ?ev0 = 9000" by (simp_all add: env0_def)
  have r1: "ev_refresh_token ?ev1 = Some ''new-rt+''" "ev_access_token ?ev1 = ''new-at+''"
    "ev_expiry_date ?ev1 = 9000" by (simp_all add: env0_def)
  have rn: "ev_refresh_token (?ev0\<lparr>ev_refresh_token := None\<rparr>) = None" by simp
  have ad: "ad_oauth adapter1 = Some \<lparr>access_token = ''at'', refresh_token = ''rt'', expires_at = 3600\<rparr>"
    by (simp add: adapter1_def new_GmailAdapter_def credentials1_def)
  have w0: "vault_writes world0 = []" "refresh_calls world0 = 0" by (simp_all add: world0_def)
  from refresh_persists_each_event[OF h, of "?ev0\<lparr>ev_refresh_token := None\<rparr>"] rn
  have a: "on_tokens acct1_id (?ev0\<lparr>ev_refresh_token := None\<rparr>) world0 = world0" by blast
  let ?c1 = "credentials1\<lparr>cred_oauth :=
      Some \<lparr>access_token = ''new-at'', refresh_token = ''new-rt'', expires_at = 9000\<rparr>\<rparr>"
  note t = refresh_persists_each_event[OF h, of ?ev0 5000 env0]
  from t r0 w0 have t1: "map_of (vault_kv (on_tokens acct1_id ?ev0 world0)) acct1_id = Some ?c1"
    and t2: "\<forall>ev2 rt2. ev_refresh_token ev2 = Some rt2 \<and> rt2 \<noteq> [] \<longrightarrow>
               map_of (vault_kv (on_tokens acct1_id ev2 (on_tokens acct1_id ?ev0 world0))) acct1_id =
                 Some (credentials1\<lparr>cred_oauth := Some \<lparr>access_token = ev_access_token ev2,
                         refresh_token = rt2, expires_at = ev_expiry_date ev2\<rparr>\<rparr>) \<and>
               length (vault_writes (on_tokens acct1_id ev2 (on_tokens acct1_id ?ev0 world0))) =
                 length (vault_writes world0) + 2"
    and t3: "\<forall>ad tok. ad_oauth ad = Some tok \<and> expires_at tok \<le> 5000 \<and> refresh_token tok \<noteq> [] \<longrightarrow>
            refresh_calls (snd (authorize_request env0 5000 ad world0)) = Suc (refresh_calls world0)"
    by auto
  from t1 have b: "map_option cred_oauth (map_of (vault_kv (on_tokens acct1_id ?ev0 world0)) acct1_id) =
     Some (Some \<lparr>access_token = ''new-at'', refresh_token = ''new-rt'', expires_at = 9000\<rparr>)"
    by simp
  from t2[rule_format, of ?ev1 "''new-rt+''"] r1 w0
  have c: "map_option cred_oauth
     (map_of (vault_kv (on_tokens acct1_id ?ev1 (on_tokens acct1_id ?ev0 world0))) acct1_id) =
     Some (Some \<lparr>access_token = ''new-at+'', refresh_token = ''new-rt+'', expires_at = 9000\<rparr>)"
   and d: "length (vault_writes (on_tokens acct1_id ?ev1 (on_tokens acct1_id ?ev0 world0))) = 2"
    by simp_all
  from t3[rule_format, of adapter1] ad w0
  have e: "refresh_calls (snd (authorize_request env0 5000 adapter1 world0)) = 1" by simp
  from h r0(1) a b c d ad e show ?thesis by blast
qed

subsection \<open>Further consequences\<close>

text \<open>A whole \<^verbatim>\<open>syncAccount\<close> call, whatever it fetches, leaves the rows of
  \<^verbatim>\<open>messages\<close>, \<^verbatim>\<open>threads\<close> and \<^verbatim>\<open>attachments\<close> as they are: the
  messages it fetches reach the bucket and the log only.\<close>

lemma step_message_tables: "message_tables (snd (step env a opts p w)) = message_tables w"
proof (cases p)
  case (PStore j ems n)
  show ?thesis
  proof (cases ems)
    case Nil
    with PStore show ?thesis by (simp add: completeSyncJob_def message_tables_def)
  next
    case (Cons em ems')
    obtain k w1 where l: "store_loop env a [em] n w = (k, w1)" by (cases "store_loop env a [em] n w")
    from store_loop_frame[OF l] PStore Cons l show ?thesis
      by (simp del: store_loop.simps add: message_tables_def)
  qed
next
  case (PFetch acct j)
  obtain fr w1 where f: "fetchMessages env
      \<lparr>sinceDate = Some (sync_since env opts acct), maxMessages = sync_max opts\<rparr> w = (fr, w1)"
    by (cases "fetchMessages env
      \<lparr>sinceDate = Some (sync_since env opts acct), maxMessages = sync_max opts\<rparr> w")
  from fetchMessages_frame[OF f] have "message_tables w1 = message_tables w"
    by (simp add: message_tables_def)
  with PFetch f show ?thesis by (cases fr) simp_all
qed (auto simp: message_tables_def updateAccountStatus_def updateSyncCursor_def failSyncJob_def
      sync_catch_def getAccountCredentials_def testConnection_def createSyncJob_def log_defs Let_def
      split: option.splits prod.splits sum.splits if_splits bool.splits)

lemma steps_message_tables: "message_tables (snd (steps n env a opts p w)) = message_tables w"
proof (induction n arbitrary: p w)
  case 0
  then show ?case by simp
next
  case (Suc n)
  obtain p1 w1 where s: "step env a opts p w = (p1, w1)" by (cases "step env a opts p w")
  from step_message_tables[of env a opts p w] s have "message_tables w1 = message_tables w" by simp
  with Suc.IH[of p1 w1] s show ?case by simp
qed

lemma syncAccount_message_tables:
  "message_tables (snd (syncAccount env a opts w)) = message_tables w"
proof -
  from steps_syncAccount[of env a opts w] obtain n where
    "steps n env a opts PStart w = (PDone (fst (syncAccount env a opts w)), snd (syncAccount env a opts w))"
    by blast
  with steps_message_tables[of n env a opts PStart w] show ?thesis by simp
qed

text \<open>A message with an attachment: the attachment row is inserted before the message
  row, under an identifier from \<^verbatim>\<open>nanoid\<close>, and is rejected for its syntax; the raw
  mail and the attachment are in the bucket by then.\<close>

lemma storeMessage_attachment_rejected:
  "fst (storeMessage env0 acct1_id
          ((mail ''A'' ''Hello'' None 10)
             \<lparr>hasAttachments := True,
              attachments := [\<lparr>filename = ''f.txt'', contentType = ''text/plain'', size_att = 1,
                               content = ''x''\<rparr>]\<rparr>) world0) =
     Inl (InvalidTextRepresentation (nanoid env0 1))"
  "map snd (s3_objects (snd (storeMessage env0 acct1_id
          ((mail ''A'' ''Hello'' None 10)
             \<lparr>hasAttachments := True,
              attachments := [\<lparr>filename = ''f.txt'', contentType = ''text/plain'', size_att = 1,
                               content = ''x''\<rparr>]\<rparr>) world0))) = [''x'', ''raw'']"
  by (simp_all add: store_defs world0_def mail_def env0_def Let_def nanoid_not_uuid)


end
